(* ===== verification/Prelude.thy ===== *)
theory Prelude
  imports Main "HOL-Library.Word"
begin

unbundle bit_operations_syntax

text \<open>
  The types, collections and generic lemmas that every component shares.
  \<^item> Go strings are byte lists, which is HOL's \<open>string\<close> (a \<open>char\<close> is a byte), so
    \<open>length\<close> is Go's \<open>len\<close>.
  \<^item> \<open>time.Time\<close> is an \<open>int\<close> of nanoseconds since the epoch; \<open>time.Duration\<close> an
    \<open>int\<close> of nanoseconds.  The clock is never read inside a definition: every
    operation that calls \<open>time.Now()\<close> takes the instant as its argument \<open>now\<close>.
  \<^item> a fallible function returns a sum, \<open>Inl\<close> the error and \<open>Inr\<close> the result.
\<close>

section \<open>Types\<close>

type_synonym u8 = "8 word"
type_synonym u32 = "32 word"
type_synonym instant = int
type_synonym duration = int

abbreviation second :: duration where "second \<equiv> 1000000000"
abbreviation minute :: duration where "minute \<equiv> 60 * second"
abbreviation hour :: duration where "hour \<equiv> 60 * minute"

section \<open>Collections of facts\<close>

text \<open>
  \<open>inv_defs\<close>: the definitions of the components' invariants; \<open>op_defs\<close>: the
  operations whose bodies a proof may open together.
\<close>

named_theorems inv_defs
named_theorems op_defs

section \<open>Go strings\<close>

text \<open>\<open>strings.HasPrefix\<close>, \<open>strings.HasSuffix\<close>, \<open>strings.TrimPrefix\<close>, \<open>strings.TrimSuffix\<close>.\<close>

definition has_prefix :: "string \<Rightarrow> string \<Rightarrow> bool" where
  "has_prefix s p \<longleftrightarrow> length p \<le> length s \<and> take (length p) s = p"

definition has_suffix :: "string \<Rightarrow> string \<Rightarrow> bool" where
  "has_suffix s p \<longleftrightarrow> length p \<le> length s \<and> drop (length s - length p) s = p"

definition trim_prefix :: "string \<Rightarrow> string \<Rightarrow> string" where
  "trim_prefix s p = (if has_prefix s p then drop (length p) s else s)"

definition trim_suffix :: "string \<Rightarrow> string \<Rightarrow> string" where
  "trim_suffix s p = (if has_suffix s p then take (length s - length p) s else s)"

text \<open>\<open>strings.Contains\<close>: the substring occurs at some offset.\<close>

fun contains :: "string \<Rightarrow> string \<Rightarrow> bool" where
  "contains [] p = (p = [])"
| "contains (c # s) p = (has_prefix (c # s) p \<or> contains s p)"

lemma has_prefix_iff: "has_prefix s p \<longleftrightarrow> (\<exists>t. s = p @ t)"
  by (auto simp: has_prefix_def) (metis append_take_drop_id)

lemma has_prefix_append [simp, intro]: "has_prefix (p @ t) p"
  by (simp add: has_prefix_def)

lemma has_suffix_append [simp, intro]: "has_suffix (t @ p) p"
  by (simp add: has_suffix_def)

lemma contains_iff: "contains s p \<longleftrightarrow> (\<exists>a b. s = a @ p @ b)"
proof (induction s)
  case Nil
  then show ?case by simp
next
  case (Cons c s)
  show ?case
  proof
    assume "contains (c # s) p"
    then consider "has_prefix (c # s) p" | "contains s p" by auto
    then show "\<exists>a b. c # s = a @ p @ b"
    proof cases
      case 1
      then obtain t where "c # s = [] @ p @ t" by (auto simp: has_prefix_iff)
      then show ?thesis by blast
    next
      case 2
      with Cons.IH obtain a b where "s = a @ p @ b" by blast
      then have "c # s = (c # a) @ p @ b" by simp
      then show ?thesis by blast
    qed
  next
    assume "\<exists>a b. c # s = a @ p @ b"
    then obtain a b where eq: "c # s = a @ p @ b" by blast
    show "contains (c # s) p"
    proof (cases a)
      case Nil
      with eq have "has_prefix (c # s) p" by simp
      then show ?thesis by simp
    next
      case (Cons d a')
      with eq have "s = a' @ p @ b" by simp
      with Cons.IH show ?thesis by auto
    qed
  qed
qed

lemma contains_middle [simp, intro]: "contains (a @ p @ b) p"
  by (auto simp: contains_iff)

lemma contains_set: "contains s p \<Longrightarrow> set p \<subseteq> set s"
  by (auto simp: contains_iff)

section \<open>Maps\<close>

lemma map_upd_ran_other: "m k = Some v \<Longrightarrow> k \<noteq> k' \<Longrightarrow> (m(k' \<mapsto> v')) k = Some v"
  by simp

lemma delete_lookup [simp]: "(m(k := None)) k' = (if k' = k then None else m k')"
  by simp

section \<open>Formatting numbers\<close>

text \<open>The decimal digits \<open>%d\<close> and \<open>strconv.Itoa\<close> print.\<close>

definition digit :: "nat \<Rightarrow> char" where
  "digit n = char_of (48 + n)"

fun nat_str :: "nat \<Rightarrow> string" where
  "nat_str n = (if n < 10 then [digit n] else nat_str (n div 10) @ [digit (n mod 10)])"

declare nat_str.simps [simp del]

definition int_str :: "int \<Rightarrow> string" where
  "int_str i = (if i < 0 then CHR ''-'' # nat_str (nat (- i)) else nat_str (nat i))"

lemma digit_inj: "a < 10 \<Longrightarrow> b < 10 \<Longrightarrow> digit a = digit b \<longleftrightarrow> a = b"
  by (simp add: digit_def of_char_eq_iff [symmetric])

lemma nat_str_nonempty [simp]: "nat_str n \<noteq> []" "[] \<noteq> nat_str n"
  by (subst nat_str.simps, simp)+

lemma nat_str_digits: "set (nat_str n) \<subseteq> digit ` {..<10}"
proof (induction n rule: nat_str.induct)
  case (1 n)
  then show ?case by (subst nat_str.simps) auto
qed

lemma nat_str_inj: "nat_str m = nat_str n \<Longrightarrow> m = n"
proof (induction m arbitrary: n rule: nat_str.induct)
  case (1 m)
  show ?case
  proof (cases "m < 10 \<or> n < 10")
    case True
    with "1.prems" show ?thesis
      by (auto simp: nat_str.simps [of m] nat_str.simps [of n] digit_inj split: if_splits)
  next
    case False
    with "1.prems" have "nat_str (m div 10) = nat_str (n div 10)" and "m mod 10 = n mod 10"
      by (auto simp: nat_str.simps [of m] nat_str.simps [of n] digit_inj)
    with "1.IH" False have "m div 10 = n div 10" by auto
    with \<open>m mod 10 = n mod 10\<close> show ?thesis by (metis div_mult_mod_eq)
  qed
qed

section \<open>strings.ToLower and strings.EqualFold\<close>

text \<open>
  The code lower-cases and folds text only to compare it with ASCII constants, so what
  matters is which inputs come out as ASCII: the ASCII letters, and the non-ASCII characters
  that map to one, U+0130 (to \<open>i\<close>) and U+212A KELVIN SIGN (to \<open>k\<close>) under \<open>ToLower\<close>.  The
  bytes of any other character are kept, which leaves the result outside ASCII as in Go.
\<close>

definition lower_char :: "char \<Rightarrow> char" where
  "lower_char c =
     (if 65 \<le> (of_char c :: nat) \<and> of_char c \<le> (90 :: nat) then char_of (of_char c + 32 :: nat) else c)"

fun ToLower :: "string \<Rightarrow> string" where
  "ToLower [] = []"
| "ToLower [c] = [lower_char c]"
| "ToLower [c, d] =
     (if c = CHR 0xC4 \<and> d = CHR 0xB0 then ''i'' else [lower_char c, lower_char d])"
| "ToLower (c # d # e # s) =
     (if c = CHR 0xC4 \<and> d = CHR 0xB0 then CHR ''i'' # ToLower (e # s)
      else if c = CHR 0xE2 \<and> d = CHR 0x84 \<and> e = CHR 0xAA then CHR ''k'' # ToLower s
      else lower_char c # ToLower (d # e # s))"

lemma ToLower_ascii: "\<forall>c\<in>set s. of_char c < (128 :: nat) \<Longrightarrow> ToLower s = map lower_char s"
  by (induction s rule: ToLower.induct) auto

section \<open>strconv.Atoi\<close>

text \<open>
  \<open>strconv.Atoi\<close> (and \<open>ParseInt(s, 10, 64)\<close>): an optional sign and at least one decimal
  digit.  The result is the value and whether an error was reported; out of range the value
  is the nearest \<open>int64\<close>, and a syntax error gives 0.
\<close>

definition is_digit :: "char \<Rightarrow> bool" where
  "is_digit c \<longleftrightarrow> 48 \<le> (of_char c :: nat) \<and> of_char c \<le> (57 :: nat)"

definition digits_val :: "string \<Rightarrow> nat" where
  "digits_val s = foldl (\<lambda>n c. 10 * n + (of_char c - 48)) 0 s"

abbreviation max_int64 :: int where "max_int64 \<equiv> 9223372036854775807"
abbreviation min_int64 :: int where "min_int64 \<equiv> - 9223372036854775808"

definition Atoi :: "string \<Rightarrow> int \<times> bool" where
  "Atoi s =
     (let neg = (case s of c # _ \<Rightarrow> c = CHR ''-'' | [] \<Rightarrow> False);
          ds = (case s of c # r \<Rightarrow> if c = CHR ''-'' \<or> c = CHR ''+'' then r else s | [] \<Rightarrow> []) in
      if ds = [] \<or> \<not> list_all is_digit ds then (0, True)
      else let v = (if neg then - int (digits_val ds) else int (digits_val ds)) in
           if v > max_int64 then (max_int64, True)
           else if v < min_int64 then (min_int64, True)
           else (v, False))"

lemma Atoi_range: "min_int64 \<le> fst (Atoi s) \<and> fst (Atoi s) \<le> max_int64"
  by (auto simp: Atoi_def Let_def)

lemma foldl_digits: "foldl (\<lambda>n c. 10 * n + (of_char c - 48)) a s = a * 10 ^ length s + digits_val s"
proof (induction s arbitrary: a)
  case Nil
  then show ?case by (simp add: digits_val_def)
next
  case (Cons c s)
  from Cons [of "10 * a + (of_char c - 48)"] Cons [of "of_char c - 48"] show ?case
    by (simp add: digits_val_def algebra_simps)
qed

lemma digits_val_snoc: "digits_val (s @ [c]) = 10 * digits_val s + (of_char c - 48)"
  by (simp add: digits_val_def)

lemma of_char_digit: "n < 10 \<Longrightarrow> of_char (digit n) = 48 + n"
  by (simp add: digit_def)

lemma nat_str_Atoi_digits: "digits_val (nat_str n) = n \<and> list_all is_digit (nat_str n)"
proof (induction n rule: nat_str.induct)
  case (1 n)
  show ?case
  proof (cases "n < 10")
    case True
    then show ?thesis
      by (simp add: nat_str.simps [of n] digits_val_def is_digit_def of_char_digit)
  next
    case False
    with 1 show ?thesis
      by (simp add: nat_str.simps [of n] digits_val_snoc is_digit_def of_char_digit)
  qed
qed

lemma nat_str_hd_digit: "is_digit (hd (nat_str n))"
  using nat_str_Atoi_digits [of n] by (cases "nat_str n") auto

lemma is_digit_not_sign: "is_digit c \<Longrightarrow> c \<noteq> CHR ''-'' \<and> c \<noteq> CHR ''+''"
  by (auto simp: is_digit_def)

text \<open>Parsing what \<open>Itoa\<close> prints gives the number back.\<close>

lemma Atoi_nat_str: "int n \<le> max_int64 \<Longrightarrow> Atoi (nat_str n) = (int n, False)"
  using nat_str_Atoi_digits [of n] nat_str_hd_digit [of n] is_digit_not_sign [of "hd (nat_str n)"]
  by (cases "nat_str n") (auto simp: Atoi_def Let_def)

lemma Atoi_int_str:
  assumes "min_int64 \<le> i" and "i \<le> max_int64"
  shows "Atoi (int_str i) = (i, False)"
proof (cases "i < 0")
  case True
  have "digits_val (nat_str (nat (- i))) = nat (- i)" "list_all is_digit (nat_str (nat (- i)))"
    using nat_str_Atoi_digits by auto
  with True assms show ?thesis by (simp add: int_str_def Atoi_def Let_def)
next
  case False
  then show ?thesis using Atoi_nat_str [of "nat i"] assms by (simp add: int_str_def)
qed

end
