(* ===== verification/Net_Ip.thy ===== *)
theory Net_Ip
  imports Prelude
begin

text \<open>
  \<open>net.IP\<close> as the network code uses it, and the two conversions of
  \<open>backend/internal/network/leasepool.go\<close> between an IPv4 address and its big-endian
  \<open>uint32\<close>.
\<close>

section \<open>IP addresses\<close>

text \<open>
  \<open>net.IP\<close> is a byte slice; \<open>nil\<close> is the empty list.  \<open>To4\<close> returns the 4-byte form
  (a 4-byte slice, or an IPv4-mapped 16-byte slice), else \<open>nil\<close>.
\<close>

type_synonym net_ip = "u8 list"

definition To4 :: "net_ip \<Rightarrow> net_ip" where
  "To4 ip =
     (if length ip = 4 then ip
      else if length ip = 16 \<and> take 10 ip = replicate 10 0 \<and> ip ! 10 = 0xff \<and> ip ! 11 = 0xff
      then drop 12 ip else [])"

definition IPv4zero :: net_ip where
  "IPv4zero = replicate 10 0 @ [0xff, 0xff] @ [0, 0, 0, 0]"

text \<open>\<open>IP.Equal\<close>: an IPv4 address and its 16-byte form are the same address.\<close>

definition ip_equal :: "net_ip \<Rightarrow> net_ip \<Rightarrow> bool" where
  "ip_equal a b \<longleftrightarrow>
     (if length a = length b then a = b
      else if length a = 4 \<and> length b = 16 then To4 b = a
      else if length a = 16 \<and> length b = 4 then To4 a = b
      else False)"

definition IsUnspecified :: "net_ip \<Rightarrow> bool" where
  "IsUnspecified ip \<longleftrightarrow> ip_equal ip IPv4zero \<or> ip = replicate 16 0"

datatype pool_error = NotIPv4 net_ip | StartAfterEnd net_ip net_ip

text \<open>\<open>binary.BigEndian.Uint32\<close> and \<open>PutUint32\<close>.\<close>

definition be_uint32 :: "u8 list \<Rightarrow> u32" where
  "be_uint32 b = ucast (b ! 3) OR push_bit 8 (ucast (b ! 2))
                 OR push_bit 16 (ucast (b ! 1)) OR push_bit 24 (ucast (b ! 0))"

definition ipToUint :: "net_ip \<Rightarrow> pool_error + u32" where
  "ipToUint ip = (let v4 = To4 ip in if v4 = [] then Inl (NotIPv4 ip) else Inr (be_uint32 v4))"

definition uintToIP :: "u32 \<Rightarrow> net_ip" where
  "uintToIP n = [ucast (drop_bit 24 n), ucast (drop_bit 16 n), ucast (drop_bit 8 n), ucast n]"

text \<open>\<open>IP.String\<close> of an IPv4 address: dotted decimal.\<close>

definition ip4_string :: "u8 list \<Rightarrow> string" where
  "ip4_string b = nat_str (unat (b ! 0)) @ ''.'' @ nat_str (unat (b ! 1)) @ ''.''
                  @ nat_str (unat (b ! 2)) @ ''.'' @ nat_str (unat (b ! 3))"

lemma length_uintToIP [simp]: "length (uintToIP n) = 4"
  by (simp add: uintToIP_def)

lemma uintToIP_not_nil [simp]: "uintToIP n \<noteq> []" "[] \<noteq> uintToIP n"
  by (simp_all add: uintToIP_def)

lemma To4_uintToIP [simp]: "To4 (uintToIP n) = uintToIP n"
  by (simp add: To4_def)

lemma To4_cases: "To4 ip = [] \<or> length (To4 ip) = 4"
  by (simp add: To4_def)

lemma be_uint32_uintToIP [simp]: "be_uint32 (uintToIP n) = n"
proof (rule bit_word_eqI)
  fix i assume "i < LENGTH(32)"
  then show "bit (be_uint32 (uintToIP n)) i \<longleftrightarrow> bit n i"
    by (cases "i < 8"; cases "i < 16"; cases "i < 24") (auto simp: be_uint32_def uintToIP_def bit_simps)
qed

lemma ipToUint_uintToIP [simp]: "ipToUint (uintToIP n) = Inr n"
  by (simp add: ipToUint_def)

lemma be_uint32_bits:
  assumes "length b = 4" and "k < 4" and "i < 8"
  shows "bit (be_uint32 b) (i + 8 * (3 - k)) = bit (b ! k) i"
proof -
  have "k = 0 \<or> k = 1 \<or> k = 2 \<or> k = 3" using assms(2) by auto
  then show ?thesis
    using assms(3) by (auto simp: be_uint32_def bit_simps dest: bit_imp_le_length)
qed

lemma be_uint32_inj:
  assumes "length a = 4" and "length b = 4" and "be_uint32 a = be_uint32 b"
  shows "a = b"
proof (rule nth_equalityI)
  show "length a = length b" using assms by simp
next
  fix k assume "k < length a"
  then have k: "k < 4" using assms by simp
  show "a ! k = b ! k"
  proof (rule bit_word_eqI)
    fix i assume "i < LENGTH(8)"
    then show "bit (a ! k) i = bit (b ! k) i"
      using be_uint32_bits [OF assms(1) k, of i] be_uint32_bits [OF assms(2) k, of i] assms(3)
      by simp
  qed
qed

lemma ipToUint_Inr_To4: "ipToUint ip = Inr n \<Longrightarrow> To4 ip = uintToIP n"
proof -
  assume *: "ipToUint ip = Inr n"
  then have len: "length (To4 ip) = 4"
    using To4_cases [of ip] by (auto simp: ipToUint_def Let_def split: if_splits)
  from * have "be_uint32 (To4 ip) = n"
    by (auto simp: ipToUint_def Let_def split: if_splits)
  then have "be_uint32 (To4 ip) = be_uint32 (uintToIP n)" by simp
  then show ?thesis by (rule be_uint32_inj [OF len length_uintToIP])
qed

lemma ip_equal_uint:
  assumes "ip_equal (uintToIP n) ip"
  shows "ipToUint ip = Inr n"
proof -
  from assms have "To4 ip = uintToIP n"
    by (auto simp: ip_equal_def To4_def split: if_splits)
  then show ?thesis by (simp add: ipToUint_def)
qed

end
