(* ===== verification/Pxe.thy ===== *)
theory Pxe
  imports Net_Ip
begin

text \<open>
  The DHCP messages the boot services read and write, and the PXE part of every answer:
  \<open>backend/internal/network/pxe.go\<close>.  Messages are the decoded form that the
  \<open>dhcpv4\<close> library hands over: a field for every accessor the code calls on a request, and
  for a reply the header fields and the option table that the code sets.
\<close>

section \<open>Messages\<close>

datatype OpcodeType = OpcodeBootRequest | OpcodeBootReply

datatype MessageType =
  MessageTypeNone | MessageTypeDiscover | MessageTypeOffer | MessageTypeRequest
| MessageTypeDecline | MessageTypeAck | MessageTypeNak | MessageTypeRelease | MessageTypeInform

text \<open>The client architectures of option 93 that the code names, and all the others.\<close>

datatype Arch = INTEL_X86PC | EFI_IA32 | EFI_X86_64 | EFI_BC | EFI_ARM64 | OtherArch nat

record dhcp_req =
  rqOpCode :: OpcodeType
  rqMessageType :: MessageType
  rqClientHWAddr :: string
  rqClientIPAddr :: net_ip
  rqRequestedIP :: net_ip
  rqHostName :: string
  rqClassIdentifier :: string
  rqUserClass :: "string list"
  rqClientArch :: "Arch list"
  rqServerIdentifier :: net_ip
  rqIsBroadcast :: bool

datatype opt_code =
  OptMessageType | OptServerIdentifier | OptSubnetMask | OptIPAddressLeaseTime | OptRouter
| OptDNS | OptTFTPServerName | OptBootFileName | OptClassIdentifier | OptVendorSpecific

datatype opt_value =
  VType MessageType | VIP net_ip | VIPs "net_ip list" | VText string | VDuration duration
| VBytes "u8 list"

record dhcp_reply =
  rpYourIPAddr :: net_ip
  rpServerIPAddr :: net_ip
  rpBootFileName :: string
  rpOptions :: "opt_code \<rightharpoonup> opt_value"

definition UpdateOption :: "opt_code \<Rightarrow> opt_value \<Rightarrow> dhcp_reply \<Rightarrow> dhcp_reply" where
  "UpdateOption c v r = r\<lparr>rpOptions := (rpOptions r)(c \<mapsto> v)\<rparr>"

section \<open>pxe.go\<close>

record BootConfig =
  bcServerIP :: net_ip
  bcScriptURL :: string

definition isIPXE :: "dhcp_req \<Rightarrow> bool" where
  "isIPXE req \<longleftrightarrow> (\<exists>uc\<in>set (rqUserClass req). uc = ''iPXE'')"

definition isPXERequest :: "dhcp_req \<Rightarrow> bool" where
  "isPXERequest req \<longleftrightarrow>
     has_prefix (rqClassIdentifier req) ''PXEClient''
     \<or> has_prefix (rqClassIdentifier req) ''HTTPClient''
     \<or> isIPXE req"

definition bootFilename :: "BootConfig \<Rightarrow> dhcp_req \<Rightarrow> string" where
  "bootFilename c req =
     (if isIPXE req then bcScriptURL c
      else case rqClientArch req of
             [] \<Rightarrow> ''undionly.kpxe''
           | a # _ \<Rightarrow>
               (case a of
                  INTEL_X86PC \<Rightarrow> ''undionly.kpxe''
                | EFI_IA32 \<Rightarrow> ''ipxe-i386.efi''
                | EFI_X86_64 \<Rightarrow> ''ipxe.efi''
                | EFI_BC \<Rightarrow> ''ipxe.efi''
                | EFI_ARM64 \<Rightarrow> ''ipxe-arm64.efi''
                | OtherArch _ \<Rightarrow> ''''))"

definition FirmwareOf :: "dhcp_req \<Rightarrow> string" where
  "FirmwareOf req =
     (case rqClientArch req of
        [] \<Rightarrow> ''bios''
      | a # _ \<Rightarrow> if a = INTEL_X86PC then ''bios'' else ''uefi'')"

text \<open>
  \<open>None\<close> is the error of an unsupported architecture, in which case the reply is untouched.
  \<open>ServerIP\<close> is an IPv4 address (\<open>detectServerIP\<close> returns \<open>To4\<close>), printed in dotted form.
\<close>

definition applyPXEOptions :: "BootConfig \<Rightarrow> dhcp_reply \<Rightarrow> dhcp_req \<Rightarrow> dhcp_reply option" where
  "applyPXEOptions c reply req =
     (let filename = bootFilename c req in
      if filename = '''' then None
      else Some
        (UpdateOption OptVendorSpecific (VBytes [6, 1, 8, 255])
         (UpdateOption OptClassIdentifier (VText ''PXEClient'')
          (UpdateOption OptBootFileName (VText filename)
           (UpdateOption OptTFTPServerName (VText (ip4_string (To4 (bcServerIP c))))
            (reply\<lparr>rpServerIPAddr := bcServerIP c, rpBootFileName := filename\<rparr>))))))"

section \<open>Facts\<close>

lemma applyPXEOptions_keeps:
  assumes "applyPXEOptions c reply req = Some r"
  shows "rpYourIPAddr r = rpYourIPAddr reply"
    and "rpBootFileName r = bootFilename c req"
    and "rpServerIPAddr r = bcServerIP c"
    and "code \<notin> {OptTFTPServerName, OptBootFileName, OptClassIdentifier, OptVendorSpecific} \<Longrightarrow>
           rpOptions r code = rpOptions reply code"
  using assms by (auto simp: applyPXEOptions_def UpdateOption_def Let_def split: if_splits)

lemma applyPXEOptions_None: "applyPXEOptions c reply req = None \<longleftrightarrow> bootFilename c req = ''''"
  by (simp add: applyPXEOptions_def Let_def)

lemma UpdateOption_simps [simp]:
  "rpYourIPAddr (UpdateOption c v r) = rpYourIPAddr r"
  "rpServerIPAddr (UpdateOption c v r) = rpServerIPAddr r"
  "rpBootFileName (UpdateOption c v r) = rpBootFileName r"
  "rpOptions (UpdateOption c v r) = (rpOptions r)(c \<mapsto> v)"
  by (simp_all add: UpdateOption_def)

text \<open>The firmware a boot file is built for.\<close>

lemma bootFilename_bios:
  "\<not> isIPXE req \<Longrightarrow> bootFilename c req = ''undionly.kpxe'' \<longleftrightarrow> FirmwareOf req = ''bios''"
  by (auto simp: bootFilename_def FirmwareOf_def split: list.splits Arch.splits)

lemma bootFilename_ipxe: "isIPXE req \<Longrightarrow> bootFilename c req = bcScriptURL c"
  by (simp add: bootFilename_def)

end
