(* ===== verification/Lease_Pool.thy ===== *)
theory Lease_Pool
  imports Net_Ip
begin

text \<open>
  The DHCP lease pool of \<open>backend/internal/network/leasepool.go\<close>: the two indexes
  \<open>byMAC\<close> and \<open>byIP\<close>, allocation, confirmation, release and restore, with the
  \<open>LeaseStore\<close> interface they mirror leases to.  \<open>firstFree\<close> is the Go loop on
  \<open>uint32\<close>, wrap-around included, so it is a partial function: \<open>None\<close> is
  \<open>does not return\<close>.  The pool's mutex makes each operation atomic.
\<close>

section \<open>State\<close>

text \<open>
  A \<open>poolLease\<close> is allocated once and never written again, so the two maps share values
  instead of pointers.
\<close>

record poolLease =
  plMac :: string
  plIp :: u32
  plExpires :: instant

record LeasePool =
  pStart :: u32
  pEnd :: u32
  pDuration :: duration
  byMAC :: "string \<rightharpoonup> poolLease"
  byIP :: "u32 \<rightharpoonup> poolLease"

text \<open>
  The \<open>LeaseStore\<close> interface over a store state \<open>'s\<close>; the flag of a result is
  \<open>err != nil\<close>.  The arguments of \<open>UpsertLease\<close> are mac, ip, hostname, expiresAt.
\<close>

record 's LeaseStore =
  UpsertLease :: "string \<Rightarrow> string \<Rightarrow> string \<Rightarrow> instant \<Rightarrow> 's \<Rightarrow> 's \<times> bool"
  DeleteLease :: "string \<Rightarrow> 's \<Rightarrow> 's \<times> bool"

section \<open>Operations\<close>

definition NewLeasePool :: "net_ip \<Rightarrow> net_ip \<Rightarrow> duration \<Rightarrow> pool_error + LeasePool" where
  "NewLeasePool start end dur =
     (case ipToUint start of
        Inl e \<Rightarrow> Inl e
      | Inr s \<Rightarrow>
          (case ipToUint end of
             Inl e \<Rightarrow> Inl e
           | Inr e \<Rightarrow>
               if s > e then Inl (StartAfterEnd start end)
               else Inr \<lparr>pStart = s, pEnd = e, pDuration = dur,
                         byMAC = Map.empty, byIP = Map.empty\<rparr>))"

definition Restore :: "LeasePool \<Rightarrow> string \<Rightarrow> net_ip \<Rightarrow> instant \<Rightarrow> LeasePool" where
  "Restore p mac ip expires =
     (case ipToUint ip of
        Inl _ \<Rightarrow> p
      | Inr n \<Rightarrow>
          if n < pStart p \<or> n > pEnd p then p
          else let l = \<lparr>plMac = mac, plIp = n, plExpires = expires\<rparr>
               in p\<lparr>byMAC := (byMAC p)(mac \<mapsto> l), byIP := (byIP p)(n \<mapsto> l)\<rparr>)"

text \<open>\<open>l == nil || now.After(l.expires)\<close>, the test of \<open>isFree\<close> and \<open>firstFree\<close>.\<close>

definition addr_free :: "LeasePool \<Rightarrow> instant \<Rightarrow> u32 \<Rightarrow> bool" where
  "addr_free p now n = (case byIP p n of None \<Rightarrow> True | Some l \<Rightarrow> now > plExpires l)"

definition isFree :: "LeasePool \<Rightarrow> net_ip \<Rightarrow> instant \<Rightarrow> bool" where
  "isFree p ip now =
     (case ipToUint ip of
        Inl _ \<Rightarrow> False
      | Inr n \<Rightarrow> if n < pStart p \<or> n > pEnd p then False else addr_free p now n)"

partial_function (option) firstFree_loop :: "LeasePool \<Rightarrow> instant \<Rightarrow> u32 \<Rightarrow> (u32 \<times> bool) option" where
  "firstFree_loop p now n =
     (if n \<le> pEnd p
      then if addr_free p now n then Some (n, True) else firstFree_loop p now (n + 1)
      else Some (0, False))"

definition firstFree :: "LeasePool \<Rightarrow> instant \<Rightarrow> (u32 \<times> bool) option" where
  "firstFree p now = firstFree_loop p now (pStart p)"

text \<open>
  The switch of \<open>Allocate\<close>: the outer option is termination, the inner one is
  \<open>return nil\<close>.
\<close>

definition choose_ip :: "LeasePool \<Rightarrow> instant \<Rightarrow> string \<Rightarrow> net_ip \<Rightarrow> u32 option option" where
  "choose_ip p now mac requested =
     (case byMAC p mac of
        Some l \<Rightarrow> Some (Some (plIp l))
      | None \<Rightarrow>
          if isFree p requested now
          then Some (Some (case ipToUint requested of Inr n \<Rightarrow> n | Inl _ \<Rightarrow> 0))
          else (case firstFree p now of
                  None \<Rightarrow> None
                | Some (free, ok) \<Rightarrow> Some (if ok then Some free else None)))"

definition assign_ip :: "LeasePool \<Rightarrow> instant \<Rightarrow> string \<Rightarrow> u32 \<Rightarrow> LeasePool" where
  "assign_ip p now mac ip =
     (let macs = (case byIP p ip of
                    Some old \<Rightarrow> if plMac old \<noteq> mac then (byMAC p)(plMac old := None) else byMAC p
                  | None \<Rightarrow> byMAC p);
          l = \<lparr>plMac = mac, plIp = ip, plExpires = now + pDuration p\<rparr>
      in p\<lparr>byMAC := macs(mac \<mapsto> l), byIP := (byIP p)(ip \<mapsto> l)\<rparr>)"

definition Allocate ::
    "'s LeaseStore option \<Rightarrow> LeasePool \<Rightarrow> 's \<Rightarrow> instant \<Rightarrow> string \<Rightarrow> net_ip \<Rightarrow> string
     \<Rightarrow> (LeasePool \<times> 's \<times> net_ip) option" where
  "Allocate store p st now mac requested hostname =
     (case choose_ip p now mac requested of
        None \<Rightarrow> None
      | Some None \<Rightarrow> Some (p, st, [])
      | Some (Some ip) \<Rightarrow>
          let st' = (case store of
                       None \<Rightarrow> st
                     | Some ls \<Rightarrow> fst (UpsertLease ls mac (ip4_string (uintToIP ip)) hostname
                                       (now + pDuration p) st))
          in Some (assign_ip p now mac ip, st', uintToIP ip))"

definition Confirm :: "LeasePool \<Rightarrow> instant \<Rightarrow> string \<Rightarrow> net_ip \<Rightarrow> bool" where
  "Confirm p now mac ip =
     (case byMAC p mac of
        None \<Rightarrow> False
      | Some l \<Rightarrow>
          if now > plExpires l then False
          else (case ipToUint ip of Inl _ \<Rightarrow> False | Inr n \<Rightarrow> n = plIp l))"

definition Release :: "'s LeaseStore option \<Rightarrow> LeasePool \<Rightarrow> 's \<Rightarrow> string \<Rightarrow> LeasePool \<times> 's" where
  "Release store p st mac =
     (case byMAC p mac of
        None \<Rightarrow> (p, st)
      | Some l \<Rightarrow>
          (p\<lparr>byMAC := (byMAC p)(mac := None), byIP := (byIP p)(plIp l := None)\<rparr>,
           (case store of None \<Rightarrow> st | Some ls \<Rightarrow> fst (DeleteLease ls mac st))))"

section \<open>The scan\<close>

text \<open>
  Below the last address the loop visits \<open>n, n + 1, \<dots>, pEnd\<close> and returns: the first free
  address, or \<open>False\<close> when all are taken.
\<close>

definition scan_result :: "LeasePool \<Rightarrow> instant \<Rightarrow> u32 \<Rightarrow> u32 \<Rightarrow> bool \<Rightarrow> bool" where
  "scan_result p now n r ok \<longleftrightarrow>
     (if ok then n \<le> r \<and> r \<le> pEnd p \<and> addr_free p now r \<and>
                 (\<forall>m. n \<le> m \<and> m < r \<longrightarrow> \<not> addr_free p now m)
      else \<forall>m. n \<le> m \<and> m \<le> pEnd p \<longrightarrow> \<not> addr_free p now m)"

lemma scan_result_hit: "n \<le> pEnd p \<Longrightarrow> addr_free p now n \<Longrightarrow> scan_result p now n n True"
  by (auto simp: scan_result_def dest: leD)

lemma scan_result_past: "\<not> n \<le> pEnd p \<Longrightarrow> scan_result p now n 0 False"
  unfolding scan_result_def by (metis order_trans)

lemma word_succ_bound:
  fixes n e :: u32
  assumes "n \<le> e" and "e \<noteq> - 1"
  shows "unat (n + 1) = Suc (unat n)"
proof -
  have "n \<noteq> - 1" using assms word_order.extremum_uniqueI [of e] by metis
  then have "n + 1 \<noteq> 0" by (simp add: eq_neg_iff_add_eq_0)
  then show ?thesis using unatSuc [of n] by (simp add: add.commute)
qed

lemma scan_result_step:
  assumes "n \<le> pEnd p" and "pEnd p \<noteq> - 1" and "\<not> addr_free p now n"
    and "scan_result p now (n + 1) r ok"
  shows "scan_result p now n r ok"
proof -
  have ge: "n + 1 \<le> m \<longleftrightarrow> n < m" for m :: u32
    by (simp add: word_le_nat_alt word_less_nat_alt word_succ_bound [OF assms(1,2)] Suc_le_eq)
  then show ?thesis
    using assms(3,4) unfolding scan_result_def ge by (metis order_le_less)
qed

lemma firstFree_loop_scan:
  assumes "pEnd p \<noteq> - 1"
  shows "\<exists>r ok. firstFree_loop p now n = Some (r, ok) \<and> scan_result p now n r ok"
proof (induction "unat (pEnd p) + 1 - unat n" arbitrary: n rule: less_induct)
  case less
  show ?case
  proof (cases "n \<le> pEnd p \<and> \<not> addr_free p now n")
    case False
    then show ?thesis
      by (metis firstFree_loop.simps scan_result_hit scan_result_past)
  next
    case True
    then have "unat (pEnd p) + 1 - unat (n + 1) < unat (pEnd p) + 1 - unat n"
      using word_succ_bound [of n "pEnd p"] assms
      by (simp add: word_le_nat_alt) linarith
    from less [OF this] obtain r ok where r: "firstFree_loop p now (n + 1) = Some (r, ok)"
      and spec: "scan_result p now (n + 1) r ok" by blast
    have "firstFree_loop p now n = Some (r, ok)"
      using True r by (simp add: firstFree_loop.simps [of p now n])
    moreover have "scan_result p now n r ok"
      using True assms spec scan_result_step by blast
    ultimately show ?thesis by blast
  qed
qed

lemma firstFree_scan:
  assumes "pEnd p \<noteq> - 1"
  obtains r ok where "firstFree p now = Some (r, ok)" and "scan_result p now (pStart p) r ok"
  using firstFree_loop_scan [OF assms, of now "pStart p"] by (auto simp: firstFree_def)

section \<open>The invariant\<close>

text \<open>
  The two indexes describe the same set of leases, every lease is filed under its own MAC
  and address, and every address lies in the range.
\<close>

definition pool_inv :: "LeasePool \<Rightarrow> bool" where
  "pool_inv p \<longleftrightarrow>
     (\<forall>m l. byMAC p m = Some l \<longrightarrow> plMac l = m \<and> byIP p (plIp l) = Some l) \<and>
     (\<forall>n l. byIP p n = Some l \<longrightarrow>
        plIp l = n \<and> byMAC p (plMac l) = Some l \<and> pStart p \<le> n \<and> n \<le> pEnd p)"

lemma pool_inv_byMAC:
  "pool_inv p \<Longrightarrow> byMAC p m = Some l \<Longrightarrow> plMac l = m \<and> byIP p (plIp l) = Some l"
  by (simp add: pool_inv_def)

lemma pool_inv_byIP:
  "pool_inv p \<Longrightarrow> byIP p n = Some l \<Longrightarrow>
     plIp l = n \<and> byMAC p (plMac l) = Some l \<and> pStart p \<le> n \<and> n \<le> pEnd p"
  by (simp add: pool_inv_def)

lemma pool_inv_range:
  "pool_inv p \<Longrightarrow> byMAC p m = Some l \<Longrightarrow> pStart p \<le> plIp l \<and> plIp l \<le> pEnd p"
  using pool_inv_byMAC pool_inv_byIP by blast

lemma NewLeasePool_inv: "NewLeasePool s e d = Inr p \<Longrightarrow> pool_inv p \<and> pStart p \<le> pEnd p"
  by (auto simp: NewLeasePool_def pool_inv_def split: sum.splits if_splits)

text \<open>What the switch of \<open>Allocate\<close> guarantees about the address it picks.\<close>

definition assignable :: "LeasePool \<Rightarrow> instant \<Rightarrow> string \<Rightarrow> u32 \<Rightarrow> bool" where
  "assignable p now mac ip \<longleftrightarrow>
     pStart p \<le> ip \<and> ip \<le> pEnd p \<and>
     (case byMAC p mac of Some l \<Rightarrow> ip = plIp l | None \<Rightarrow> addr_free p now ip)"

lemma isFree_assignable:
  "isFree p requested now \<Longrightarrow>
     \<exists>n. ipToUint requested = Inr n \<and> pStart p \<le> n \<and> n \<le> pEnd p \<and> addr_free p now n"
  by (auto simp: isFree_def not_less split: sum.splits if_splits)

lemma choose_ip_assignable:
  assumes "pool_inv p" and "pEnd p \<noteq> - 1" and "choose_ip p now mac requested = Some (Some ip)"
  shows "assignable p now mac ip"
proof (cases "byMAC p mac")
  case (Some l)
  with assms show ?thesis
    using pool_inv_range by (auto simp: choose_ip_def assignable_def)
next
  case None
  obtain r ok where ff: "firstFree p now = Some (r, ok)" "scan_result p now (pStart p) r ok"
    by (rule firstFree_scan [OF assms(2)])
  from None assms(3) show ?thesis
    using ff isFree_assignable [of p requested now]
    by (auto simp: choose_ip_def assignable_def scan_result_def split: if_splits)
qed

lemma choose_ip_total: "pEnd p \<noteq> - 1 \<Longrightarrow> choose_ip p now mac requested \<noteq> None"
  by (rule firstFree_scan [of p now]) (auto simp: choose_ip_def split: option.splits)

lemma choose_ip_exhausted:
  assumes "pEnd p \<noteq> - 1"
  shows "choose_ip p now mac requested = Some None \<longleftrightarrow>
    byMAC p mac = None \<and> (\<forall>n. pStart p \<le> n \<and> n \<le> pEnd p \<longrightarrow> \<not> addr_free p now n)"
proof -
  obtain r ok where ff: "firstFree p now = Some (r, ok)" "scan_result p now (pStart p) r ok"
    by (rule firstFree_scan [OF assms])
  show ?thesis
    using ff isFree_assignable [of p requested now]
    by (auto simp: choose_ip_def scan_result_def split: option.splits if_splits)
qed

lemma assign_ip_fields [simp]:
  "pStart (assign_ip p now mac ip) = pStart p"
  "pEnd (assign_ip p now mac ip) = pEnd p"
  "pDuration (assign_ip p now mac ip) = pDuration p"
  "byMAC (assign_ip p now mac ip) mac = Some \<lparr>plMac = mac, plIp = ip, plExpires = now + pDuration p\<rparr>"
  "byIP (assign_ip p now mac ip) ip = Some \<lparr>plMac = mac, plIp = ip, plExpires = now + pDuration p\<rparr>"
  by (simp_all add: assign_ip_def Let_def)

lemma assign_ip_byIP_other: "n \<noteq> ip \<Longrightarrow> byIP (assign_ip p now mac ip) n = byIP p n"
  by (simp add: assign_ip_def Let_def)

lemma assign_ip_byMAC_other:
  "m \<noteq> mac \<Longrightarrow> byMAC (assign_ip p now mac ip) m =
     (if \<exists>old. byIP p ip = Some old \<and> plMac old = m then None else byMAC p m)"
  by (auto simp: assign_ip_def Let_def split: option.splits)

lemma assignable_own:
  assumes inv: "pool_inv p" and ok: "assignable p now mac ip"
    and "byIP p n = Some old" and "plMac old = mac"
  shows "n = ip"
  using pool_inv_byIP [OF inv assms(3)] ok assms(4) by (auto simp: assignable_def)

lemma assign_ip_inv:
  assumes inv: "pool_inv p" and ok: "assignable p now mac ip"
  shows "pool_inv (assign_ip p now mac ip)"
  unfolding pool_inv_def
proof (intro conjI allI impI)
  fix m l assume l: "byMAC (assign_ip p now mac ip) m = Some l"
  have "plMac l = m \<and> byIP (assign_ip p now mac ip) (plIp l) = Some l"
  proof (cases "m = mac")
    case True
    with l show ?thesis by auto
  next
    case False
    with l have m: "byMAC p m = Some l" and old: "\<nexists>old. byIP p ip = Some old \<and> plMac old = m"
      by (auto simp: assign_ip_byMAC_other split: if_splits)
    from pool_inv_byMAC [OF inv m] old have "plIp l \<noteq> ip" by auto
    with pool_inv_byMAC [OF inv m] show ?thesis by (simp add: assign_ip_byIP_other)
  qed
  then show "plMac l = m" and "byIP (assign_ip p now mac ip) (plIp l) = Some l" by auto
next
  fix n l assume l: "byIP (assign_ip p now mac ip) n = Some l"
  have "plIp l = n \<and> byMAC (assign_ip p now mac ip) (plMac l) = Some l \<and> pStart p \<le> n \<and> n \<le> pEnd p"
  proof (cases "n = ip")
    case True
    with l have l': "l = \<lparr>plMac = mac, plIp = ip, plExpires = now + pDuration p\<rparr>" by simp
    have "plIp l = n" using l' True by simp
    moreover have "byMAC (assign_ip p now mac ip) (plMac l) = Some l" unfolding l' by simp
    moreover have "pStart p \<le> n" "n \<le> pEnd p" using ok True unfolding assignable_def by blast+
    ultimately show ?thesis by blast
  next
    case False
    with l have n: "byIP p n = Some l" by (simp add: assign_ip_byIP_other)
    have "plMac l \<noteq> mac" using assignable_own [OF inv ok n] False by auto
    moreover have "byIP p ip = Some old \<Longrightarrow> plMac old \<noteq> plMac l" for old
      using pool_inv_byIP [OF inv, of ip old] pool_inv_byIP [OF inv n] False
      by (metis option.inject)
    ultimately have "byMAC (assign_ip p now mac ip) (plMac l) = byMAC p (plMac l)"
      by (subst assign_ip_byMAC_other) auto
    then show ?thesis
      using pool_inv_byIP [OF inv n] by simp
  qed
  then show "plIp l = n" and "byMAC (assign_ip p now mac ip) (plMac l) = Some l"
    and "pStart (assign_ip p now mac ip) \<le> n" and "n \<le> pEnd (assign_ip p now mac ip)" by simp_all
qed

section \<open>Allocation\<close>

lemma Allocate_cases:
  assumes "Allocate store p st now mac requested hostname = Some (p', st', ip)"
  obtains (nil) "choose_ip p now mac requested = Some None" "p' = p" "st' = st" "ip = []"
  | (ip) n where "choose_ip p now mac requested = Some (Some n)"
      "p' = assign_ip p now mac n" "ip = uintToIP n"
      "st' = (case store of None \<Rightarrow> st
              | Some ls \<Rightarrow> fst (UpsertLease ls mac (ip4_string (uintToIP n)) hostname
                                (now + pDuration p) st))"
  using assms by (auto simp: Allocate_def Let_def split: option.splits)

lemma Allocate_returns:
  "pEnd p \<noteq> - 1 \<Longrightarrow> \<exists>r. Allocate store p st now mac requested hostname = Some r"
  using choose_ip_total [of p now mac requested]
  by (auto simp: Allocate_def Let_def split: option.splits)

lemma Allocate_range_fields:
  "Allocate store p st now mac requested hostname = Some (p', st', ip) \<Longrightarrow>
     pStart p' = pStart p \<and> pEnd p' = pEnd p \<and> pDuration p' = pDuration p"
  by (erule Allocate_cases) simp_all

lemma Allocate_inv:
  assumes "pool_inv p" and "pEnd p \<noteq> - 1"
    and "Allocate store p st now mac requested hostname = Some (p', st', ip)"
  shows "pool_inv p'"
  using assms(3)
proof (cases rule: Allocate_cases)
  case (ip n)
  then show ?thesis using assign_ip_inv choose_ip_assignable assms(1,2) by blast
qed (use assms in simp)

text \<open>A client that already has a lease keeps its address.\<close>

lemma Allocate_sticky:
  "byMAC p mac = Some l \<Longrightarrow>
     Allocate store p st now mac requested hostname = Some (p', st', ip) \<Longrightarrow> ip = uintToIP (plIp l)"
  by (auto simp: Allocate_def choose_ip_def Let_def split: option.splits)

text \<open>The address returned is leased to the client from now on.\<close>

lemma Allocate_holds:
  assumes "Allocate store p st now mac requested hostname = Some (p', st', ip)" and "ip \<noteq> []"
  shows "\<exists>n. ip = uintToIP n \<and>
    byMAC p' mac = Some \<lparr>plMac = mac, plIp = n, plExpires = now + pDuration p\<rparr>"
  using assms(1) by (cases rule: Allocate_cases) (use assms(2) in auto)

lemma Allocate_Confirm:
  assumes "Allocate store p st now mac requested hostname = Some (p', st', ip)" and "ip \<noteq> []"
    and "later \<le> now + pDuration p"
  shows "Confirm p' later mac ip"
  using Allocate_holds [OF assms(1,2)] assms(3) by (auto simp: Confirm_def)

section \<open>Confirm and Release\<close>

lemma Confirm_iff:
  "Confirm p now mac ip \<longleftrightarrow>
     (\<exists>l. byMAC p mac = Some l \<and> now \<le> plExpires l \<and> ipToUint ip = Inr (plIp l))"
  by (auto simp: Confirm_def not_less split: option.splits sum.splits)

lemma Release_inv:
  assumes inv: "pool_inv p" and rel: "Release store p st mac = (p', st')"
  shows "pool_inv p'"
proof (cases "byMAC p mac")
  case None
  with rel inv show ?thesis by (simp add: Release_def)
next
  case (Some l)
  have p': "byMAC p' = (byMAC p)(mac := None)" "byIP p' = (byIP p)(plIp l := None)"
    "pStart p' = pStart p" "pEnd p' = pEnd p"
    using rel Some by (auto simp: Release_def)
  have l: "plMac l = mac" "byIP p (plIp l) = Some l"
    using pool_inv_byMAC [OF inv Some] by auto
  have mac: "byMAC p m = Some k \<Longrightarrow> m \<noteq> mac \<Longrightarrow> plIp k \<noteq> plIp l" for m k
    using pool_inv_byMAC [OF inv, of m k] l by (metis option.inject)
  have ip: "byIP p n = Some k \<Longrightarrow> n \<noteq> plIp l \<Longrightarrow> plMac k \<noteq> mac" for n k
    using pool_inv_byIP [OF inv, of n k] Some by (metis option.inject)
  show ?thesis
    unfolding pool_inv_def p'
    using pool_inv_byMAC [OF inv] pool_inv_byIP [OF inv] mac ip
    by (simp split: if_splits)
qed

lemma Release_frees:
  "pool_inv p \<Longrightarrow> Release store p st mac = (p', st') \<Longrightarrow>
     byMAC p' mac = None \<and> (\<forall>l. byMAC p mac = Some l \<longrightarrow> addr_free p' now (plIp l))"
  by (auto simp: Release_def addr_free_def split: option.splits)

lemma Release_range_fields:
  "Release store p st mac = (p', st') \<Longrightarrow>
     pStart p' = pStart p \<and> pEnd p' = pEnd p \<and> pDuration p' = pDuration p"
  by (auto simp: Release_def split: option.splits)

section \<open>Restore\<close>

text \<open>
  \<open>Restore\<close> overwrites: it keeps the invariant when neither the MAC nor the address is in
  the pool yet, which is how start-up uses it (the persisted leases have distinct MACs and
  distinct addresses).
\<close>

lemma Restore_inv:
  assumes inv: "pool_inv p" and "byMAC p mac = None"
    and "\<And>n. ipToUint ip = Inr n \<Longrightarrow> byIP p n = None"
  shows "pool_inv (Restore p mac ip t)"
proof (cases "\<exists>n. ipToUint ip = Inr n \<and> pStart p \<le> n \<and> n \<le> pEnd p")
  case False
  then have "Restore p mac ip t = p" by (auto simp: Restore_def not_less split: sum.splits)
  with inv show ?thesis by simp
next
  case True
  then obtain n where n: "ipToUint ip = Inr n" "pStart p \<le> n" "n \<le> pEnd p" by blast
  let ?l = "\<lparr>plMac = mac, plIp = n, plExpires = t\<rparr>"
  have R: "Restore p mac ip t = p\<lparr>byMAC := (byMAC p)(mac \<mapsto> ?l), byIP := (byIP p)(n \<mapsto> ?l)\<rparr>"
    using n by (simp add: Restore_def Let_def leD)
  have "byIP p n = None" using assms(3) n by blast
  then show ?thesis
    using inv n \<open>byMAC p mac = None\<close> unfolding R pool_inv_def by auto
qed

lemma Restore_fields [simp]:
  "pStart (Restore p mac ip t) = pStart p"
  "pEnd (Restore p mac ip t) = pEnd p"
  "pDuration (Restore p mac ip t) = pDuration p"
  by (auto simp: Restore_def Let_def split: sum.splits)

lemma Restore_lookup:
  "byMAC (Restore p mac ip t) m \<noteq> byMAC p m \<Longrightarrow>
     m = mac \<and> (\<exists>n. ipToUint ip = Inr n \<and> pStart p \<le> n \<and> n \<le> pEnd p \<and>
       byMAC (Restore p mac ip t) m = Some \<lparr>plMac = mac, plIp = n, plExpires = t\<rparr>)"
  by (auto simp: Restore_def Let_def not_less split: sum.splits if_splits)

section \<open>The LeaseStore contract\<close>

text \<open>
  What the pool may rely on: an upsert that reports no error has filed the lease under its
  MAC (times are kept to the second), one that reports an error has changed nothing, and
  the same for a delete.
\<close>

definition clip_time :: "instant \<Rightarrow> instant" where
  "clip_time t = t div second * second"

locale lease_store =
  fixes ls :: "'s LeaseStore"
    and rows :: "'s \<Rightarrow> string \<Rightarrow> (string \<times> instant) option"
  assumes upsert_ok: "UpsertLease ls mac ip h t s = (s', False) \<Longrightarrow>
      rows s' = (rows s)(mac \<mapsto> (ip, clip_time t))"
    and upsert_err: "UpsertLease ls mac ip h t s = (s', True) \<Longrightarrow> s' = s"
    and delete_ok: "DeleteLease ls mac s = (s', False) \<Longrightarrow> rows s' = (rows s)(mac := None)"
    and delete_err: "DeleteLease ls mac s = (s', True) \<Longrightarrow> s' = s"
begin

lemma Allocate_mirrors:
  assumes "Allocate (Some ls) p st now mac requested hostname = Some (p', st', ip)" and "ip \<noteq> []"
  shows "rows st' = (rows st)(mac \<mapsto> (ip4_string ip, clip_time (now + pDuration p))) \<or> st' = st"
  using assms(1)
proof (cases rule: Allocate_cases)
  case (ip n)
  obtain s' e where u: "UpsertLease ls mac (ip4_string (uintToIP n)) hostname (now + pDuration p) st = (s', e)"
    by fastforce
  then show ?thesis
    using ip upsert_ok [of mac _ hostname _ st s'] upsert_err [of mac _ hostname _ st s']
    by (cases e) auto
qed (use assms(2) in simp)

lemma Allocate_other_rows:
  assumes "Allocate (Some ls) p st now mac requested hostname = Some (p', st', ip)" and "m \<noteq> mac"
  shows "rows st' m = rows st m"
proof (cases "ip = []")
  case True
  with assms(1) have "st' = st" by (cases rule: Allocate_cases) auto
  then show ?thesis by simp
next
  case False
  from Allocate_mirrors [OF assms(1) this] assms(2) show ?thesis by auto
qed

end

text \<open>A store that keeps addresses unique refuses a lease whose address another MAC has.\<close>

locale unique_lease_store = lease_store +
  assumes taken: "rows s m = Some (ip, e) \<Longrightarrow> m \<noteq> mac \<Longrightarrow> UpsertLease ls mac ip h t s = (s, True)"
begin

lemma reassigned_not_persisted:
  assumes "Allocate (Some ls) p st now mac requested hostname = Some (p', st', ip)" and "ip \<noteq> []"
    and "rows st m = Some (ip4_string ip, e)" and "m \<noteq> mac"
  shows "st' = st"
  using assms(1)
proof (cases rule: Allocate_cases)
  case (ip n)
  with assms(3,4) show ?thesis using taken [of st m "ip4_string ip" e mac] by simp
qed (use assms(2) in simp)

end

section \<open>Properties\<close>

text \<open>C4: Allocation is total and exact.  On a consistent pool whose range ends below the last
  address, \<open>Allocate\<close> returns; it returns no address exactly when the client has none and
  every address of the range is taken, and then nothing changes; otherwise the address lies in
  the range, is the client's own one if it has one, becomes its lease, and no other client loses
  or gains anything unless its lease of that very address had expired.  The pool stays
  consistent.\<close>

theorem Allocate_correct:
  assumes "pool_inv p" and "pEnd p \<noteq> - 1"
  obtains (exhausted) "Allocate store p st now mac requested hostname = Some (p, st, [])"
      "byMAC p mac = None" "\<forall>n. pStart p \<le> n \<and> n \<le> pEnd p \<longrightarrow> \<not> addr_free p now n"
  | (leased) p' st' n where
      "Allocate store p st now mac requested hostname = Some (p', st', uintToIP n)"
      "pStart p \<le> n" "n \<le> pEnd p" "pool_inv p'"
      "case byMAC p mac of Some l \<Rightarrow> n = plIp l | None \<Rightarrow> addr_free p now n"
      "byMAC p' mac = Some \<lparr>plMac = mac, plIp = n, plExpires = now + pDuration p\<rparr>"
      "\<forall>m. m \<noteq> mac \<longrightarrow> byMAC p' m = byMAC p m \<or>
        (\<exists>l. byMAC p m = Some l \<and> plIp l = n \<and> now > plExpires l)"
proof -
  obtain p' st' ip where A: "Allocate store p st now mac requested hostname = Some (p', st', ip)"
    using Allocate_returns [OF assms(2)] by (metis prod.exhaust)
  then show thesis
  proof (cases rule: Allocate_cases)
    case nil
    have "byMAC p mac = None" "\<forall>n. pStart p \<le> n \<and> n \<le> pEnd p \<longrightarrow> \<not> addr_free p now n"
      using nil(1) unfolding choose_ip_exhausted [OF assms(2)] by blast+
    with A nil show ?thesis by (intro exhausted) simp_all
  next
    case (ip n)
    have ok: "assignable p now mac n" using choose_ip_assignable [OF assms ip(1)] .
    have "byMAC p' m = byMAC p m \<or> (\<exists>l. byMAC p m = Some l \<and> plIp l = n \<and> now > plExpires l)"
      if "m \<noteq> mac" for m
    proof (cases "\<exists>old. byIP p n = Some old \<and> plMac old = m")
      case True
      then obtain old where old: "byIP p n = Some old" "plMac old = m" by blast
      then have "plIp old = n" "byMAC p m = Some old" using pool_inv_byIP [OF assms(1)] by blast+
      moreover have "byMAC p mac = None"
        using ok old that pool_inv_byMAC [OF assms(1)] by (auto simp: assignable_def split: option.splits)
      then have "now > plExpires old" using ok old by (simp add: assignable_def addr_free_def)
      ultimately show ?thesis by blast
    next
      case False
      then have "byMAC p' m = byMAC p m"
        unfolding ip(2) assign_ip_byMAC_other [OF that] by (rule if_not_P)
      then show ?thesis ..
    qed
    moreover have "byMAC p' mac = Some \<lparr>plMac = mac, plIp = n, plExpires = now + pDuration p\<rparr>"
      using ip(2) by simp
    ultimately show ?thesis
      using leased [of p' st' n] A ip(3) ok Allocate_inv [OF assms A] by (simp add: assignable_def)
  qed
qed

theorem Allocate_correct_witness:
  "\<exists>p. NewLeasePool [10,0,0,1] [10,0,0,1] hour = Inr p \<and>
     (\<exists>p'. Allocate None p () 0 ''m'' [] [] = Some (p', (), [10,0,0,1]))"
proof -
  obtain p where p: "NewLeasePool [10,0,0,1] [10,0,0,1] hour = Inr p" "pStart p = 0x0A000001" "pEnd p = 0x0A000001"
      "byMAC p = Map.empty" "byIP p = Map.empty"
    by (simp add: NewLeasePool_def ipToUint_def To4_def be_uint32_def)
  have u: "uintToIP 0x0A000001 = [10,0,0,1]" by (simp add: uintToIP_def)
  show ?thesis
  proof (rule Allocate_correct [of p None "()" 0 "''m''" "[]" "[]"])
    show "pool_inv p" "pEnd p \<noteq> - 1" using NewLeasePool_inv p by auto
  next
    assume "\<forall>n. pStart p \<le> n \<and> n \<le> pEnd p \<longrightarrow> \<not> addr_free p 0 n"
    then have "\<not> addr_free p 0 0x0A000001" using p(2,3) by simp
    then show ?thesis using p(5) by (simp add: addr_free_def)
  next
    fix p' st' n assume "Allocate None p () 0 ''m'' [] [] = Some (p', st', uintToIP n)"
      and "pStart p \<le> n" "n \<le> pEnd p"
    moreover from this have "n = 0x0A000001" using p(2,3) by simp
    ultimately show ?thesis using p(1) u by auto
  qed
qed

text \<open>The scan wraps.  When the range ends at 255.255.255.255 and is exhausted, the 32-bit
  loop variable wraps to 0 instead of leaving the range: the pool reports 0.0.0.0, which no range
  but one starting there contains, as free instead of reporting exhaustion.\<close>

theorem firstFree_wraps:
  assumes top: "pEnd p = - 1" and full: "\<forall>n. pStart p \<le> n \<longrightarrow> \<not> addr_free p now n"
    and zero: "addr_free p now 0"
  shows "firstFree p now = Some (0, True) \<and> \<not> pStart p \<le> 0"
proof -
  have "pStart p \<le> n \<Longrightarrow> firstFree_loop p now n = Some (0, True)" for n
  proof (induction "unat (- 1 - n :: u32)" arbitrary: n rule: less_induct)
    case less
    have taken: "\<not> addr_free p now n" using full less.prems by blast
    show ?case
    proof (cases "n = - 1")
      case True
      have "firstFree_loop p now 0 = Some (0, True)"
        by (subst firstFree_loop.simps) (simp add: zero)
      then show ?thesis
        using taken True top by (subst firstFree_loop.simps) simp
    next
      case False
      then have "n + 1 \<noteq> 0" by (simp add: eq_neg_iff_add_eq_0)
      then have "unat (n + 1) = Suc (unat n)" using unatSuc [of n] by (simp add: add.commute)
      then have n: "n < n + 1" "unat (n + 1) = unat n + 1" by (simp_all add: word_less_nat_alt)
      then have "unat (- 1 - (n + 1)) < unat (- 1 - n)"
      proof -
        have top: "m \<le> - 1" for m :: u32 by (rule word_order.extremum)
        have "unat n + 1 \<le> unat (- 1 :: u32)" using top [of "n + 1"] n(2) by (simp only: word_le_nat_alt)
        then show ?thesis unfolding unat_sub [OF top] n(2) by linarith
      qed
      moreover have "pStart p \<le> n + 1" using less.prems n(1) by simp
      ultimately have "firstFree_loop p now (n + 1) = Some (0, True)" by (rule less.hyps)
      then show ?thesis using taken top by (subst firstFree_loop.simps) simp
    qed
  qed
  then show ?thesis using full zero by (auto simp: firstFree_def)
qed

theorem firstFree_wraps_witness:
  "firstFree \<lparr>pStart = - 1, pEnd = - 1, pDuration = hour, byMAC = [''m'' \<mapsto> \<lparr>plMac = ''m'', plIp = - 1, plExpires = 9\<rparr>],
      byIP = [- 1 \<mapsto> \<lparr>plMac = ''m'', plIp = - 1, plExpires = 9\<rparr>]\<rparr> 5 = Some (0, True)"
proof -
  let ?p = "\<lparr>pStart = - 1, pEnd = - 1, pDuration = hour, byMAC = [''m'' \<mapsto> \<lparr>plMac = ''m'', plIp = - 1, plExpires = 9\<rparr>],
      byIP = [- 1 \<mapsto> \<lparr>plMac = ''m'', plIp = - 1, plExpires = 9\<rparr>]\<rparr>"
  have "pStart ?p \<le> n \<Longrightarrow> n = - 1" for n by (simp add: word_order.extremum_unique)
  then have "\<forall>n. pStart ?p \<le> n \<longrightarrow> \<not> addr_free ?p 5 n" by (auto simp: addr_free_def)
  then show ?thesis using firstFree_wraps [of ?p 5] by (simp add: addr_free_def)
qed

end
