(* ===== verification/Dhcp_Server.thy ===== *)
theory Dhcp_Server
  imports Pxe Lease_Pool
begin

text \<open>
  The authoritative Mode B server: \<open>buildReply\<close>, \<open>reply\<close> and \<open>nak\<close> of
  \<open>backend/internal/network/dhcpserver.go\<close>, over the lease pool.  \<open>NewReplyFromRequest\<close>
  belongs to the \<open>dhcpv4\<close> library and is the argument \<open>newReply\<close> (\<open>None\<close> is its error).
  The outer option of a result is termination (of the pool's scan).
\<close>

record DHCPConfig =
  dcBoot :: BootConfig
  dcSubnetMask :: "u8 list"
  dcGateway :: net_ip
  dcDNS :: "net_ip list"

definition dhcp_answer ::
    "(dhcp_req \<Rightarrow> dhcp_reply option) \<Rightarrow> DHCPConfig \<Rightarrow> duration \<Rightarrow> dhcp_req \<Rightarrow> MessageType \<Rightarrow> net_ip
     \<Rightarrow> dhcp_reply option" where
  "dhcp_answer newReply cfg dur req mt ip =
     (case newReply req of
        None \<Rightarrow> None
      | Some r0 \<Rightarrow>
          let r1 = (UpdateOption OptMessageType (VType mt) r0)\<lparr>rpYourIPAddr := ip\<rparr>;
              r2 = UpdateOption OptServerIdentifier (VIP (bcServerIP (dcBoot cfg))) r1;
              r3 = UpdateOption OptSubnetMask (VBytes (dcSubnetMask cfg)) r2;
              r4 = UpdateOption OptIPAddressLeaseTime (VDuration dur) r3;
              r5 = (if dcGateway cfg \<noteq> [] then UpdateOption OptRouter (VIP (dcGateway cfg)) r4 else r4);
              r6 = (if length (dcDNS cfg) > 0 then UpdateOption OptDNS (VIPs (dcDNS cfg)) r5 else r5)
          in Some (if isPXERequest req
                   then (case applyPXEOptions (dcBoot cfg) r6 req of None \<Rightarrow> r6 | Some r7 \<Rightarrow> r7)
                   else r6))"

definition dhcp_nak ::
    "(dhcp_req \<Rightarrow> dhcp_reply option) \<Rightarrow> DHCPConfig \<Rightarrow> dhcp_req \<Rightarrow> dhcp_reply option" where
  "dhcp_nak newReply cfg req =
     (case newReply req of
        None \<Rightarrow> None
      | Some r \<Rightarrow> Some (UpdateOption OptServerIdentifier (VIP (bcServerIP (dcBoot cfg)))
                         (UpdateOption OptMessageType (VType MessageTypeNak) r)))"

text \<open>The address a REQUEST is about: the requested one, or the client's own on renewal.\<close>

definition requested_ip :: "dhcp_req \<Rightarrow> net_ip" where
  "requested_ip req =
     (if rqRequestedIP req = [] \<or> IsUnspecified (rqRequestedIP req)
      then rqClientIPAddr req else rqRequestedIP req)"

definition buildReply ::
    "(dhcp_req \<Rightarrow> dhcp_reply option) \<Rightarrow> DHCPConfig \<Rightarrow> 's LeaseStore option \<Rightarrow> instant
     \<Rightarrow> LeasePool \<Rightarrow> 's \<Rightarrow> dhcp_req \<Rightarrow> (LeasePool \<times> 's \<times> dhcp_reply option) option" where
  "buildReply newReply cfg store now p st req =
     (if rqOpCode req \<noteq> OpcodeBootRequest then Some (p, st, None)
      else
        let mac = rqClientHWAddr req in
        case rqMessageType req of
          MessageTypeDiscover \<Rightarrow>
            (case Allocate store p st now mac (rqRequestedIP req) (rqHostName req) of
               None \<Rightarrow> None
             | Some (p', st', ip) \<Rightarrow>
                 if ip = [] then Some (p', st', None)
                 else Some (p', st', dhcp_answer newReply cfg (pDuration p') req MessageTypeOffer ip))
        | MessageTypeRequest \<Rightarrow>
            let requested = requested_ip req in
               if \<not> Confirm p now mac requested then
                 (case Allocate store p st now mac requested (rqHostName req) of
                    None \<Rightarrow> None
                  | Some (p', st', ip) \<Rightarrow>
                      if ip \<noteq> [] \<and> ip_equal ip requested
                      then Some (p', st', dhcp_answer newReply cfg (pDuration p') req MessageTypeAck ip)
                      else Some (p', st', dhcp_nak newReply cfg req))
               else
                 (case Allocate store p st now mac requested (rqHostName req) of
                    None \<Rightarrow> None
                  | Some (p', st', ip) \<Rightarrow>
                      Some (p', st', dhcp_answer newReply cfg (pDuration p') req MessageTypeAck ip))
        | MessageTypeRelease \<Rightarrow> (case Release store p st mac of (p', st') \<Rightarrow> Some (p', st', None))
        | MessageTypeDecline \<Rightarrow> (case Release store p st mac of (p', st') \<Rightarrow> Some (p', st', None))
        | _ \<Rightarrow> Some (p, st, None))"

section \<open>Facts about answers\<close>

lemma dhcp_answer_fields:
  assumes "dhcp_answer newReply cfg dur req mt ip = Some r"
  shows "rpYourIPAddr r = ip"
    and "rpOptions r OptMessageType = Some (VType mt)"
    and "rpOptions r OptServerIdentifier = Some (VIP (bcServerIP (dcBoot cfg)))"
    and "rpOptions r OptIPAddressLeaseTime = Some (VDuration dur)"
    and "rpOptions r OptSubnetMask = Some (VBytes (dcSubnetMask cfg))"
proof -
  from assms obtain r0 where "newReply req = Some r0" by (auto simp: dhcp_answer_def split: option.splits)
  then show "rpYourIPAddr r = ip"
    "rpOptions r OptMessageType = Some (VType mt)"
    "rpOptions r OptServerIdentifier = Some (VIP (bcServerIP (dcBoot cfg)))"
    "rpOptions r OptIPAddressLeaseTime = Some (VDuration dur)"
    "rpOptions r OptSubnetMask = Some (VBytes (dcSubnetMask cfg))"
    using assms applyPXEOptions_keeps [of "dcBoot cfg" _ req]
    by (auto simp: dhcp_answer_def Let_def split: if_splits option.splits)
qed

text \<open>The boot fields of an answer come from the PXE code and from nowhere else.\<close>

lemma dhcp_answer_boot:
  assumes "dhcp_answer newReply cfg dur req mt ip = Some r" and "newReply req = Some r0"
  shows "rpBootFileName r =
    (if isPXERequest req \<and> bootFilename (dcBoot cfg) req \<noteq> '''' then bootFilename (dcBoot cfg) req
     else rpBootFileName r0)"
  using assms applyPXEOptions_keeps [of "dcBoot cfg" _ req] applyPXEOptions_None [of "dcBoot cfg" _ req]
  by (auto simp: dhcp_answer_def Let_def split: if_splits option.splits)

lemma dhcp_nak_fields:
  "dhcp_nak newReply cfg req = Some r \<Longrightarrow> rpOptions r OptMessageType = Some (VType MessageTypeNak)"
  by (auto simp: dhcp_nak_def split: option.splits)

section \<open>The state machine\<close>

text \<open>What a message does to the pool: nothing, one allocation, or one release.\<close>

lemma buildReply_effect:
  assumes "buildReply newReply cfg store now p st req = Some (p', st', r)"
  obtains (none) "p' = p" "st' = st" "r = None"
  | (alloc) requested ip where
      "Allocate store p st now (rqClientHWAddr req) requested (rqHostName req) = Some (p', st', ip)"
  | (release) "Release store p st (rqClientHWAddr req) = (p', st')" "r = None"
      "rqMessageType req = MessageTypeRelease \<or> rqMessageType req = MessageTypeDecline"
  using assms
  by (auto simp: buildReply_def Let_def split: if_splits MessageType.splits option.splits prod.splits)

lemma buildReply_inv:
  assumes "pool_inv p" and "pEnd p \<noteq> - 1"
    and "buildReply newReply cfg store now p st req = Some (p', st', r)"
  shows "pool_inv p' \<and> pStart p' = pStart p \<and> pEnd p' = pEnd p \<and> pDuration p' = pDuration p"
  using assms(3)
proof (cases rule: buildReply_effect)
  case none
  with assms(1) show ?thesis by simp
next
  case (alloc requested ip)
  then show ?thesis using Allocate_inv [OF assms(1,2) alloc] Allocate_range_fields [OF alloc] by simp
next
  case release
  then show ?thesis
    using Release_inv [OF assms(1) release(1)] Release_range_fields [OF release(1)] by simp
qed

lemma buildReply_returns:
  assumes "pEnd p \<noteq> - 1"
  shows "\<exists>x. buildReply newReply cfg store now p st req = Some x"
proof -
  have A: "\<exists>a b c. Allocate store p st now mac rq h = Some (a, b, c)" for mac rq h
    using Allocate_returns [OF assms] by (metis prod.exhaust)
  from A [of "rqClientHWAddr req" "rqRequestedIP req" "rqHostName req"]
  obtain a b c where d: "Allocate store p st now (rqClientHWAddr req) (rqRequestedIP req) (rqHostName req) = Some (a, b, c)"
    by blast
  from A [of "rqClientHWAddr req" "requested_ip req" "rqHostName req"]
  obtain a' b' c' where q: "Allocate store p st now (rqClientHWAddr req) (requested_ip req) (rqHostName req) = Some (a', b', c')"
    by blast
  show ?thesis
    by (cases "rqMessageType req") (simp_all add: buildReply_def Let_def d q split: prod.splits)
qed

text \<open>What an acknowledgement promises: the client asked for the address and holds its lease.\<close>

lemma Confirm_Allocate_same:
  assumes "Confirm p now mac requested"
    and "Allocate store p st now mac requested hostname = Some (p', st', ip)"
  shows "ip \<noteq> [] \<and> ipToUint requested = ipToUint ip"
  using assms(1) Allocate_sticky [OF _ assms(2)] by (auto simp: Confirm_iff)

lemma ip_equal_Allocate:
  assumes "Allocate store p st now mac requested hostname = Some (p', st', ip)"
    and "ip \<noteq> []" and "ip_equal ip requested"
  shows "ipToUint requested = ipToUint ip"
  using Allocate_holds [OF assms(1,2)] assms(3) ip_equal_uint by auto

lemma buildReply_REQUEST:
  assumes "rqOpCode req = OpcodeBootRequest" and "rqMessageType req = MessageTypeRequest"
    and "buildReply newReply cfg store now p st req = Some (p', st', Some r)"
  shows "rpOptions r OptMessageType = Some (VType MessageTypeNak) \<or>
    (\<exists>ip n. Allocate store p st now (rqClientHWAddr req) (requested_ip req) (rqHostName req)
              = Some (p', st', ip) \<and> ip = uintToIP n \<and> ipToUint (requested_ip req) = Inr n \<and>
            dhcp_answer newReply cfg (pDuration p') req MessageTypeAck ip = Some r)"
proof (cases "Confirm p now (rqClientHWAddr req) (requested_ip req)")
  case True
  with assms obtain ip where
    a: "Allocate store p st now (rqClientHWAddr req) (requested_ip req) (rqHostName req) = Some (p', st', ip)"
    and r: "dhcp_answer newReply cfg (pDuration p') req MessageTypeAck ip = Some r"
    by (auto simp: buildReply_def Let_def split: option.splits)
  from Confirm_Allocate_same [OF True a] Allocate_holds [OF a] a r show ?thesis by fastforce
next
  case False
  with assms obtain ip where
    a: "Allocate store p st now (rqClientHWAddr req) (requested_ip req) (rqHostName req) = Some (p', st', ip)"
    and r: "if ip \<noteq> [] \<and> ip_equal ip (requested_ip req)
            then dhcp_answer newReply cfg (pDuration p') req MessageTypeAck ip = Some r
            else dhcp_nak newReply cfg req = Some r"
    by (auto simp: buildReply_def Let_def split: option.splits if_splits)
  show ?thesis
  proof (cases "ip \<noteq> [] \<and> ip_equal ip (requested_ip req)")
    case True
    with r have "dhcp_answer newReply cfg (pDuration p') req MessageTypeAck ip = Some r" by simp
    moreover from True Allocate_holds [OF a] obtain n where "ip = uintToIP n" by blast
    moreover from this True have "ipToUint (requested_ip req) = Inr n" using ip_equal_uint by simp
    ultimately show ?thesis using a by blast
  next
    case False
    with r have "dhcp_nak newReply cfg req = Some r" by auto
    then show ?thesis using dhcp_nak_fields by blast
  qed
qed

lemma buildReply_DISCOVER:
  assumes "rqOpCode req = OpcodeBootRequest" and "rqMessageType req = MessageTypeDiscover"
    and "buildReply newReply cfg store now p st req = Some (p', st', Some r)"
  shows "\<exists>ip n. Allocate store p st now (rqClientHWAddr req) (rqRequestedIP req) (rqHostName req)
              = Some (p', st', ip) \<and> ip = uintToIP n \<and>
            dhcp_answer newReply cfg (pDuration p') req MessageTypeOffer ip = Some r"
proof -
  from assms obtain ip where
    a: "Allocate store p st now (rqClientHWAddr req) (rqRequestedIP req) (rqHostName req) = Some (p', st', ip)"
    and ne: "ip \<noteq> []"
    and r: "dhcp_answer newReply cfg (pDuration p') req MessageTypeOffer ip = Some r"
    by (auto simp: buildReply_def Let_def split: option.splits if_splits)
  from Allocate_holds [OF a ne] a r show ?thesis by blast
qed

end
