(* ===== verification/Dhcp_Observer.thy ===== *)
theory Dhcp_Observer
  imports Pxe "HOL-Library.AList" "HOL-Library.List_Lexorder" "HOL-Library.Char_ord"
    "HOL-Library.Multiset"
begin

text \<open>
  The passive rogue-DHCP detector of \<open>backend/internal/network/observer.go\<close>.  The
  \<open>sightings\<close> map is an association list with distinct keys; \<open>Sightings\<close> sorts its result,
  so the map's iteration order does not matter.  Strings are ordered bytewise, as in Go.
  The logger is left out.  A server identifier is an IPv4 address (option 54).
\<close>

record DHCPObserver =
  obSelfIP :: string
  obSightings :: "(string \<times> instant) list"

definition NewDHCPObserver :: DHCPObserver where
  "NewDHCPObserver = \<lparr>obSelfIP = '''', obSightings = []\<rparr>"

text \<open>The methods are nil-safe: \<open>None\<close> is a nil receiver.\<close>

definition SetSelfIP :: "DHCPObserver option \<Rightarrow> net_ip \<Rightarrow> DHCPObserver option" where
  "SetSelfIP ob ip =
     (case ob of
        None \<Rightarrow> None
      | Some o' \<Rightarrow> if ip = [] then Some o' else Some (o'\<lparr>obSelfIP := ip4_string (To4 ip)\<rparr>))"

definition Observe :: "instant \<Rightarrow> DHCPObserver option \<Rightarrow> dhcp_req \<Rightarrow> DHCPObserver option" where
  "Observe now ob req =
     (case ob of
        None \<Rightarrow> None
      | Some o' \<Rightarrow>
          if rqOpCode req \<noteq> OpcodeBootRequest then Some o'
          else if rqMessageType req \<noteq> MessageTypeRequest then Some o'
          else if rqServerIdentifier req = [] \<or> IsUnspecified (rqServerIdentifier req) then Some o'
          else let ip = ip4_string (To4 (rqServerIdentifier req)) in
               if ip = obSelfIP o' then Some o'
               else Some (o'\<lparr>obSightings := AList.update ip now (obSightings o')\<rparr>))"

definition Sightings ::
    "instant \<Rightarrow> duration \<Rightarrow> DHCPObserver option \<Rightarrow> DHCPObserver option \<times> (string \<times> instant) list" where
  "Sightings now window ob =
     (case ob of
        None \<Rightarrow> (None, [])
      | Some o' \<Rightarrow>
          let kept = filter (\<lambda>(ip, seen). \<not> seen < now - window) (obSightings o')
          in (Some (o'\<lparr>obSightings := kept\<rparr>), sort_key fst kept))"

section \<open>Invariant\<close>

definition observer_inv :: "DHCPObserver \<Rightarrow> bool" where
  "observer_inv ob \<longleftrightarrow> distinct (map fst (obSightings ob)) \<and> obSelfIP ob \<notin> fst ` set (obSightings ob)"

lemma NewDHCPObserver_inv: "observer_inv NewDHCPObserver"
  by (simp add: observer_inv_def NewDHCPObserver_def)

text \<open>\<open>SetSelfIP\<close> runs at start-up, before the first message is observed.\<close>

lemma SetSelfIP_inv:
  "SetSelfIP (Some ob) ip = Some ob' \<Longrightarrow> obSightings ob = [] \<Longrightarrow> observer_inv ob'"
  by (auto simp: SetSelfIP_def observer_inv_def split: if_splits)

lemma fst_set_update: "fst ` set (AList.update k v al) = insert k (fst ` set al)"
  by (induction al) auto

lemma Observe_cases:
  assumes "Observe now (Some ob) req = Some ob'"
  obtains (ignored) "ob' = ob"
  | (seen) ip where "ip \<noteq> obSelfIP ob" "ip = ip4_string (To4 (rqServerIdentifier req))"
      "rqMessageType req = MessageTypeRequest"
      "ob' = ob\<lparr>obSightings := AList.update ip now (obSightings ob)\<rparr>"
proof -
  let ?ip = "ip4_string (To4 (rqServerIdentifier req))"
  have "ob' = ob \<or> (?ip \<noteq> obSelfIP ob \<and> rqMessageType req = MessageTypeRequest \<and>
          ob' = ob\<lparr>obSightings := AList.update ?ip now (obSightings ob)\<rparr>)"
    using assms by (simp add: Observe_def Let_def split: if_split_asm)
  then show thesis using ignored seen by blast
qed

lemma Observe_inv:
  assumes "observer_inv ob" and "Observe now (Some ob) req = Some ob'"
  shows "observer_inv ob' \<and> obSelfIP ob' = obSelfIP ob"
  using assms(2)
proof (cases rule: Observe_cases)
  case (seen ip)
  then show ?thesis
    using assms(1) distinct_update [of "obSightings ob" ip now]
    unfolding observer_inv_def by (simp add: fst_set_update)
qed (use assms in simp)

lemma Sightings_inv:
  assumes "observer_inv ob" and "Sightings now window (Some ob) = (Some ob', out)"
  shows "observer_inv ob' \<and> obSelfIP ob' = obSelfIP ob"
  using assms by (force simp: Sightings_def Let_def observer_inv_def distinct_map_filter)

lemma Sightings_out:
  assumes "Sightings now window (Some ob) = (Some ob', out)"
  shows "set out = {(ip, seen) \<in> set (obSightings ob). now - window \<le> seen}"
    and "sorted (map fst out)" and "set (obSightings ob') = set out"
  using assms by (auto simp: Sightings_def Let_def)

lemma Sightings_distinct:
  assumes "observer_inv ob" and "Sightings now window (Some ob) = (Some ob', out)"
  shows "distinct (map fst out)"
proof -
  have "distinct (map fst (obSightings ob'))"
    using Sightings_inv [OF assms] by (simp add: observer_inv_def)
  moreover have "mset (map fst out) = mset (map fst (obSightings ob'))"
    using assms(2) by (auto simp: Sightings_def Let_def mset_map)
  ultimately show ?thesis by (metis mset_eq_imp_distinct_iff)
qed

section \<open>Properties\<close>

text \<open>The state after a list of observed messages.\<close>

definition observe_all :: "net_ip \<Rightarrow> (instant \<times> dhcp_req) list \<Rightarrow> DHCPObserver option" where
  "observe_all self ms =
     fold (\<lambda>(now, req) ob. Observe now ob req) ms (SetSelfIP (Some NewDHCPObserver) self)"

lemma observe_all_inv:
  "\<exists>ob. observe_all self ms = Some ob \<and> observer_inv ob \<and>
     (self \<noteq> [] \<longrightarrow> obSelfIP ob = ip4_string (To4 self))"
proof -
  obtain ob0 where ob0: "SetSelfIP (Some NewDHCPObserver) self = Some ob0"
    "self \<noteq> [] \<longrightarrow> obSelfIP ob0 = ip4_string (To4 self)"
    by (cases "self = []") (simp_all add: SetSelfIP_def)
  have "observer_inv ob \<Longrightarrow> \<exists>ob'. fold (\<lambda>(now, req) ob. Observe now ob req) ms (Some ob) = Some ob' \<and>
      observer_inv ob' \<and> obSelfIP ob' = obSelfIP ob" for ob
  proof (induction ms arbitrary: ob)
    case (Cons m ms)
    obtain now req where m: "m = (now, req)" by (cases m)
    have "Observe now (Some ob) req \<noteq> None" by (simp add: Observe_def Let_def)
    then obtain ob1 where ob1: "Observe now (Some ob) req = Some ob1" by blast
    from Observe_inv [OF Cons.prems ob1] Cons.IH [of ob1] show ?case by (auto simp: m ob1)
  qed simp
  moreover have "observer_inv ob0"
    using ob0(1) by (rule SetSelfIP_inv) (simp add: NewDHCPObserver_def)
  ultimately obtain ob' where
    "fold (\<lambda>(now, req) ob. Observe now ob req) ms (Some ob0) = Some ob'"
    "observer_inv ob'" "obSelfIP ob' = obSelfIP ob0" by blast
  then show ?thesis using ob0 unfolding observe_all_def by (intro exI [of _ ob']) simp
qed

text \<open>Foreign DHCP servers.  Whatever messages were observed, the sightings reported lie in the
  window, name each server once, in order of address, and never this server itself.\<close>

theorem Sightings_foreign:
  assumes "self \<noteq> []" and "Sightings now window (observe_all self ms) = (ob', out)"
  shows "sorted (map fst out) \<and> distinct (map fst out) \<and>
    list_all (\<lambda>(ip, seen). now - window \<le> seen \<and> ip \<noteq> ip4_string (To4 self)) out"
proof -
  obtain ob where ob: "observe_all self ms = Some ob" "observer_inv ob" "obSelfIP ob = ip4_string (To4 self)"
    using observe_all_inv [of self ms] assms(1) by blast
  then obtain ob'' where S: "Sightings now window (Some ob) = (Some ob'', out)"
    using assms(2) by (simp add: Sightings_def Let_def)
  from Sightings_out [OF S] Sightings_distinct [OF ob(2) S] ob(2,3) show ?thesis
    by (force simp: list_all_iff observer_inv_def)
qed

theorem Sightings_foreign_witness:
  "sorted (map fst (snd (Sightings 9 5 (observe_all [10,0,0,1] [])))) \<and>
   list_all (\<lambda>(ip, seen). 9 - 5 \<le> seen \<and> ip \<noteq> ip4_string (To4 [10,0,0,1]))
     (snd (Sightings 9 5 (observe_all [10,0,0,1] [])))"
  using Sightings_foreign [of "[10,0,0,1]" 9 5 "[]"] by (cases "Sightings 9 5 (observe_all [10,0,0,1] [])") simp

end
