(* ===== verification/Dhcp_Service.thy ===== *)
theory Dhcp_Service
  imports Dhcp_Server Dhcp_Observer
begin

text \<open>
  The two DHCP services as the network sees them: the ProxyDHCP of Mode A
  (\<open>backend/internal/network/proxydhcp.go\<close>) and the packet handler of the Mode B server
  (\<open>dhcpserver.go\<close>).  A handler observes the message, computes the reply and sends it;
  the send itself is the last component of the result (destination and reply), and logging
  is left out.
\<close>

section \<open>Where a reply goes\<close>

text \<open>
  \<open>peer\<close> is the sender's address; \<open>None\<close> is an address that is not a \<open>UDPAddr\<close>.
\<close>

record udp_addr =
  udpIP :: net_ip
  udpPort :: int

definition IPv4bcast :: net_ip where
  "IPv4bcast = replicate 10 0 @ [0xff, 0xff] @ [255, 255, 255, 255]"

text \<open>\<open>dhcpv4.ClientPort\<close>.\<close>

abbreviation ClientPort :: int where "ClientPort \<equiv> 68"

definition replyAddr :: "udp_addr option \<Rightarrow> dhcp_req \<Rightarrow> udp_addr" where
  "replyAddr peer req =
     (case peer of
        None \<Rightarrow> \<lparr>udpIP = IPv4bcast, udpPort = ClientPort\<rparr>
      | Some udp \<Rightarrow>
          if udpIP udp = [] \<or> IsUnspecified (udpIP udp) \<or> rqIsBroadcast req
          then \<lparr>udpIP = IPv4bcast, udpPort = ClientPort\<rparr> else udp)"

section \<open>ProxyDHCP\<close>

definition proxy_buildReply ::
    "(dhcp_req \<Rightarrow> dhcp_reply option) \<Rightarrow> BootConfig \<Rightarrow> dhcp_req \<Rightarrow> bool \<Rightarrow> dhcp_reply option" where
  "proxy_buildReply newReply cfg req isPort67 =
     (if rqOpCode req \<noteq> OpcodeBootRequest \<or> \<not> isPXERequest req then None
      else if isPort67 \<and> rqMessageType req \<noteq> MessageTypeDiscover then None
      else if \<not> isPort67 \<and> rqMessageType req \<noteq> MessageTypeRequest then None
      else case newReply req of
             None \<Rightarrow> None
           | Some r0 \<Rightarrow>
               let r1 = UpdateOption OptMessageType
                          (VType (if isPort67 then MessageTypeOffer else MessageTypeAck)) r0;
                   r2 = r1\<lparr>rpYourIPAddr := IPv4zero\<rparr>;
                   r3 = UpdateOption OptServerIdentifier (VIP (bcServerIP cfg)) r2
               in applyPXEOptions cfg r3 req)"

definition proxy_handler ::
    "(dhcp_req \<Rightarrow> dhcp_reply option) \<Rightarrow> BootConfig \<Rightarrow> bool \<Rightarrow> instant \<Rightarrow> DHCPObserver option
     \<Rightarrow> udp_addr option \<Rightarrow> dhcp_req \<Rightarrow> DHCPObserver option \<times> (udp_addr \<times> dhcp_reply) option" where
  "proxy_handler newReply cfg isPort67 now ob peer req =
     (let ob' = (if isPort67 then Observe now ob req else ob) in
      case proxy_buildReply newReply cfg req isPort67 of
        None \<Rightarrow> (ob', None)
      | Some reply \<Rightarrow> (ob', Some (replyAddr peer req, reply)))"

section \<open>The Mode B packet handler\<close>

definition dhcp_handle ::
    "(dhcp_req \<Rightarrow> dhcp_reply option) \<Rightarrow> DHCPConfig \<Rightarrow> 's LeaseStore option \<Rightarrow> instant
     \<Rightarrow> DHCPObserver option \<times> LeasePool \<times> 's \<Rightarrow> udp_addr option \<Rightarrow> dhcp_req
     \<Rightarrow> ((DHCPObserver option \<times> LeasePool \<times> 's) \<times> (udp_addr \<times> dhcp_reply) option) option" where
  "dhcp_handle newReply cfg store now s peer req =
     (case s of (ob, p, st) \<Rightarrow>
        let ob' = Observe now ob req in
        case buildReply newReply cfg store now p st req of
          None \<Rightarrow> None
        | Some (p', st', None) \<Rightarrow> Some ((ob', p', st'), None)
        | Some (p', st', Some reply) \<Rightarrow> Some ((ob', p', st'), Some (replyAddr peer req, reply)))"

text \<open>A whole conversation: the messages in the order the server handles them.\<close>

fun dhcp_run ::
    "(dhcp_req \<Rightarrow> dhcp_reply option) \<Rightarrow> DHCPConfig \<Rightarrow> 's LeaseStore option
     \<Rightarrow> DHCPObserver option \<times> LeasePool \<times> 's \<Rightarrow> (instant \<times> udp_addr option \<times> dhcp_req) list
     \<Rightarrow> ((DHCPObserver option \<times> LeasePool \<times> 's) \<times> (udp_addr \<times> dhcp_reply) option list) option" where
  "dhcp_run newReply cfg store s [] = Some (s, [])"
| "dhcp_run newReply cfg store s ((now, peer, req) # ms) =
     (case dhcp_handle newReply cfg store now s peer req of
        None \<Rightarrow> None
      | Some (s', out) \<Rightarrow>
          (case dhcp_run newReply cfg store s' ms of
             None \<Rightarrow> None
           | Some (s'', outs) \<Rightarrow> Some (s'', out # outs)))"

section \<open>Facts\<close>

lemma proxy_buildReply_Some:
  assumes "proxy_buildReply newReply cfg req isPort67 = Some r"
  shows "rpYourIPAddr r = IPv4zero"
    and "rpOptions r OptMessageType = Some (VType (if isPort67 then MessageTypeOffer else MessageTypeAck))"
    and "rqMessageType req = (if isPort67 then MessageTypeDiscover else MessageTypeRequest)"
    and "isPXERequest req" and "rqOpCode req = OpcodeBootRequest"
    and "rpBootFileName r = bootFilename cfg req" and "bootFilename cfg req \<noteq> ''''"
    and "rpServerIPAddr r = bcServerIP cfg"
proof -
  from assms obtain r0 where
    a: "applyPXEOptions cfg (UpdateOption OptServerIdentifier (VIP (bcServerIP cfg))
          ((UpdateOption OptMessageType
             (VType (if isPort67 then MessageTypeOffer else MessageTypeAck)) r0)
           \<lparr>rpYourIPAddr := IPv4zero\<rparr>)) req = Some r"
    by (auto simp: proxy_buildReply_def Let_def split: if_splits option.splits)
  show "rpYourIPAddr r = IPv4zero" "rpBootFileName r = bootFilename cfg req"
    "rpServerIPAddr r = bcServerIP cfg"
    "rpOptions r OptMessageType = Some (VType (if isPort67 then MessageTypeOffer else MessageTypeAck))"
    using applyPXEOptions_keeps [OF a] by simp_all
  show "bootFilename cfg req \<noteq> ''''" using a applyPXEOptions_None by (metis option.distinct(1))
  show "rqMessageType req = (if isPort67 then MessageTypeDiscover else MessageTypeRequest)"
    "isPXERequest req" "rqOpCode req = OpcodeBootRequest"
    using assms by (auto simp: proxy_buildReply_def split: if_splits)
qed

lemma dhcp_handle_inv:
  assumes "pool_inv p" and "pEnd p \<noteq> - 1"
    and "dhcp_handle newReply cfg store now (ob, p, st) peer req = Some ((ob', p', st'), out)"
  shows "pool_inv p' \<and> pStart p' = pStart p \<and> pEnd p' = pEnd p \<and> pDuration p' = pDuration p"
proof -
  from assms(3) obtain r where "buildReply newReply cfg store now p st req = Some (p', st', r)"
    by (auto simp: dhcp_handle_def Let_def split: option.splits prod.splits)
  then show ?thesis by (rule buildReply_inv [OF assms(1,2)])
qed

lemma dhcp_run_inv:
  assumes "dhcp_run newReply cfg store (ob, p, st) ms = Some ((ob', p', st'), outs)"
    and "pool_inv p" and "pEnd p \<noteq> - 1"
  shows "pool_inv p' \<and> pStart p' = pStart p \<and> pEnd p' = pEnd p \<and> pDuration p' = pDuration p"
  using assms
proof (induction ms arbitrary: ob p st outs)
  case Nil
  then show ?case by simp
next
  case (Cons m ms)
  obtain now peer req where m: "m = (now, peer, req)" by (cases m)
  from Cons.prems(1) obtain ob1 p1 st1 out1 outs1 where
    h: "dhcp_handle newReply cfg store now (ob, p, st) peer req = Some ((ob1, p1, st1), out1)"
    and r: "dhcp_run newReply cfg store (ob1, p1, st1) ms = Some ((ob', p', st'), outs1)"
    by (auto simp: m split: option.splits prod.splits)
  have 1: "pool_inv p1 \<and> pStart p1 = pStart p \<and> pEnd p1 = pEnd p \<and> pDuration p1 = pDuration p"
    by (rule dhcp_handle_inv [OF Cons.prems(2,3) h])
  with Cons.IH [OF r] Cons.prems(3) show ?case by simp
qed

lemma dhcp_run_length:
  "dhcp_run newReply cfg store s ms = Some (s', outs) \<Longrightarrow> length outs = length ms"
proof (induction ms arbitrary: s outs)
  case (Cons m ms)
  obtain now peer req where "m = (now, peer, req)" by (cases m)
  with Cons show ?case by (auto split: option.splits)
qed simp

lemma dhcp_run_returns:
  assumes "pool_inv p" and "pEnd p \<noteq> - 1"
  shows "\<exists>x. dhcp_run newReply cfg store (ob, p, st) ms = Some x"
  using assms
proof (induction ms arbitrary: ob p st)
  case Nil
  then show ?case by simp
next
  case (Cons m ms)
  obtain now peer req where m: "m = (now, peer, req)" by (cases m)
  obtain p1 st1 r where b: "buildReply newReply cfg store now p st req = Some (p1, st1, r)"
    using buildReply_returns [OF Cons.prems(2)] by (metis prod.exhaust)
  then obtain out1 where
    h: "dhcp_handle newReply cfg store now (ob, p, st) peer req = Some ((Observe now ob req, p1, st1), out1)"
    by (cases r) (auto simp: dhcp_handle_def Let_def)
  from dhcp_handle_inv [OF Cons.prems h] Cons.prems(2) Cons.IH [of p1 "Observe now ob req" st1]
  obtain x where "dhcp_run newReply cfg store (Observe now ob req, p1, st1) ms = Some x" by auto
  moreover obtain a b c outs where "x = ((a, b, c), outs)" by (metis prod.exhaust)
  ultimately show ?case by (simp add: m h)
qed

section \<open>Properties\<close>

text \<open>
  What the pool \<open>p\<close> before a message, the pool \<open>p'\<close> after it and the message allow as the answer.
  A DISCOVER is offered an address the client now holds, or nothing because it has none and every
  address of the range is taken; a REQUEST is acknowledged with the address the client asked for and
  now holds when it is entitled to it, and refused otherwise; a RELEASE or DECLINE ends the lease and
  has no answer; nothing else has one.  A client with a lease is entitled to its address, one without
  to any address of the range that no unexpired lease has.
\<close>

definition holds_address :: "LeasePool \<Rightarrow> instant \<Rightarrow> string \<Rightarrow> net_ip \<Rightarrow> bool" where
  "holds_address p now mac ip \<longleftrightarrow>
     (\<exists>n. ip = uintToIP n \<and> byMAC p mac = Some \<lparr>plMac = mac, plIp = n, plExpires = now + pDuration p\<rparr>)"

definition entitled :: "LeasePool \<Rightarrow> instant \<Rightarrow> string \<Rightarrow> net_ip \<Rightarrow> bool" where
  "entitled p now mac ip \<longleftrightarrow>
     (\<exists>n. ipToUint ip = Inr n \<and>
       (case byMAC p mac of Some l \<Rightarrow> plIp l = n | None \<Rightarrow> pStart p \<le> n \<and> n \<le> pEnd p \<and> addr_free p now n))"

definition answered ::
    "LeasePool \<Rightarrow> LeasePool \<Rightarrow> instant \<Rightarrow> udp_addr option \<Rightarrow> dhcp_req \<Rightarrow> (udp_addr \<times> dhcp_reply) option \<Rightarrow> bool" where
  "answered p p' now peer req out \<longleftrightarrow>
     (if rqOpCode req = OpcodeBootRequest \<and> rqMessageType req = MessageTypeDiscover then
        (case out of
           None \<Rightarrow> byMAC p (rqClientHWAddr req) = None \<and> (\<forall>n. pStart p \<le> n \<and> n \<le> pEnd p \<longrightarrow> \<not> addr_free p now n)
         | Some (dst, r) \<Rightarrow> dst = replyAddr peer req \<and> rpOptions r OptMessageType = Some (VType MessageTypeOffer) \<and>
             holds_address p' now (rqClientHWAddr req) (rpYourIPAddr r))
      else if rqOpCode req = OpcodeBootRequest \<and> rqMessageType req = MessageTypeRequest then
        (\<exists>r. out = Some (replyAddr peer req, r) \<and>
           (if entitled p now (rqClientHWAddr req) (requested_ip req)
            then rpOptions r OptMessageType = Some (VType MessageTypeAck) \<and>
              ipToUint (rpYourIPAddr r) = ipToUint (requested_ip req) \<and>
              holds_address p' now (rqClientHWAddr req) (rpYourIPAddr r)
            else rpOptions r OptMessageType = Some (VType MessageTypeNak)))
      else out = None \<and>
        (rqOpCode req = OpcodeBootRequest \<and> rqMessageType req \<in> {MessageTypeRelease, MessageTypeDecline} \<longrightarrow>
           byMAC p' (rqClientHWAddr req) = None))"

lemma buildReply_not_request:
  assumes "buildReply newReply cfg store now p st req = Some (p', st', r)"
    and "\<not> (rqOpCode req = OpcodeBootRequest \<and> rqMessageType req \<in> {MessageTypeDiscover, MessageTypeRequest})"
  shows "r = None"
  using assms by (cases "rqMessageType req") (auto simp: buildReply_def Let_def split: if_splits prod.splits)

lemma buildReply_silent:
  assumes "pEnd p \<noteq> - 1" and "newReply req \<noteq> None" and "buildReply newReply cfg store now p st req = Some (p', st', None)"
    and "rqOpCode req = OpcodeBootRequest"
  shows "rqMessageType req \<noteq> MessageTypeRequest"
    and "rqMessageType req = MessageTypeDiscover \<Longrightarrow>
      byMAC p (rqClientHWAddr req) = None \<and> (\<forall>n. pStart p \<le> n \<and> n \<le> pEnd p \<longrightarrow> \<not> addr_free p now n)"
proof -
  have ans: "(dhcp_answer newReply cfg dur req mt ip = None) = False" "(dhcp_nak newReply cfg req = None) = False" for dur mt ip
    using assms(2) by (auto simp: dhcp_answer_def dhcp_nak_def Let_def)
  show "rqMessageType req \<noteq> MessageTypeRequest"
    using assms(3,4) by (auto simp: buildReply_def Let_def ans split: if_splits option.splits)
  assume "rqMessageType req = MessageTypeDiscover"
  then have "Allocate store p st now (rqClientHWAddr req) (rqRequestedIP req) (rqHostName req) = Some (p', st', [])"
    using assms(3,4) by (auto simp: buildReply_def Let_def ans split: if_splits option.splits)
  then show "byMAC p (rqClientHWAddr req) = None \<and> (\<forall>n. pStart p \<le> n \<and> n \<le> pEnd p \<longrightarrow> \<not> addr_free p now n)"
  proof (cases rule: Allocate_cases)
    case nil
    then show ?thesis by (simp add: choose_ip_exhausted [OF assms(1)])
  next
    case (ip n)
    then show ?thesis by simp
  qed
qed

lemma Release_forgets: "Release store p st mac = (p', st') \<Longrightarrow> byMAC p' mac = None"
  by (auto simp: Release_def split: option.splits)

lemma Allocate_holds_address:
  "Allocate store p st now mac requested hostname = Some (p', st', uintToIP n) \<Longrightarrow> holds_address p' now mac (uintToIP n)"
  using Allocate_holds [of store p st now mac requested hostname p' st' "uintToIP n"] uintToIP_not_nil
    Allocate_range_fields [of store p st now mac requested hostname p' st' "uintToIP n"]
  by (auto simp: holds_address_def)

lemma entitled_Allocate:
  assumes "pool_inv p" and "pEnd p \<noteq> - 1" and A: "Allocate store p st now mac requested hostname = Some (p', st', ip)"
  shows "entitled p now mac requested \<longleftrightarrow> (\<exists>n. ip = uintToIP n \<and> ipToUint requested = Inr n)"
  using A
proof (cases rule: Allocate_cases)
  case nil
  then have "byMAC p mac = None \<and> (\<forall>n. pStart p \<le> n \<and> n \<le> pEnd p \<longrightarrow> \<not> addr_free p now n)"
    unfolding choose_ip_exhausted [OF assms(2)] by blast
  then show ?thesis using nil(4) by (auto simp: entitled_def)
next
  case (ip n)
  have ok: "assignable p now mac n" using choose_ip_assignable [OF assms(1,2) ip(1)] .
  have same: "n = m" if m: "ipToUint requested = Inr m" and e: "entitled p now mac requested" for m
  proof (cases "byMAC p mac")
    case None
    then have "pStart p \<le> m \<and> m \<le> pEnd p \<and> addr_free p now m" using m e by (simp add: entitled_def)
    then have "isFree p requested now" by (simp add: isFree_def m not_less)
    then show ?thesis using ip(1) None m by (simp add: choose_ip_def)
  next
    case (Some l)
    then show ?thesis using ip(1) m e by (simp add: entitled_def choose_ip_def)
  qed
  show ?thesis
  proof
    assume e: "entitled p now mac requested"
    then obtain m where m: "ipToUint requested = Inr m" by (auto simp: entitled_def)
    show "\<exists>n. ip = uintToIP n \<and> ipToUint requested = Inr n" using same [OF m e] m ip(3) by blast
  next
    assume "\<exists>m. ip = uintToIP m \<and> ipToUint requested = Inr m"
    then obtain m where "uintToIP n = uintToIP m" and m: "ipToUint requested = Inr m" using ip(3) by metis
    then have "n = m" by (metis be_uint32_uintToIP)
    then show "entitled p now mac requested"
      using ok m by (auto simp: entitled_def assignable_def split: option.splits)
  qed
qed

lemma ip_equal_uintToIP: "ip_equal (uintToIP n) ip \<longleftrightarrow> ipToUint ip = Inr n"
proof
  assume "ipToUint ip = Inr n"
  then have t: "To4 ip = uintToIP n" by (rule ipToUint_Inr_To4)
  have "length ip = 4 \<and> To4 ip = ip \<or> length ip = 16 \<or> To4 ip = []" by (simp add: To4_def)
  then show "ip_equal (uintToIP n) ip" using t by (auto simp: ip_equal_def)
qed (rule ip_equal_uint)

text \<open>A REQUEST is acknowledged exactly when the client is entitled to the address.\<close>

lemma REQUEST_verdict:
  assumes "pool_inv p" and "pEnd p \<noteq> - 1" and "rqOpCode req = OpcodeBootRequest" and "rqMessageType req = MessageTypeRequest"
    and b: "buildReply newReply cfg store now p st req = Some (p', st', Some r)"
  shows "if entitled p now (rqClientHWAddr req) (requested_ip req)
    then \<exists>n. Allocate store p st now (rqClientHWAddr req) (requested_ip req) (rqHostName req) = Some (p', st', uintToIP n) \<and>
      ipToUint (requested_ip req) = Inr n \<and> dhcp_answer newReply cfg (pDuration p') req MessageTypeAck (uintToIP n) = Some r
    else dhcp_nak newReply cfg req = Some r"
proof -
  let ?mac = "rqClientHWAddr req" and ?ip = "requested_ip req"
  have ack: ?thesis if "entitled p now ?mac ?ip" "Allocate store p st now ?mac ?ip (rqHostName req) = Some (p', st', ip)"
    "dhcp_answer newReply cfg (pDuration p') req MessageTypeAck ip = Some r" for ip
    using entitled_Allocate [OF assms(1,2) that(2)] that by auto
  show ?thesis
  proof (cases "Confirm p now ?mac ?ip")
    case True
    then have "entitled p now ?mac ?ip"
      by (auto simp: Confirm_def entitled_def split: option.splits sum.splits if_splits)
    moreover obtain ip where "Allocate store p st now ?mac ?ip (rqHostName req) = Some (p', st', ip)"
      "dhcp_answer newReply cfg (pDuration p') req MessageTypeAck ip = Some r"
      using True b assms(3,4) by (auto simp: buildReply_def Let_def split: option.splits)
    ultimately show ?thesis by (rule ack)
  next
    case False
    obtain ip where A: "Allocate store p st now ?mac ?ip (rqHostName req) = Some (p', st', ip)"
      and r: "if ip \<noteq> [] \<and> ip_equal ip ?ip
        then dhcp_answer newReply cfg (pDuration p') req MessageTypeAck ip = Some r else dhcp_nak newReply cfg req = Some r"
      using False b assms(3,4) by (auto simp: buildReply_def Let_def split: option.splits if_splits)
    have "ip = [] \<or> (\<exists>n. ip = uintToIP n)" using A by (cases rule: Allocate_cases) auto
    then have "ip \<noteq> [] \<and> ip_equal ip ?ip \<longleftrightarrow> entitled p now ?mac ?ip"
      unfolding entitled_Allocate [OF assms(1,2) A] by (auto simp: ip_equal_uintToIP)
    then show ?thesis using r ack [OF _ A] by (cases "entitled p now ?mac ?ip") simp_all
  qed
qed

lemma dhcp_handle_answered:
  assumes "pool_inv p" and "pEnd p \<noteq> - 1" and "newReply req \<noteq> None"
    and h: "dhcp_handle newReply cfg store now (ob, p, st) peer req = Some ((ob', p', st'), out)"
  shows "answered p p' now peer req out"
proof -
  obtain r where b: "buildReply newReply cfg store now p st req = Some (p', st', r)"
    and out: "out = map_option (Pair (replyAddr peer req)) r"
    using h by (auto simp: dhcp_handle_def Let_def split: option.splits)
  show ?thesis
  proof (cases "rqOpCode req = OpcodeBootRequest \<and> rqMessageType req \<in> {MessageTypeDiscover, MessageTypeRequest}")
    case False
    then have "r = None" using buildReply_not_request [OF b] by blast
    moreover have "byMAC p' (rqClientHWAddr req) = None"
      if "rqOpCode req = OpcodeBootRequest" "rqMessageType req = MessageTypeRelease \<or> rqMessageType req = MessageTypeDecline"
      using b that Release_forgets by (auto simp: buildReply_def Let_def split: prod.splits)
    ultimately show ?thesis using False out by (auto simp: answered_def)
  next
    case True
    then have op: "rqOpCode req = OpcodeBootRequest" by simp
    show ?thesis
    proof (cases r)
      case None
      then show ?thesis
        using buildReply_silent [of p newReply req cfg store now st p' st'] assms(2,3) b op True out by (auto simp: answered_def)
    next
      case (Some reply)
      then have b': "buildReply newReply cfg store now p st req = Some (p', st', Some reply)" using b by simp
      show ?thesis
      proof (cases "rqMessageType req = MessageTypeDiscover")
        case True
        then obtain n where "Allocate store p st now (rqClientHWAddr req) (rqRequestedIP req) (rqHostName req) = Some (p', st', uintToIP n)"
          and a: "dhcp_answer newReply cfg (pDuration p') req MessageTypeOffer (uintToIP n) = Some reply"
          using buildReply_DISCOVER [OF op True b'] by blast
        then show ?thesis
          using Allocate_holds_address dhcp_answer_fields(1,2) [OF a] out Some op True by (simp add: answered_def)
      next
        case False
        then have rq: "rqMessageType req = MessageTypeRequest"
          using \<open>rqOpCode req = OpcodeBootRequest \<and> rqMessageType req \<in> {MessageTypeDiscover, MessageTypeRequest}\<close> by simp
        note verdict = REQUEST_verdict [OF assms(1,2) op rq b']
        show ?thesis
        proof (cases "entitled p now (rqClientHWAddr req) (requested_ip req)")
          case False
          then show ?thesis using verdict dhcp_nak_fields out Some rq op by (auto simp: answered_def)
        next
          case True
          then obtain n where ack: "Allocate store p st now (rqClientHWAddr req) (requested_ip req) (rqHostName req) = Some (p', st', uintToIP n)"
              "ipToUint (requested_ip req) = Inr n" "dhcp_answer newReply cfg (pDuration p') req MessageTypeAck (uintToIP n) = Some reply"
            using verdict by auto
          then show ?thesis
            using True Allocate_holds_address [OF ack(1)] dhcp_answer_fields(1,2) [OF ack(3)] out Some op rq by (simp add: answered_def)
        qed
      qed
    qed
  qed
qed

text \<open>Every message of a run is handled in the state the messages before it left, and answered.\<close>

lemma dhcp_run_answered:
  assumes "pool_inv p" and "pEnd p \<noteq> - 1" and "\<forall>(now, peer, req)\<in>set ms. newReply req \<noteq> None"
    and "dhcp_run newReply cfg store (ob, p, st) ms = Some (s', outs)" and "i < length ms"
  shows "\<exists>ob1 p1 st1 ob2 p2 st2. dhcp_run newReply cfg store (ob, p, st) (take i ms) = Some ((ob1, p1, st1), take i outs) \<and>
    (case ms ! i of (now, peer, req) \<Rightarrow>
      dhcp_handle newReply cfg store now (ob1, p1, st1) peer req = Some ((ob2, p2, st2), outs ! i) \<and>
      answered p1 p2 now peer req (outs ! i))"
  using assms
proof (induction ms arbitrary: ob p st outs i)
  case (Cons m ms)
  obtain now peer req where m: "m = (now, peer, req)" by (cases m)
  obtain ob1 p1 st1 out1 outs1 where h: "dhcp_handle newReply cfg store now (ob, p, st) peer req = Some ((ob1, p1, st1), out1)"
    and r: "dhcp_run newReply cfg store (ob1, p1, st1) ms = Some (s', outs1)" and outs: "outs = out1 # outs1"
    using Cons.prems(4) by (auto simp: m split: option.splits prod.splits)
  show ?case
  proof (cases i)
    case 0
    then show ?thesis
      using dhcp_handle_answered [OF Cons.prems(1,2) _ h] Cons.prems(3) h by (auto simp: m outs)
  next
    case (Suc j)
    have "pool_inv p1" "pEnd p1 \<noteq> - 1" using dhcp_handle_inv [OF Cons.prems(1,2) h] Cons.prems(2) by simp_all
    from Cons.IH [OF this _ r, of j] Cons.prems(3,5) Suc obtain ob2 p2 st2 ob3 p3 st3
      where "dhcp_run newReply cfg store (ob1, p1, st1) (take j ms) = Some ((ob2, p2, st2), take j outs1)"
        "case ms ! j of (now, peer, req) \<Rightarrow>
          dhcp_handle newReply cfg store now (ob2, p2, st2) peer req = Some ((ob3, p3, st3), outs1 ! j) \<and>
          answered p2 p3 now peer req (outs1 ! j)"
      by auto
    then show ?thesis using h by (intro exI [of _ ob2] exI [of _ p2] exI [of _ st2] exI [of _ ob3] exI [of _ p3] exI [of _ st3])
        (simp add: m outs Suc)
  qed
qed simp

text \<open>C2: A whole DHCP conversation.  A server that starts from an empty pool whose range ends below
  255.255.255.255 (the pool's scan does not end there) handles every message of any sequence at any
  times: each DISCOVER gets an offer of an address its client then holds, or nothing when the range
  is exhausted, each REQUEST is acknowledged if the client is entitled to the address it asks for (its
  own, or a free one of the range when it has none) and refused otherwise, each RELEASE and DECLINE
  ends the lease in silence, and nothing else is answered.  Afterwards the pool still has the configured range,
  every lease is filed under its own MAC and its own address inside the range, and no two clients
  hold the same address.  The DHCP library must be able to build replies to these messages.\<close>

theorem dhcp_conversation:
  assumes "NewLeasePool start end dur = Inr p" and "pEnd p \<noteq> - 1"
    and replies: "\<forall>(now, peer, req)\<in>set ms. newReply req \<noteq> None"
  obtains ob' p' st' outs where
    "dhcp_run newReply cfg store (ob, p, st) ms = Some ((ob', p', st'), outs)"
    and "length outs = length ms"
    and "\<forall>i<length ms. \<exists>ob1 p1 st1 ob2 p2 st2.
      dhcp_run newReply cfg store (ob, p, st) (take i ms) = Some ((ob1, p1, st1), take i outs) \<and>
      (case ms ! i of (now, peer, req) \<Rightarrow>
        dhcp_handle newReply cfg store now (ob1, p1, st1) peer req = Some ((ob2, p2, st2), outs ! i) \<and>
        answered p1 p2 now peer req (outs ! i))"
    and "pStart p' = pStart p" and "pEnd p' = pEnd p"
    and "\<forall>m l. byMAC p' m = Some l \<longrightarrow>
      plMac l = m \<and> byIP p' (plIp l) = Some l \<and> pStart p \<le> plIp l \<and> plIp l \<le> pEnd p"
    and "\<forall>m m' l l'. byMAC p' m = Some l \<and> byMAC p' m' = Some l' \<and> plIp l = plIp l' \<longrightarrow> m = m'"
proof -
  have inv: "pool_inv p" using NewLeasePool_inv [OF assms(1)] by simp
  obtain ob' p' st' outs where
    r: "dhcp_run newReply cfg store (ob, p, st) ms = Some ((ob', p', st'), outs)"
    using dhcp_run_returns [OF inv assms(2)] by (metis prod.exhaust)
  have p': "pool_inv p'" "pStart p' = pStart p" "pEnd p' = pEnd p"
    using dhcp_run_inv [OF r inv assms(2)] by simp_all
  show thesis
  proof (rule that [OF r dhcp_run_length [OF r] _ p'(2,3)])
    show "\<forall>i<length ms. \<exists>ob1 p1 st1 ob2 p2 st2.
      dhcp_run newReply cfg store (ob, p, st) (take i ms) = Some ((ob1, p1, st1), take i outs) \<and>
      (case ms ! i of (now, peer, req) \<Rightarrow>
        dhcp_handle newReply cfg store now (ob1, p1, st1) peer req = Some ((ob2, p2, st2), outs ! i) \<and>
        answered p1 p2 now peer req (outs ! i))"
      using dhcp_run_answered [OF inv assms(2) replies r] by blast
    show "\<forall>m l. byMAC p' m = Some l \<longrightarrow>
        plMac l = m \<and> byIP p' (plIp l) = Some l \<and> pStart p \<le> plIp l \<and> plIp l \<le> pEnd p"
      by (simp add: pool_inv_byMAC [OF p'(1)] pool_inv_range [OF p'(1)] flip: p'(2,3))
    show "\<forall>m m' l l'. byMAC p' m = Some l \<and> byMAC p' m' = Some l' \<and> plIp l = plIp l' \<longrightarrow> m = m'"
    proof (intro allI impI)
      fix m m' l l'
      assume *: "byMAC p' m = Some l \<and> byMAC p' m' = Some l' \<and> plIp l = plIp l'"
      note l = pool_inv_byMAC [OF p'(1) conjunct1 [OF *]]
        and l' = pool_inv_byMAC [OF p'(1) conjunct1 [OF conjunct2 [OF *]]]
        and same = conjunct2 [OF conjunct2 [OF *]]
      have "Some l = Some l'"
        by (rule trans [OF conjunct2 [OF l, symmetric]]) (unfold same, rule conjunct2 [OF l'])
      then show "m = m'" using conjunct1 [OF l] conjunct1 [OF l'] by simp
    qed
  qed
qed

text \<open>C5: An acknowledgement is exact.  When a REQUEST is answered with an ACK, the address in it is
  the one the client asked for (or, renewing, its own), the client holds its lease until the
  lease time announced has passed, and any other client that had this very address had let its
  lease expire.\<close>

theorem ack_is_held:
  assumes "pool_inv p" and "pEnd p \<noteq> - 1"
    and "rqOpCode req = OpcodeBootRequest" and "rqMessageType req = MessageTypeRequest"
    and "buildReply newReply cfg store now p st req = Some (p', st', Some r)"
    and "rpOptions r OptMessageType = Some (VType MessageTypeAck)"
  shows "ipToUint (rpYourIPAddr r) = ipToUint (requested_ip req) \<and>
    (\<forall>later. later \<le> now + pDuration p \<longrightarrow> Confirm p' later (rqClientHWAddr req) (rpYourIPAddr r)) \<and>
    rpOptions r OptIPAddressLeaseTime = Some (VDuration (pDuration p)) \<and>
    (\<forall>m l. m \<noteq> rqClientHWAddr req \<and> byMAC p m = Some l \<and> ipToUint (rpYourIPAddr r) = Inr (plIp l) \<longrightarrow>
       now > plExpires l)"
proof -
  obtain ip n where a: "Allocate store p st now (rqClientHWAddr req) (requested_ip req) (rqHostName req)
        = Some (p', st', ip)" "ip = uintToIP n" "ipToUint (requested_ip req) = Inr n"
    and r: "dhcp_answer newReply cfg (pDuration p') req MessageTypeAck ip = Some r"
    using buildReply_REQUEST [OF assms(3-5)] assms(6) by auto
  have ip: "rpYourIPAddr r = uintToIP n" "rpOptions r OptIPAddressLeaseTime = Some (VDuration (pDuration p))"
    using dhcp_answer_fields [OF r] Allocate_range_fields [OF a(1)] a(2) by simp_all
  have "now > plExpires l" if "m \<noteq> rqClientHWAddr req" "byMAC p m = Some l" "plIp l = n" for m l
  proof -
    have ch: "choose_ip p now (rqClientHWAddr req) (requested_ip req) = Some (Some n)"
      using a(1) by (cases rule: Allocate_cases) (use a(2) in \<open>auto dest: arg_cong [of _ _ ipToUint]\<close>)
    have l: "byIP p n = Some l" "plMac l = m" using pool_inv_byMAC [OF assms(1) that(2)] that(3) by auto
    then have "byMAC p (rqClientHWAddr req) = None"
      using choose_ip_assignable [OF assms(1,2) ch] pool_inv_byMAC [OF assms(1)] that(1)
      by (auto simp: assignable_def split: option.splits)
    then show ?thesis
      using choose_ip_assignable [OF assms(1,2) ch] l by (simp add: assignable_def addr_free_def)
  qed
  moreover have "Confirm p' later (rqClientHWAddr req) (rpYourIPAddr r)" if "later \<le> now + pDuration p" for later
    using Allocate_Confirm [OF a(1)] a(2) that ip by simp
  ultimately show ?thesis using ip a by auto
qed

definition sample_pool :: LeasePool where
  "sample_pool = \<lparr>pStart = 0x0A000001, pEnd = 0x0A000009, pDuration = hour,
     byMAC = Map.empty, byIP = Map.empty\<rparr>"

definition sample_config :: DHCPConfig where
  "sample_config = \<lparr>dcBoot = \<lparr>bcServerIP = [10,0,0,254], bcScriptURL = ''http://h/boot''\<rparr>,
     dcSubnetMask = [255,255,255,0], dcGateway = [], dcDNS = []\<rparr>"

definition sample_request :: "MessageType \<Rightarrow> dhcp_req" where
  "sample_request mt = \<lparr>rqOpCode = OpcodeBootRequest, rqMessageType = mt, rqClientHWAddr = ''m'',
     rqClientIPAddr = [], rqRequestedIP = [10,0,0,5], rqHostName = [], rqClassIdentifier = ''PXEClient:Arch'',
     rqUserClass = [], rqClientArch = [EFI_X86_64], rqServerIdentifier = [], rqIsBroadcast = False\<rparr>"

definition empty_reply :: "dhcp_req \<Rightarrow> dhcp_reply option" where
  "empty_reply req = Some \<lparr>rpYourIPAddr = [], rpServerIPAddr = [], rpBootFileName = [], rpOptions = Map.empty\<rparr>"

lemma sample_REQUEST:
  "\<exists>p' r. buildReply empty_reply sample_config None 0 sample_pool () (sample_request MessageTypeRequest)
     = Some (p', (), Some r) \<and> rpOptions r OptMessageType = Some (VType MessageTypeAck)"
proof -
  let ?req = "sample_request MessageTypeRequest"
  have u: "uintToIP 0x0A000005 = [10,0,0,5]" by (simp add: uintToIP_def)
  have rq: "requested_ip ?req = [10,0,0,5]" "\<not> Confirm sample_pool 0 ''m'' [10,0,0,5]"
    by (auto simp: sample_request_def requested_ip_def IsUnspecified_def ip_equal_def To4_def IPv4zero_def
        Confirm_def sample_pool_def dest: arg_cong [of _ _ length])
  have "choose_ip sample_pool 0 ''m'' [10,0,0,5] = Some (Some 0x0A000005)"
    by (simp add: choose_ip_def isFree_def addr_free_def sample_pool_def ipToUint_def To4_def be_uint32_def)
  then obtain p' where A: "Allocate None sample_pool () 0 ''m'' [10,0,0,5] [] = Some (p', (), [10,0,0,5])"
    by (simp add: Allocate_def u)
  obtain r where r: "dhcp_answer empty_reply sample_config (pDuration p') ?req MessageTypeAck [10,0,0,5] = Some r"
    by (simp add: dhcp_answer_def empty_reply_def Let_def)
  have "buildReply empty_reply sample_config None 0 sample_pool () ?req = Some (p', (), Some r)"
    using rq A r by (simp add: buildReply_def Let_def ip_equal_def sample_request_def)
  then show ?thesis using dhcp_answer_fields(2) [OF r] by blast
qed

lemma sample_pool_inv: "pool_inv sample_pool" "pEnd sample_pool \<noteq> - 1"
  by (simp_all add: pool_inv_def sample_pool_def)

theorem ack_is_held_witness:
  "\<exists>p' r. buildReply empty_reply sample_config None 0 sample_pool () (sample_request MessageTypeRequest)
     = Some (p', (), Some r) \<and> Confirm p' 10 ''m'' (rpYourIPAddr r)"
proof -
  obtain p' r where b: "buildReply empty_reply sample_config None 0 sample_pool () (sample_request MessageTypeRequest)
      = Some (p', (), Some r)" "rpOptions r OptMessageType = Some (VType MessageTypeAck)"
    using sample_REQUEST by blast
  have "rqOpCode (sample_request MessageTypeRequest) = OpcodeBootRequest"
    "rqMessageType (sample_request MessageTypeRequest) = MessageTypeRequest"
    "rqClientHWAddr (sample_request MessageTypeRequest) = ''m''" "10 \<le> 0 + pDuration sample_pool"
    by (simp_all add: sample_request_def sample_pool_def)
  then show ?thesis
    using ack_is_held [OF sample_pool_inv _ _ b] b(1) by (metis (no_types))
qed

definition sample_messages :: "(instant \<times> udp_addr option \<times> dhcp_req) list" where
  "sample_messages = [(0, None, sample_request MessageTypeRequest), (9, None, sample_request MessageTypeRelease)]"

theorem dhcp_conversation_witness:
  "\<exists>p r s'. NewLeasePool [10,0,0,1] [10,0,0,9] hour = Inr p \<and>
     dhcp_run empty_reply sample_config None (None, p, ()) sample_messages =
       Some (s', [Some (\<lparr>udpIP = IPv4bcast, udpPort = 68\<rparr>, r), None])"
proof -
  have p: "NewLeasePool [10,0,0,1] [10,0,0,9] hour = Inr sample_pool" "pEnd sample_pool \<noteq> - 1"
    by (simp_all add: NewLeasePool_def ipToUint_def To4_def be_uint32_def sample_pool_def)
  have "\<forall>(now, peer, req)\<in>set sample_messages. empty_reply req \<noteq> None" by (simp add: empty_reply_def)
  then obtain ob' p' st' outs where r: "dhcp_run empty_reply sample_config None (None, sample_pool, ()) sample_messages = Some ((ob', p', st'), outs)"
    and l: "length outs = length sample_messages"
    and a: "\<forall>i<length sample_messages. \<exists>ob1 p1 st1 ob2 p2 st2.
      dhcp_run empty_reply sample_config None (None, sample_pool, ()) (take i sample_messages) = Some ((ob1, p1, st1), take i outs) \<and>
      (case sample_messages ! i of (now, peer, req) \<Rightarrow>
        dhcp_handle empty_reply sample_config None now (ob1, p1, st1) peer req = Some ((ob2, p2, st2), outs ! i) \<and>
        answered p1 p2 now peer req (outs ! i))"
    by (rule dhcp_conversation [OF p, of sample_messages empty_reply sample_config None None "()"])
  obtain o1 o2 where o: "outs = [o1, o2]" using l by (auto simp: sample_messages_def length_Suc_conv)
  obtain p1 p2 q1 q2 where "answered p1 p2 0 None (sample_request MessageTypeRequest) o1"
    "answered q1 q2 9 None (sample_request MessageTypeRelease) o2"
    using a [rule_format, of 0] a [rule_format, of 1] by (auto simp: o sample_messages_def)
  then have "o2 = None" "\<exists>r. o1 = Some (replyAddr None (sample_request MessageTypeRequest), r)"
    by (auto simp: answered_def sample_request_def)
  then show ?thesis using p(1) r by (auto simp: o replyAddr_def)
qed

text \<open>Proxy mode assigns nothing.  Whatever a ProxyDHCP client sends, a reply never carries an
  address of its own (yiaddr is 0.0.0.0), is only sent to PXE clients, is an OFFER to a DISCOVER
  on port 67 and an ACK to a REQUEST on port 4011, and names the boot file for the client's
  firmware and this server.\<close>

theorem proxy_assigns_nothing:
  assumes "proxy_handler newReply cfg isPort67 now ob peer req = (ob', Some (dst, r))"
  shows "rpYourIPAddr r = IPv4zero \<and> isPXERequest req \<and> rqOpCode req = OpcodeBootRequest \<and>
    rqMessageType req = (if isPort67 then MessageTypeDiscover else MessageTypeRequest) \<and>
    rpOptions r OptMessageType = Some (VType (if isPort67 then MessageTypeOffer else MessageTypeAck)) \<and>
    rpBootFileName r = bootFilename cfg req \<and> rpBootFileName r \<noteq> '''' \<and> rpServerIPAddr r = bcServerIP cfg"
proof -
  from assms have "proxy_buildReply newReply cfg req isPort67 = Some r"
    by (auto simp: proxy_handler_def Let_def split: option.splits)
  from proxy_buildReply_Some [OF this] show ?thesis by simp
qed

theorem proxy_assigns_nothing_witness:
  "\<exists>dst r. proxy_handler empty_reply (dcBoot sample_config) True 0 None None (sample_request MessageTypeDiscover)
     = (None, Some (dst, r)) \<and> rpYourIPAddr r = IPv4zero"
proof -
  have "bootFilename (dcBoot sample_config) (sample_request MessageTypeDiscover) = ''ipxe.efi''"
    "isPXERequest (sample_request MessageTypeDiscover)"
    by (simp_all add: bootFilename_def isPXERequest_def sample_request_def isIPXE_def has_prefix_def)
  then obtain dst r where
    h: "proxy_handler empty_reply (dcBoot sample_config) True 0 None None (sample_request MessageTypeDiscover)
       = (None, Some (dst, r))"
    by (simp add: proxy_handler_def proxy_buildReply_def empty_reply_def Let_def Observe_def
        applyPXEOptions_def sample_request_def)
  then show ?thesis using proxy_assigns_nothing [OF h] by blast
qed

end
