(* ===== verification/Go_Path.thy ===== *)
theory Go_Path
  imports Prelude
begin

text \<open>
  The lexical path functions of Go's \<open>path/filepath\<close> on Unix that the program relies on:
  \<open>Clean\<close>, \<open>Join\<close> and \<open>Base\<close>.  \<open>Clean\<close> works on the \<open>/\<close>-separated segments with a
  stack (the last segment first): empty segments and \<open>.\<close> vanish, \<open>..\<close> drops the segment
  before it, and at the root it vanishes too.
\<close>

section \<open>Splitting and joining\<close>

fun split_on :: "char \<Rightarrow> string \<Rightarrow> string list" where
  "split_on c [] = [[]]"
| "split_on c (x # xs) =
     (if x = c then [] # split_on c xs
      else (case split_on c xs of [] \<Rightarrow> [[x]] | y # ys \<Rightarrow> (x # y) # ys))"

fun join_with :: "string \<Rightarrow> string list \<Rightarrow> string" where
  "join_with sep [] = []"
| "join_with sep [x] = x"
| "join_with sep (x # y # xs) = x @ sep @ join_with sep (y # xs)"

lemma split_on_nonempty [simp]: "split_on c s \<noteq> []"
  by (induction s) (auto split: list.splits)

lemma split_on_append: "split_on c (xs @ c # ys) = split_on c xs @ split_on c ys"
proof (induction xs)
  case (Cons x xs)
  then show ?case by (cases "split_on c xs") auto
qed simp

lemma split_on_no_sep: "w \<in> set (split_on c s) \<Longrightarrow> c \<notin> set w"
proof (induction s arbitrary: w)
  case (Cons x s)
  then show ?case by (cases "split_on c s") (auto split: if_splits)
qed simp

lemma split_on_id: "c \<notin> set s \<Longrightarrow> split_on c s = [s]"
  by (induction s) auto

lemma join_with_append:
  "xs \<noteq> [] \<Longrightarrow> ys \<noteq> [] \<Longrightarrow> join_with sep (xs @ ys) = join_with sep xs @ sep @ join_with sep ys"
proof (induction sep xs rule: join_with.induct)
  case (2 sep x)
  then show ?case by (cases ys) simp_all
qed simp_all

lemma join_with_Cons: "ys \<noteq> [] \<Longrightarrow> join_with sep (x # ys) = x @ sep @ join_with sep ys"
  by (cases ys) simp_all

lemma split_join: "xs \<noteq> [] \<Longrightarrow> \<forall>x\<in>set xs. c \<notin> set x \<Longrightarrow> split_on c (join_with [c] xs) = xs"
proof (induction "[c]" xs rule: join_with.induct)
  case (3 x y xs)
  then show ?case by (simp add: split_on_append split_on_id)
qed (simp_all add: split_on_id)

section \<open>Clean, Join, Base\<close>

definition clean_step :: "bool \<Rightarrow> string list \<Rightarrow> string \<Rightarrow> string list" where
  "clean_step rooted stack seg =
     (if seg = '''' \<or> seg = ''.'' then stack
      else if seg = ''..'' then
        (case stack of
           [] \<Rightarrow> if rooted then [] else [''..'']
         | x # xs \<Rightarrow> if x = ''..'' then ''..'' # stack else xs)
      else seg # stack)"

definition is_rooted :: "string \<Rightarrow> bool" where
  "is_rooted p = has_prefix p ''/''"

definition clean_segs :: "string \<Rightarrow> string list" where
  "clean_segs p = rev (foldl (clean_step (is_rooted p)) [] (split_on (CHR ''/'') p))"

definition Clean :: "string \<Rightarrow> string" where
  "Clean p =
     (if is_rooted p then ''/'' @ join_with ''/'' (clean_segs p)
      else if clean_segs p = [] then ''.''
      else join_with ''/'' (clean_segs p))"

fun Join :: "string list \<Rightarrow> string" where
  "Join [] = []"
| "Join (e # es) = (if e = [] then Join es else Clean (join_with ''/'' (e # es)))"

definition Base :: "string \<Rightarrow> string" where
  "Base p =
     (if p = [] then ''.''
      else let q = rev (dropWhile (\<lambda>c. c = CHR ''/'') (rev p)) in
           if q = [] then ''/'' else last (split_on (CHR ''/'') q))"

section \<open>The stack\<close>

text \<open>A proper segment: not empty, not a dot segment, no separator.\<close>

definition proper_seg :: "string \<Rightarrow> bool" where
  "proper_seg s \<longleftrightarrow> s \<noteq> '''' \<and> s \<noteq> ''.'' \<and> s \<noteq> ''..'' \<and> CHR ''/'' \<notin> set s"

lemma clean_step_proper [simp]: "proper_seg s \<Longrightarrow> clean_step rooted stack s = s # stack"
  by (simp add: clean_step_def proper_seg_def)

lemma clean_steps_proper:
  "\<forall>s\<in>set ss. proper_seg s \<Longrightarrow> foldl (clean_step rooted) stack ss = rev ss @ stack"
  by (induction ss arbitrary: stack) simp_all

lemma clean_step_rooted:
  assumes "Ball (set stack) proper_seg" and "CHR ''/'' \<notin> set seg"
  shows "Ball (set (clean_step True stack seg)) proper_seg"
proof -
  have "set (clean_step True stack seg) \<subseteq> insert seg (set stack)"
    by (cases stack) (auto simp: clean_step_def)
  moreover have "\<not> proper_seg seg \<Longrightarrow> set (clean_step True stack seg) \<subseteq> set stack \<union> Collect proper_seg"
    using assms by (cases stack) (auto simp: clean_step_def proper_seg_def [of seg] dest: bspec simp: proper_seg_def)
  ultimately show ?thesis using assms(1) by blast
qed

lemma clean_steps_rooted:
  "Ball (set segs) (\<lambda>s. CHR ''/'' \<notin> set s) \<Longrightarrow> Ball (set stack) proper_seg \<Longrightarrow>
     Ball (set (foldl (clean_step True) stack segs)) proper_seg"
proof (induction segs arbitrary: stack)
  case (Cons a segs)
  have "Ball (set (clean_step True stack a)) proper_seg"
    using Cons.prems by (intro clean_step_rooted) (rule Cons.prems(2), rule bspec [OF Cons.prems(1)], simp)
  moreover have "Ball (set segs) (\<lambda>s. CHR ''/'' \<notin> set s)" using Cons.prems(1) by simp
  ultimately have "Ball (set (foldl (clean_step True) (clean_step True stack a) segs)) proper_seg"
    using Cons.IH by (rule_tac Cons.IH)
  then show ?case by (simp only: foldl.simps)
qed simp

text \<open>Everything \<open>..\<close> could climb over is gone from a rooted path.\<close>

lemma clean_segs_rooted:
  assumes "is_rooted p"
  shows "Ball (set (clean_segs p)) proper_seg"
proof -
  have "Ball (set (split_on (CHR ''/'') p)) (\<lambda>s. CHR ''/'' \<notin> set s)"
    by (rule ballI) (rule split_on_no_sep)
  from clean_steps_rooted [OF this, of "[]"] assms show ?thesis
    by (simp only: clean_segs_def set_rev) simp
qed

lemma clean_step_empty [simp]: "clean_step rooted stack [] = stack"
  by (simp add: clean_step_def)

lemma foldl_clean_rooted_path:
  "foldl (clean_step r) stack (split_on (CHR ''/'') (''/'' @ join_with ''/'' ss)) =
   foldl (clean_step r) stack (split_on (CHR ''/'') (join_with ''/'' ss))"
  by simp

lemma foldl_clean_join:
  assumes "\<forall>s\<in>set ss. proper_seg s"
  shows "foldl (clean_step r) stack (split_on (CHR ''/'') (join_with ''/'' ss)) = rev ss @ stack"
proof (cases "ss = []")
  case False
  have "\<forall>x\<in>set ss. CHR ''/'' \<notin> set x" using assms by (simp add: proper_seg_def)
  from split_join [OF False this] assms show ?thesis by (simp add: clean_steps_proper)
qed simp

text \<open>Joining a rooted clean path below a directory appends its segments.\<close>

lemma Join_below:
  assumes root: "root \<noteq> []" and ss: "\<forall>s\<in>set ss. proper_seg s"
  shows "Join [root, ''/'' @ join_with ''/'' ss] =
    (let segs = clean_segs root @ ss in
     if is_rooted root then ''/'' @ join_with ''/'' segs
     else if segs = [] then ''.'' else join_with ''/'' segs)"
proof -
  let ?p = "root @ CHR ''/'' # CHR ''/'' # join_with ''/'' ss"
  have r: "is_rooted ?p = is_rooted root"
    using root by (cases root) (auto simp: is_rooted_def has_prefix_def)
  have "split_on (CHR ''/'') ?p =
      split_on (CHR ''/'') root @ [] # split_on (CHR ''/'') (join_with ''/'' ss)"
    by (simp add: split_on_append)
  then have "clean_segs ?p = clean_segs root @ ss"
    using foldl_clean_join [OF ss] by (simp add: clean_segs_def r)
  then show ?thesis using root r by (simp add: Clean_def Let_def)
qed

lemma Clean_rooted_slash: "Clean (''/'' @ p) = ''/'' @ join_with ''/'' (clean_segs (''/'' @ p))"
  by (simp add: Clean_def is_rooted_def has_prefix_def)

section \<open>Clean paths\<close>

text \<open>A stack has the names below the \<open>..\<close>s that climb out of an unrooted path.\<close>

definition clean_stack :: "bool \<Rightarrow> string list \<Rightarrow> bool" where
  "clean_stack r stack \<longleftrightarrow>
     (\<exists>ps k. stack = ps @ replicate k ''..'' \<and> Ball (set ps) proper_seg \<and> (r \<longrightarrow> k = 0))"

lemma clean_stackI: "Ball (set ps) proper_seg \<Longrightarrow> (r \<Longrightarrow> k = 0) \<Longrightarrow> clean_stack r (ps @ replicate k ''..'')"
  unfolding clean_stack_def by blast

lemma clean_step_stack:
  assumes "clean_stack r stack" and sep: "CHR ''/'' \<notin> set seg"
  shows "clean_stack r (clean_step r stack seg)"
proof -
  obtain ps k where st: "stack = ps @ replicate k ''..''" and ps: "Ball (set ps) proper_seg"
    and k: "r \<Longrightarrow> k = 0"
    using assms(1) unfolding clean_stack_def by blast
  consider "seg = [] \<or> seg = ''.''" | (up) "seg = ''..''" | (name) "proper_seg seg"
    using sep unfolding proper_seg_def by blast
  then show ?thesis
  proof cases
    case 1
    then have "clean_step r stack seg = stack" by (auto simp: clean_step_def)
    then show ?thesis using assms(1) by simp
  next
    case up
    show ?thesis
    proof (cases ps)
      case Nil
      show ?thesis
      proof (cases k)
        case 0
        then have "clean_step r stack seg = [] @ replicate (if r then 0 else 1) ''..''"
          using up st Nil by (simp add: clean_step_def)
        then show ?thesis using clean_stackI [of "[]" r "if r then 0 else 1"] by simp
      next
        case (Suc j)
        then have "clean_step r stack seg = [] @ replicate (Suc k) ''..''"
          using up st Nil by (simp add: clean_step_def)
        then show ?thesis using clean_stackI [of "[]" r "Suc k"] k Suc by auto
      qed
    next
      case (Cons q qs)
      have "q \<noteq> ''..''" using ps Cons by (simp add: proper_seg_def)
      then have "clean_step r stack seg = qs @ replicate k ''..''"
        using up st Cons by (simp add: clean_step_def)
      then show ?thesis using clean_stackI [of qs r k] ps k Cons by simp
    qed
  next
    case name
    then have "clean_step r stack seg = (seg # ps) @ replicate k ''..''" using st by simp
    then show ?thesis using clean_stackI [of "seg # ps" r k] ps k name by simp
  qed
qed

lemma clean_steps_stack:
  "Ball (set segs) (\<lambda>s. CHR ''/'' \<notin> set s) \<Longrightarrow> clean_stack r stack \<Longrightarrow>
     clean_stack r (foldl (clean_step r) stack segs)"
  by (induction segs arbitrary: stack) (simp_all add: clean_step_stack)

lemma foldl_clean_ups: "foldl (clean_step False) (replicate j ''..'') (replicate k ''..'') = replicate (j + k) ''..''"
proof (induction k arbitrary: j)
  case (Suc k)
  have "clean_step False (replicate j ''..'') ''..'' = replicate (Suc j) ''..''"
    by (cases j) (simp_all add: clean_step_def)
  with Suc [of "Suc j"] show ?case by simp
qed simp

text \<open>Cleaning the segments of a clean path changes nothing.\<close>

lemma foldl_clean_segs:
  assumes "clean_stack r stack" and "Ball (set ss) proper_seg"
  shows "foldl (clean_step r) [] (rev stack @ ss) = rev ss @ stack"
proof -
  obtain ps k where st: "stack = ps @ replicate k ''..''" and ps: "Ball (set ps) proper_seg"
    and k: "r \<Longrightarrow> k = 0"
    using assms(1) unfolding clean_stack_def by blast
  have "foldl (clean_step r) [] (replicate k ''..'') = replicate k ''..''"
    using foldl_clean_ups [of 0 k] k by (cases r) simp_all
  then show ?thesis
    using ps assms(2) by (simp add: st clean_steps_proper)
qed

lemma clean_segs_stack: "clean_stack (is_rooted p) (rev (clean_segs p))"
proof -
  have "Ball (set (split_on (CHR ''/'') p)) (\<lambda>s. CHR ''/'' \<notin> set s)"
    by (rule ballI) (rule split_on_no_sep)
  moreover have "clean_stack (is_rooted p) []"
    using clean_stackI [of "[]" "is_rooted p" 0] by simp
  ultimately show ?thesis unfolding clean_segs_def rev_rev_ident by (rule clean_steps_stack)
qed

lemma clean_segs_no_sep: "Ball (set (clean_segs p)) (\<lambda>s. CHR ''/'' \<notin> set s \<and> s \<noteq> [])"
proof -
  obtain ps k where "rev (clean_segs p) = ps @ replicate k ''..''" and ps: "Ball (set ps) proper_seg"
    using clean_segs_stack [of p] unfolding clean_stack_def by blast
  then have "set (clean_segs p) \<subseteq> set ps \<union> {''..''}" by (metis set_rev set_append set_replicate_conv_if subset_refl Un_mono empty_subsetI)
  then show ?thesis using ps by (auto simp: proper_seg_def)
qed

text \<open>Segments below a clean path stay below it.\<close>

lemma clean_segs_below:
  assumes root: "clean_segs root \<noteq> []" and ss: "Ball (set ss) proper_seg"
  shows "clean_segs (Clean root @ ''/'' @ join_with ''/'' ss) = clean_segs root @ ss"
proof -
  define rs where "rs = clean_segs root"
  have rs: "rs \<noteq> []" "Ball (set rs) (\<lambda>s. CHR ''/'' \<notin> set s \<and> s \<noteq> [])"
    using root clean_segs_no_sep by (simp_all add: rs_def)
  obtain c t u where c: "rs = (c # t) # u" using rs by (cases rs; cases "hd rs") auto
  have nr: "\<not> is_rooted (join_with ''/'' rs @ x)" for x
    using rs(2) c by (cases u) (auto simp: is_rooted_def has_prefix_def)
  have C: "Clean root = (if is_rooted root then ''/'' else []) @ join_with ''/'' rs"
    using rs(1) by (simp add: Clean_def rs_def)
  have split: "split_on (CHR ''/'') (join_with ''/'' rs @ ''/'' @ join_with ''/'' ss) =
      rs @ split_on (CHR ''/'') (join_with ''/'' ss)"
    using split_join [OF rs(1), of "CHR ''/''"] rs(2) by (simp add: split_on_append)
  have stack: "clean_stack (is_rooted root) (rev rs)" unfolding rs_def by (rule clean_segs_stack)
  have "foldl (clean_step r) [] (rs @ split_on (CHR ''/'') (join_with ''/'' ss)) = rev ss @ rev rs"
    if "r = is_rooted root" for r
    using foldl_clean_segs [OF stack, of "[]"] foldl_clean_join [OF ss] that by simp
  moreover have "is_rooted (Clean root @ ''/'' @ join_with ''/'' ss) = is_rooted root"
    using nr by (simp add: C is_rooted_def has_prefix_def)
  ultimately have "clean_segs (Clean root @ ''/'' @ join_with ''/'' ss) = rs @ ss"
    using split by (cases "is_rooted root") (simp_all add: clean_segs_def C)
  then show ?thesis by (simp only: rs_def)
qed

end
