(* ===== verification/Tftp.thy ===== *)
theory Tftp
  imports Go_Path
begin

text \<open>
  The path check of the TFTP server, \<open>securePath\<close> of \<open>backend/internal/network/tftp.go\<close>.
  The listener and the transfer itself are the \<open>tftp\<close> package's; a file system is a map.
\<close>

definition replace_backslash :: "string \<Rightarrow> string" where
  "replace_backslash = map (\<lambda>c. if c = CHR 0x5C then CHR ''/'' else c)"

datatype tftp_error = PathEscapesRoot | FileNotFound

definition securePath :: "string \<Rightarrow> string \<Rightarrow> tftp_error + string" where
  "securePath root filename =
     (let clean = Clean (''/'' @ replace_backslash filename);
          path = Join [root, clean]
      in if \<not> has_prefix path (Clean root @ ''/'') then Inl PathEscapesRoot
         else Inr path)"

text \<open>The bytes a read request is answered with.\<close>

definition readHandler :: "string \<Rightarrow> (string \<Rightarrow> string option) \<Rightarrow> string \<Rightarrow> tftp_error + string" where
  "readHandler root files filename =
     (case securePath root filename of
        Inl e \<Rightarrow> Inl e
      | Inr path \<Rightarrow> (case files path of None \<Rightarrow> Inl FileNotFound | Some content \<Rightarrow> Inr content))"

text \<open>The segments a request names once it is cleaned: nothing climbs out of them.\<close>

definition request_segs :: "string \<Rightarrow> string list" where
  "request_segs filename = clean_segs (''/'' @ replace_backslash filename)"

lemma request_segs_proper: "\<forall>s\<in>set (request_segs filename). proper_seg s"
  unfolding request_segs_def by (rule clean_segs_rooted) (simp add: is_rooted_def has_prefix_def)

lemma securePath_request:
  "securePath root filename =
     (let path = Join [root, ''/'' @ join_with ''/'' (request_segs filename)] in
      if \<not> has_prefix path (Clean root @ ''/'') then Inl PathEscapesRoot else Inr path)"
  unfolding securePath_def request_segs_def Clean_rooted_slash Let_def ..

lemma join_proper_hd:
  assumes "ss \<noteq> []" and "\<forall>s\<in>set ss. proper_seg s"
  shows "join_with ''/'' ss \<noteq> [] \<and> hd (join_with ''/'' ss) \<noteq> CHR ''/'' \<and> \<not> has_prefix (join_with ''/'' ss) ''./''"
proof (cases ss)
  case (Cons s r)
  with assms have s: "proper_seg s" by simp
  then obtain c t where c: "s = c # t" "c \<noteq> CHR ''/''" by (cases s) (auto simp: proper_seg_def)
  have "\<not> has_prefix (s @ x) ''./''" for x
    using s c by (cases t) (auto simp: has_prefix_def proper_seg_def split: if_splits)
  then have "\<not> has_prefix (join_with ''/'' ss) ''./''"
    using Cons by (cases r) (auto, metis append_Nil2)
  then show ?thesis using Cons c by (cases r) auto
qed (use assms in simp)

text \<open>
  The whole behaviour: a request is answered exactly when the root has a name of its own and
  the request names something below it, and the path is that file.
\<close>

lemma securePath_eq:
  assumes "root \<noteq> []"
  shows "securePath root filename =
    (if clean_segs root = [] \<or> request_segs filename = [] then Inl PathEscapesRoot
     else Inr (Clean root @ ''/'' @ join_with ''/'' (request_segs filename)))"
proof -
  define ss where "ss = request_segs filename"
  define rs where "rs = clean_segs root"
  define path where "path = Join [root, ''/'' @ join_with ''/'' ss]"
  have J: "path = (if is_rooted root then ''/'' @ join_with ''/'' (rs @ ss)
      else if rs @ ss = [] then ''.'' else join_with ''/'' (rs @ ss))"
    unfolding path_def ss_def rs_def Join_below [OF assms request_segs_proper] Let_def ..
  have C: "Clean root = (if is_rooted root then ''/'' @ join_with ''/'' rs
      else if rs = [] then ''.'' else join_with ''/'' rs)"
    unfolding Clean_def rs_def ..
  have S: "securePath root filename =
      (if \<not> has_prefix path (Clean root @ ''/'') then Inl PathEscapesRoot else Inr path)"
    unfolding securePath_request path_def ss_def Let_def ..
  consider (both) "rs \<noteq> []" "ss \<noteq> []" | (nofile) "ss = []" | (noroot) "rs = []" "ss \<noteq> []" by blast
  then have "securePath root filename =
    (if rs = [] \<or> ss = [] then Inl PathEscapesRoot else Inr (Clean root @ ''/'' @ join_with ''/'' ss))"
  proof cases
    case both
    then have path: "path = Clean root @ ''/'' @ join_with ''/'' ss"
      unfolding J C by (simp add: join_with_append)
    then have "has_prefix path (Clean root @ ''/'')"
      using has_prefix_append [of "Clean root @ ''/''"] by simp
    with both path show ?thesis by (simp add: S)
  next
    case nofile
    then have "path = Clean root" unfolding J C by simp
    then show ?thesis using nofile by (simp add: S has_prefix_def)
  next
    case noroot
    define f where "f = join_with ''/'' ss"
    have f: "f \<noteq> []" "hd f \<noteq> CHR ''/''" "\<not> has_prefix f ''./''"
      using join_proper_hd [OF noroot(2)] request_segs_proper [of filename]
      by (simp_all add: f_def ss_def)
    have "path = (if is_rooted root then ''/'' @ f else f)" using noroot by (simp add: J f_def)
    moreover have "Clean root = (if is_rooted root then ''/'' else ''.'')" using noroot by (simp add: C)
    ultimately have "\<not> has_prefix path (Clean root @ ''/'')"
      using f by (cases f) (auto simp: has_prefix_def split: if_splits)
    then show ?thesis using noroot by (simp add: S)
  qed
  then show ?thesis unfolding ss_def rs_def .
qed

section \<open>Properties\<close>

text \<open>C27: TFTP containment.  Whatever file name a client sends, a path that is opened is the cleaned
  root followed by at least one segment, and no segment is empty, a dot segment or contains a
  separator, so the file lies below the root; a request that names nothing below it is refused,
  and nothing is answered when the root itself has no name (\<open>.\<close> or \<open>/\<close>).\<close>

theorem tftp_contained:
  assumes "root \<noteq> []"
  shows "case securePath root filename of
      Inr path \<Rightarrow> \<exists>segs. segs \<noteq> [] \<and> list_all proper_seg segs \<and>
        clean_segs path = clean_segs root @ segs \<and> path = Clean root @ ''/'' @ join_with ''/'' segs
    | Inl _ \<Rightarrow> clean_segs root = [] \<or> request_segs filename = []"
proof (cases "clean_segs root = [] \<or> request_segs filename = []")
  case False
  have below: "clean_segs (Clean root @ ''/'' @ join_with ''/'' (request_segs filename)) =
      clean_segs root @ request_segs filename"
    using False by (intro clean_segs_below request_segs_proper) simp
  show ?thesis
    using False below request_segs_proper [of filename]
    by (simp add: securePath_eq [OF assms] list_all_iff)
qed (simp add: securePath_eq [OF assms])

theorem tftp_contained_witness:
  "case securePath ''/config/tftp'' ''../../etc/passwd'' of
      Inr path \<Rightarrow> \<exists>segs. segs \<noteq> [] \<and> list_all proper_seg segs \<and>
        clean_segs path = clean_segs ''/config/tftp'' @ segs \<and>
        path = Clean ''/config/tftp'' @ ''/'' @ join_with ''/'' segs
    | Inl _ \<Rightarrow> clean_segs ''/config/tftp'' = [] \<or> request_segs ''../../etc/passwd'' = []"
  by (rule tftp_contained) simp

end
