(* ===== verification/Netutil.thy ===== *)
theory Netutil
  imports Prelude
begin

text \<open>
  \<open>NormalizeMAC\<close> of \<open>backend/internal/netutil/mac.go\<close>, with the standard library it uses:
  \<open>strings.TrimSpace\<close> on UTF-8 bytes, \<open>net.ParseMAC\<close> and \<open>HardwareAddr.String\<close>.
\<close>

section \<open>strings.TrimSpace\<close>

text \<open>
  The UTF-8 encodings of the characters \<open>unicode.IsSpace\<close> accepts: the ASCII blanks,
  U+0085, U+00A0, U+1680, U+2000 to U+200A, U+2028, U+2029, U+202F, U+205F, U+3000.
\<close>

definition space_encodings :: "string list" where
  "space_encodings =
     map (\<lambda>n. [char_of n]) [9, 10, 11, 12, 13, 32 :: nat]
     @ map (map (char_of :: nat \<Rightarrow> char))
        ([[0xC2, 0x85], [0xC2, 0xA0], [0xE1, 0x9A, 0x80]]
         @ map (\<lambda>b. [0xE2, 0x80, b]) [0x80 ..< 0x8B]
         @ [[0xE2, 0x80, 0xA8], [0xE2, 0x80, 0xA9], [0xE2, 0x80, 0xAF], [0xE2, 0x81, 0x9F],
            [0xE3, 0x80, 0x80]])"

definition leading_space :: "string \<Rightarrow> nat" where
  "leading_space s = (case find (has_prefix s) space_encodings of None \<Rightarrow> 0 | Some w \<Rightarrow> length w)"

definition trailing_space :: "string \<Rightarrow> nat" where
  "trailing_space s = (case find (has_suffix s) space_encodings of None \<Rightarrow> 0 | Some w \<Rightarrow> length w)"

function trim_left :: "string \<Rightarrow> string" where
  "trim_left s = (if leading_space s = 0 \<or> s = [] then s else trim_left (drop (leading_space s) s))"
  by pat_completeness auto
termination by (relation "measure length") auto

function trim_right :: "string \<Rightarrow> string" where
  "trim_right s =
     (if trailing_space s = 0 \<or> s = [] then s
      else trim_right (take (length s - trailing_space s) s))"
  by pat_completeness auto
termination by (relation "measure length") auto

declare trim_left.simps [simp del] trim_right.simps [simp del]

definition TrimSpace :: "string \<Rightarrow> string" where
  "TrimSpace s = trim_right (trim_left s)"

section \<open>Case folding\<close>

text \<open>
  \<open>strings.EqualFold\<close>, exact when one side is ASCII: the only other characters that fold to
  ASCII letters are U+212A (k) and U+017F (s).
\<close>

fun fold_case :: "string \<Rightarrow> string" where
  "fold_case [] = []"
| "fold_case [c] = [lower_char c]"
| "fold_case [c, d] = (if c = CHR 0xC5 \<and> d = CHR 0xBF then ''s'' else lower_char c # fold_case [d])"
| "fold_case (c # d # e # s) =
     (if c = CHR 0xC5 \<and> d = CHR 0xBF then CHR ''s'' # fold_case (e # s)
      else if c = CHR 0xE2 \<and> d = CHR 0x84 \<and> e = CHR 0xAA then CHR ''k'' # fold_case s
      else lower_char c # fold_case (d # e # s))"

definition EqualFold :: "string \<Rightarrow> string \<Rightarrow> bool" where
  "EqualFold a b \<longleftrightarrow> fold_case a = fold_case b"

section \<open>net.ParseMAC\<close>

type_synonym HardwareAddr = "u8 list"

definition hex_val :: "char \<Rightarrow> nat option" where
  "hex_val c =
     (let n = of_char c :: nat in
      if 48 \<le> n \<and> n \<le> 57 then Some (n - 48)
      else if 97 \<le> n \<and> n \<le> 102 then Some (n - 87)
      else if 65 \<le> n \<and> n \<le> 70 then Some (n - 55)
      else None)"

text \<open>
  \<open>xtoi2(s, e)\<close>: exactly two hexadecimal digits of \<open>s\<close>, followed by the byte \<open>e\<close> when
  \<open>s\<close> is longer than two bytes; \<open>e = 0\<close> asks for no separator check.
\<close>

definition xtoi2 :: "string \<Rightarrow> char \<Rightarrow> u8 option" where
  "xtoi2 s e =
     (if length s > 2 \<and> s ! 2 \<noteq> e then None
      else case s of
             a # b # _ \<Rightarrow>
               (case (hex_val a, hex_val b) of
                  (Some x, Some y) \<Rightarrow> Some (of_nat (16 * x + y))
                | _ \<Rightarrow> None)
           | _ \<Rightarrow> None)"

text \<open>The colon and hyphen forms: \<open>n\<close> groups of two digits, read from offset \<open>x\<close>.\<close>

fun mac_pairs :: "nat \<Rightarrow> char \<Rightarrow> string \<Rightarrow> HardwareAddr option" where
  "mac_pairs 0 e s = Some []"
| "mac_pairs (Suc n) e s =
     (case xtoi2 s e of
        None \<Rightarrow> None
      | Some b \<Rightarrow> map_option ((#) b) (mac_pairs n e (drop 3 s)))"

text \<open>The dotted form: \<open>n\<close> groups of four digits.\<close>

fun mac_quads :: "nat \<Rightarrow> string \<Rightarrow> HardwareAddr option" where
  "mac_quads 0 s = Some []"
| "mac_quads (Suc n) s =
     (case (xtoi2 (take 2 s) (CHR 0x00), xtoi2 (drop 2 s) (CHR ''.'')) of
        (Some a, Some b) \<Rightarrow> map_option (\<lambda>r. a # b # r) (mac_quads n (drop 5 s))
      | _ \<Rightarrow> None)"

definition ParseMAC :: "string \<Rightarrow> HardwareAddr option" where
  "ParseMAC s =
     (if length s < 14 then None
      else if s ! 2 = CHR '':'' \<or> s ! 2 = CHR ''-'' then
        (if (length s + 1) mod 3 \<noteq> 0 then None
         else let n = (length s + 1) div 3 in
              if n \<noteq> 6 \<and> n \<noteq> 8 \<and> n \<noteq> 20 then None else mac_pairs n (s ! 2) s)
      else if s ! 4 = CHR ''.'' then
        (if (length s + 1) mod 5 \<noteq> 0 then None
         else let n = 2 * (length s + 1) div 5 in
              if n \<noteq> 6 \<and> n \<noteq> 8 \<and> n \<noteq> 20 then None else mac_quads (n div 2) s)
      else None)"

definition hex_digit :: "nat \<Rightarrow> char" where
  "hex_digit n = (if n < 10 then char_of (48 + n) else char_of (87 + n))"

definition hex_byte :: "u8 \<Rightarrow> string" where
  "hex_byte b = [hex_digit (unat b div 16), hex_digit (unat b mod 16)]"

fun HardwareAddr_String :: "HardwareAddr \<Rightarrow> string" where
  "HardwareAddr_String [] = []"
| "HardwareAddr_String [b] = hex_byte b"
| "HardwareAddr_String (b # bs) = hex_byte b @ '':'' @ HardwareAddr_String bs"

datatype mac_error = InvalidMAC string | UnsupportedLength nat

definition NormalizeMAC :: "string \<Rightarrow> mac_error + string" where
  "NormalizeMAC s =
     (case ParseMAC (TrimSpace s) of
        None \<Rightarrow> Inl (InvalidMAC s)
      | Some hw \<Rightarrow>
          if length hw \<noteq> 6 then Inl (UnsupportedLength (length hw * 8))
          else Inr (ToLower (HardwareAddr_String hw)))"

section \<open>Parsing what String prints\<close>

lemma of_char_hex_digit:
  "n < 16 \<Longrightarrow> of_char (hex_digit n) = (if n < 10 then 48 + n else 87 + n :: nat)"
  by (simp add: hex_digit_def)

lemma hex_val_hex_digit: "n < 16 \<Longrightarrow> hex_val (hex_digit n) = Some n"
  by (simp add: hex_val_def of_char_hex_digit)

lemma hex_digit_lower: "n < 16 \<Longrightarrow> lower_char (hex_digit n) = hex_digit n"
  by (simp add: lower_char_def of_char_hex_digit)

text \<open>The first and the last byte of a blank's encoding are outside the printable ASCII range.\<close>

definition blank_byte :: "char \<Rightarrow> bool" where
  "blank_byte c \<longleftrightarrow> of_char c \<le> (32 :: nat) \<or> of_char c \<ge> (128 :: nat)"

lemma space_encodings_bytes:
  "w \<in> set space_encodings \<Longrightarrow> w \<noteq> [] \<and> blank_byte (hd w) \<and> blank_byte (last w)"
  by (auto simp: space_encodings_def blank_byte_def)

lemma hex_digit_not_blank: "n < 16 \<Longrightarrow> \<not> blank_byte (hex_digit n)"
  by (simp add: blank_byte_def of_char_hex_digit)

lemma leading_space_none:
  assumes "\<not> blank_byte (hd s)"
  shows "leading_space s = 0"
proof -
  have "\<not> has_prefix s w" if "w \<in> set space_encodings" for w
    using assms space_encodings_bytes [OF that] by (auto simp: has_prefix_iff)
  then have "find (has_prefix s) space_encodings = None" by (auto simp: find_None_iff)
  then show ?thesis by (simp add: leading_space_def)
qed

lemma has_suffix_iff: "has_suffix s p \<longleftrightarrow> (\<exists>t. s = t @ p)"
  by (auto simp: has_suffix_def) (metis append_take_drop_id)

lemma trailing_space_none:
  assumes "\<not> blank_byte (last s)"
  shows "trailing_space s = 0"
proof -
  have "\<not> has_suffix s w" if "w \<in> set space_encodings" for w
    using assms space_encodings_bytes [OF that] by (auto simp: has_suffix_iff)
  then have "find (has_suffix s) space_encodings = None" by (auto simp: find_None_iff)
  then show ?thesis by (simp add: trailing_space_def)
qed

text \<open>Text that neither starts nor ends with a byte of a blank is left alone.\<close>

lemma TrimSpace_id:
  "\<not> blank_byte (hd s) \<Longrightarrow> \<not> blank_byte (last s) \<Longrightarrow> TrimSpace s = s"
  by (simp add: TrimSpace_def trim_left.simps [of s] trim_right.simps [of s]
      leading_space_none trailing_space_none)

lemma unat_u8_div: "unat (b :: u8) div 16 < 16"
proof -
  have "unat b < 2 ^ LENGTH(8)" by (rule unsigned_less)
  then show ?thesis by (simp add: less_mult_imp_div_less)
qed

lemma unat_u8_mod: "unat (b :: u8) mod 16 < 16"
  by simp

lemmas u8_nibbles = unat_u8_div unat_u8_mod

lemma xtoi2_hex_byte: "xtoi2 (hex_byte b) e = Some b"
  by (simp add: xtoi2_def hex_byte_def hex_val_hex_digit u8_nibbles)

lemma xtoi2_hex_byte_sep: "xtoi2 (hex_byte b @ e # r) e = Some b"
  by (simp add: xtoi2_def hex_byte_def hex_val_hex_digit u8_nibbles)

text \<open>
  The three notations of the doc comment for the same bytes: pairs joined by a separator, and
  the dotted form of four-digit groups.
\<close>

fun mac_pairs_text :: "char \<Rightarrow> HardwareAddr \<Rightarrow> string" where
  "mac_pairs_text e [] = []"
| "mac_pairs_text e [b] = hex_byte b"
| "mac_pairs_text e (b # bs) = hex_byte b @ e # mac_pairs_text e bs"

fun mac_quads_text :: "HardwareAddr \<Rightarrow> string" where
  "mac_quads_text (a # b # []) = hex_byte a @ hex_byte b"
| "mac_quads_text (a # b # bs) = hex_byte a @ hex_byte b @ ''.'' @ mac_quads_text bs"
| "mac_quads_text _ = []"

lemma String_pairs: "HardwareAddr_String hw = mac_pairs_text (CHR '':'') hw"
  by (induction hw rule: HardwareAddr_String.induct) simp_all

lemma length_pairs_text: "hw \<noteq> [] \<Longrightarrow> length (mac_pairs_text e hw) = 3 * length hw - 1"
  by (induction e hw rule: mac_pairs_text.induct) (simp_all add: hex_byte_def)

lemma mac_pairs_text: "mac_pairs (length hw) e (mac_pairs_text e hw) = Some hw"
proof (induction e hw rule: mac_pairs_text.induct)
  case (3 e b c bs)
  have "drop 3 (mac_pairs_text e (b # c # bs)) = mac_pairs_text e (c # bs)"
    by (simp add: hex_byte_def)
  with 3 show ?case by (simp add: xtoi2_hex_byte_sep)
qed (simp_all add: xtoi2_hex_byte)

lemma six_bytes:
  assumes "length (hw :: HardwareAddr) = 6"
  obtains a b c d e f where "hw = [a, b, c, d, e, f]"
  using assms by (auto simp: eval_nat_numeral length_Suc_conv)

lemma ParseMAC_pairs:
  assumes "length hw = 6" and "e = CHR '':'' \<or> e = CHR ''-''"
  shows "ParseMAC (mac_pairs_text e hw) = Some hw"
proof -
  have sep: "mac_pairs_text e hw ! 2 = e"
    using assms(1) by (rule six_bytes) (simp add: hex_byte_def)
  have len: "length (mac_pairs_text e hw) = 17"
    using assms(1) by (subst length_pairs_text) auto
  show ?thesis
    using assms mac_pairs_text [of hw e] len sep by (auto simp: ParseMAC_def Let_def)
qed

lemma hex_digit_not_sep: "n < 16 \<Longrightarrow> hex_digit n \<noteq> CHR '':'' \<and> hex_digit n \<noteq> CHR ''-''"
proof -
  assume "n < 16"
  moreover have "of_char CHR '':'' = (58 :: nat)" and "of_char CHR ''-'' = (45 :: nat)" by simp_all
  ultimately show ?thesis
    using of_char_hex_digit [of n] by (auto split: if_splits)
qed

lemma xtoi2_two: "x < 16 \<Longrightarrow> y < 16 \<Longrightarrow> xtoi2 [hex_digit x, hex_digit y] e = Some (of_nat (16 * x + y))"
  by (simp add: xtoi2_def hex_val_hex_digit)

lemma mac_quads_text: "length hw = 2 * n \<Longrightarrow> mac_quads n (mac_quads_text hw) = Some hw"
proof (induction hw arbitrary: n rule: mac_quads_text.induct)
  case (1 a b)
  then have "n = 1" by simp
  then show ?case
    using xtoi2_hex_byte [of a] xtoi2_hex_byte [of b] by (simp add: hex_byte_def)
next
  case (2 a b c bs)
  then obtain k where n: "n = Suc k" by (cases n) auto
  have d: "drop 5 (mac_quads_text (a # b # c # bs)) = mac_quads_text (c # bs)"
    by (simp add: hex_byte_def)
  have t: "take 2 (mac_quads_text (a # b # c # bs)) = hex_byte a"
    by (simp add: hex_byte_def)
  have r: "drop 2 (mac_quads_text (a # b # c # bs)) = hex_byte b @ CHR ''.'' # mac_quads_text (c # bs)"
    by (simp add: hex_byte_def)
  from 2 n have "mac_quads k (mac_quads_text (c # bs)) = Some (c # bs)" by simp
  then show ?case unfolding n mac_quads.simps t r d
    by (simp add: xtoi2_hex_byte xtoi2_hex_byte_sep)
qed auto

lemma ParseMAC_quads:
  assumes "length hw = 6"
  shows "ParseMAC (mac_quads_text hw) = Some hw"
proof -
  have q: "mac_quads 3 (mac_quads_text hw) = Some hw" by (rule mac_quads_text) (simp add: assms)
  obtain a b c d e f where hw: "hw = [a, b, c, d, e, f]" using assms by (rule six_bytes)
  have sep: "length (mac_quads_text hw) = 14" "mac_quads_text hw ! 4 = CHR ''.''"
    "mac_quads_text hw ! 2 = hex_digit (unat b div 16)"
    by (simp_all add: hw hex_byte_def)
  show ?thesis
    using q sep hex_digit_not_sep [OF unat_u8_div [of b]] by (simp add: ParseMAC_def)
qed

section \<open>NormalizeMAC\<close>

lemma map_lower_String: "map lower_char (HardwareAddr_String hw) = HardwareAddr_String hw"
  by (induction hw rule: HardwareAddr_String.induct)
     (simp_all add: hex_byte_def hex_digit_lower u8_nibbles, simp add: lower_char_def)

lemma hex_digit_ascii: "n < 16 \<Longrightarrow> of_char (hex_digit n) < (128 :: nat)"
  by (simp add: of_char_hex_digit)

lemma String_ascii: "c \<in> set (HardwareAddr_String hw) \<Longrightarrow> of_char c < (128 :: nat)"
  by (induction hw rule: HardwareAddr_String.induct)
     (auto simp: hex_byte_def hex_digit_ascii u8_nibbles)

lemma String_lower: "ToLower (HardwareAddr_String hw) = HardwareAddr_String hw"
  using ToLower_ascii [of "HardwareAddr_String hw"] String_ascii map_lower_String by auto

lemma NormalizeMAC_iff:
  "NormalizeMAC s = Inr t \<longleftrightarrow>
     (\<exists>hw. ParseMAC (TrimSpace s) = Some hw \<and> length hw = 6 \<and> t = HardwareAddr_String hw)"
  by (auto simp: NormalizeMAC_def String_lower split: option.splits)

lemma String_trimmed: "length hw = 6 \<Longrightarrow> TrimSpace (HardwareAddr_String hw) = HardwareAddr_String hw"
  by (erule six_bytes)
     (rule TrimSpace_id, simp_all add: hex_byte_def hex_digit_not_blank u8_nibbles)

lemma pairs_trimmed: "length hw = 6 \<Longrightarrow> TrimSpace (mac_pairs_text e hw) = mac_pairs_text e hw"
  by (erule six_bytes)
     (rule TrimSpace_id, simp_all add: hex_byte_def hex_digit_not_blank u8_nibbles)

lemma quads_trimmed: "length hw = 6 \<Longrightarrow> TrimSpace (mac_quads_text hw) = mac_quads_text hw"
  by (erule six_bytes)
     (rule TrimSpace_id, simp_all add: hex_byte_def hex_digit_not_blank u8_nibbles)

lemma NormalizeMAC_String: "length hw = 6 \<Longrightarrow> NormalizeMAC (HardwareAddr_String hw) = Inr (HardwareAddr_String hw)"
  unfolding NormalizeMAC_iff
  using ParseMAC_pairs [of hw "CHR '':''"] String_trimmed [of hw] by (auto simp: String_pairs)

lemma NormalizeMAC_length: "NormalizeMAC s = Inr t \<Longrightarrow> length t = 17"
  unfolding NormalizeMAC_iff
  using length_pairs_text by (auto simp: String_pairs) (subst length_pairs_text, auto)

section \<open>Letter case\<close>

lemma of_char_ToLower:
  "of_char (lower_char c) =
     (if 65 \<le> (of_char c :: nat) \<and> of_char c \<le> (90 :: nat) then of_char c + 32 else of_char c :: nat)"
  by (simp add: lower_char_def Let_def)

lemma hex_val_ToLower [simp]: "hex_val (lower_char c) = hex_val c"
  unfolding hex_val_def of_char_ToLower by (auto simp: Let_def)

definition caseless :: "char \<Rightarrow> bool" where
  "caseless e \<longleftrightarrow> (\<forall>c. lower_char c = e \<longleftrightarrow> c = e)"

lemma caselessI:
  assumes "of_char e < (65 :: nat) \<or> (90 :: nat) < of_char e \<and> of_char e < (97 :: nat) \<or> (122 :: nat) < of_char e"
  shows "caseless e"
proof -
  have "lower_char c = e \<longleftrightarrow> c = e" for c
  proof -
    have "lower_char c = e \<longleftrightarrow> of_char (lower_char c) = (of_char e :: nat)" by simp
    also have "\<dots> \<longleftrightarrow> of_char c = (of_char e :: nat)"
      using assms unfolding of_char_ToLower by auto
    finally show ?thesis by simp
  qed
  then show ?thesis by (simp add: caseless_def)
qed

lemma caseless_seps [simp]: "caseless CHR '':''" "caseless CHR ''-''" "caseless CHR ''.''" "caseless CHR 0x00"
  by (simp_all add: caselessI)

lemma blank_byte_caseless: "blank_byte e \<Longrightarrow> caseless e"
  by (auto simp: blank_byte_def intro!: caselessI)

lemma caseless_eq: "caseless e \<Longrightarrow> lower_char c = e \<longleftrightarrow> c = e"
  by (simp add: caseless_def)

lemma xtoi2_lower:
  assumes "caseless e"
  shows "xtoi2 (map lower_char s) e = xtoi2 s e"
proof -
  have "length s > 2 \<and> map lower_char s ! 2 \<noteq> e \<longleftrightarrow> length s > 2 \<and> s ! 2 \<noteq> e"
    by (cases "2 < length s") (simp_all add: caseless_eq [OF assms])
  then show ?thesis
    by (cases s; cases "tl s") (simp_all add: xtoi2_def cong: option.case_cong)
qed

lemma mac_pairs_lower: "caseless e \<Longrightarrow> mac_pairs n e (map lower_char s) = mac_pairs n e s"
  by (induction n arbitrary: s) (simp_all add: xtoi2_lower drop_map cong: option.case_cong)

lemma mac_quads_lower: "mac_quads n (map lower_char s) = mac_quads n s"
  by (induction n arbitrary: s) (simp_all add: xtoi2_lower drop_map take_map cong: option.case_cong)

lemma ParseMAC_lower: "ParseMAC (map lower_char s) = ParseMAC s"
proof (cases "length s < 14")
  case True
  then show ?thesis by (simp add: ParseMAC_def)
next
  case False
  then have nth: "map lower_char s ! 2 = lower_char (s ! 2)" "map lower_char s ! 4 = lower_char (s ! 4)"
    by simp_all
  have colon: "lower_char c = e \<longleftrightarrow> c = e" if "e = CHR '':'' \<or> e = CHR ''-'' \<or> e = CHR ''.''" for c e
    using that caseless_eq caseless_seps by metis
  show ?thesis
  proof (cases "s ! 2 = CHR '':'' \<or> s ! 2 = CHR ''-''")
    case True
    then have "lower_char (s ! 2) = s ! 2" and "caseless (s ! 2)"
      using colon caseless_seps by metis+
    then show ?thesis
      using True unfolding ParseMAC_def nth by (simp add: mac_pairs_lower Let_def)
  next
    case False
    then show ?thesis
      unfolding ParseMAC_def nth by (simp add: colon mac_quads_lower Let_def)
  qed
qed

lemma blank_byte_lower: "blank_byte (lower_char c) \<longleftrightarrow> blank_byte c"
  unfolding blank_byte_def of_char_ToLower by auto

text \<open>Text that lower-cases to a trimmed text is itself trimmed.\<close>

lemma TrimSpace_case:
  assumes "s \<noteq> []" and "\<not> blank_byte (hd (map lower_char s))"
    and "\<not> blank_byte (last (map lower_char s))"
  shows "TrimSpace s = s"
  using assms by (intro TrimSpace_id) (simp_all add: hd_map last_map blank_byte_lower)

lemma NormalizeMAC_any_case:
  assumes len: "length hw = 6" and t: "map lower_char s = t"
    and form: "t = mac_pairs_text CHR '':'' hw \<or> t = mac_pairs_text CHR ''-'' hw \<or> t = mac_quads_text hw"
  shows "NormalizeMAC s = Inr (HardwareAddr_String hw)"
proof -
  have ends: "t \<noteq> [] \<and> \<not> blank_byte (hd t) \<and> \<not> blank_byte (last t)"
    using len
  proof (rule six_bytes)
    fix a b c d e f assume "hw = [a, b, c, d, e, f]"
    then show ?thesis using form by (elim disjE) (simp_all add: hex_byte_def hex_digit_not_blank u8_nibbles)
  qed
  then have "TrimSpace s = s" using TrimSpace_case [of s] t by auto
  moreover have "ParseMAC s = Some hw"
    using ParseMAC_lower [of s] t form ParseMAC_pairs [OF len] ParseMAC_quads [OF len] by metis
  ultimately show ?thesis using len unfolding NormalizeMAC_iff by simp
qed

section \<open>Properties\<close>

text \<open>C40: MAC normalisation.  A MAC of six bytes written with colons, dashes or in Cisco dotted
  quads, in any mix of letter case, normalises to the one canonical text of its bytes: lower case
  hexadecimal pairs between colons, 17 characters.  Normalisation is idempotent.\<close>

theorem NormalizeMAC_canonical:
  assumes "length hw = 6"
    and "map lower_char s \<in> {mac_pairs_text CHR '':'' hw, mac_pairs_text CHR ''-'' hw, mac_quads_text hw}"
  shows "NormalizeMAC s = Inr (HardwareAddr_String hw) \<and>
    NormalizeMAC (HardwareAddr_String hw) = Inr (HardwareAddr_String hw) \<and>
    length (HardwareAddr_String hw) = 17"
  using NormalizeMAC_any_case [OF assms(1) refl, of s] assms NormalizeMAC_String [OF assms(1)]
    NormalizeMAC_length [OF NormalizeMAC_String [OF assms(1)]]
  by auto

theorem NormalizeMAC_canonical_witness:
  "NormalizeMAC ''AABB.CC0d.0102'' = Inr ''aa:bb:cc:0d:01:02''"
  using NormalizeMAC_canonical [of "[0xAA, 0xBB, 0xCC, 0x0D, 1, 2]" "''AABB.CC0d.0102''"]
  by (simp add: hex_byte_def hex_digit_def lower_char_def String_pairs char_of_def bit_Suc bit_0)

end
