(* ===== verification/Logging.thy ===== *)
theory Logging
  imports Prelude
begin

text \<open>
  The log ring behind the UI's log viewer: \<open>backend/internal/logging/ring.go\<close> and the level
  names of \<open>logging.go\<close>.  The abstract view of a ring is \<open>recent\<close>, the list of its entries
  from the newest to the oldest; the locale \<open>log_buffer\<close> is the contract of a bounded log.
  Records reach the ring through the \<open>slog\<close> handler; \<open>Logger\<close> adds its base handler.
\<close>

section \<open>Levels\<close>

type_synonym Level = int

abbreviation LevelDebug :: Level where "LevelDebug \<equiv> - 4"
abbreviation LevelInfo :: Level where "LevelInfo \<equiv> 0"
abbreviation LevelWarn :: Level where "LevelWarn \<equiv> 4"
abbreviation LevelError :: Level where "LevelError \<equiv> 8"

definition parseLevel :: "string \<Rightarrow> Level" where
  "parseLevel s =
     (if ToLower s = ''debug'' then LevelDebug
      else if ToLower s = ''warn'' \<or> ToLower s = ''warning'' then LevelWarn
      else if ToLower s = ''error'' then LevelError
      else LevelInfo)"

text \<open>\<open>slog.Level.String\<close>: the name of the level below, with the offset when there is one.\<close>

definition level_name :: "string \<Rightarrow> int \<Rightarrow> string" where
  "level_name base d = (if d = 0 then base else base @ (if d < 0 then [] else ''+'') @ int_str d)"

definition Level_String :: "Level \<Rightarrow> string" where
  "Level_String l =
     (if l < LevelInfo then level_name ''DEBUG'' (l - LevelDebug)
      else if l < LevelWarn then level_name ''INFO'' (l - LevelInfo)
      else if l < LevelError then level_name ''WARN'' (l - LevelWarn)
      else level_name ''ERROR'' (l - LevelError))"

section \<open>The ring\<close>

record Entry =
  enTime :: instant
  enLevel :: string
  enMessage :: string
  enAttrs :: "string \<rightharpoonup> string"

definition zero_entry :: Entry where
  "zero_entry = \<lparr>enTime = 0, enLevel = '''', enMessage = '''', enAttrs = Map.empty\<rparr>"

record Ring =
  rgEntries :: "Entry list"
  rgNext :: nat
  rgFull :: bool

definition NewRing :: "int \<Rightarrow> Ring" where
  "NewRing n =
     (let n' = (if n < 1 then 1 else n) in
      \<lparr>rgEntries = replicate (nat n') zero_entry, rgNext = 0, rgFull = False\<rparr>)"

definition ring_append :: "Entry \<Rightarrow> Ring \<Rightarrow> Ring" where
  "ring_append e r =
     (let es = (rgEntries r)[rgNext r := e];
          nxt = (rgNext r + 1) mod length (rgEntries r)
      in r\<lparr>rgEntries := es, rgNext := nxt, rgFull := (if nxt = 0 then True else rgFull r)\<rparr>)"

definition ring_count :: "Ring \<Rightarrow> nat" where
  "ring_count r = (if rgFull r then length (rgEntries r) else rgNext r)"

text \<open>The slot of the \<open>i\<close>-th newest entry; \<open>next - 1 - i + len\<close> is never negative there.\<close>

definition ring_slot :: "Ring \<Rightarrow> nat \<Rightarrow> nat" where
  "ring_slot r i = nat ((int (rgNext r) - 1 - int i + int (length (rgEntries r)))
                        mod int (length (rgEntries r)))"

text \<open>The loop of \<open>Entries\<close>, with \<open>k\<close> iterations left.\<close>

fun entries_loop :: "Ring \<Rightarrow> Level \<Rightarrow> int \<Rightarrow> nat \<Rightarrow> nat \<Rightarrow> Entry list \<Rightarrow> Entry list" where
  "entries_loop r minLevel limit 0 i out = out"
| "entries_loop r minLevel limit (Suc k) i out =
     (let e = rgEntries r ! ring_slot r i in
      if parseLevel (enLevel e) < minLevel then entries_loop r minLevel limit k (i + 1) out
      else let out' = out @ [e] in
           if limit > 0 \<and> int (length out') \<ge> limit then out'
           else entries_loop r minLevel limit k (i + 1) out')"

definition Entries :: "Ring \<Rightarrow> Level \<Rightarrow> int \<Rightarrow> Entry list" where
  "Entries r minLevel limit = entries_loop r minLevel limit (ring_count r) 0 []"

section \<open>The slog handler\<close>

text \<open>
  A record's attributes as \<open>rec.Attrs\<close> yields them, already printed; later keys win over
  the handler's own attributes.
\<close>

record ringHandler =
  rhRing :: Ring
  rhAttrs :: "(string \<times> string) list"

record log_record =
  lrTime :: instant
  lrLevel :: Level
  lrMessage :: string
  lrAttrs :: "(string \<times> string) list"

definition Handle :: "ringHandler \<Rightarrow> log_record \<Rightarrow> ringHandler" where
  "Handle h rec =
     (let attrs = foldl (\<lambda>m (k, v). m(k \<mapsto> v)) (foldl (\<lambda>m (k, v). m(k \<mapsto> v)) Map.empty (rhAttrs h))
                    (lrAttrs rec)
      in h\<lparr>rhRing := ring_append
             \<lparr>enTime = lrTime rec, enLevel = Level_String (lrLevel rec),
              enMessage = lrMessage rec, enAttrs = attrs\<rparr> (rhRing h)\<rparr>)"

definition WithAttrs :: "ringHandler \<Rightarrow> (string \<times> string) list \<Rightarrow> ringHandler" where
  "WithAttrs h attrs = h\<lparr>rhAttrs := rhAttrs h @ attrs\<rparr>"

section \<open>The contract of a bounded log\<close>

locale log_buffer =
  fixes push :: "'e \<Rightarrow> 'b \<Rightarrow> 'b"
    and view :: "'b \<Rightarrow> 'e list"
    and cap :: "'b \<Rightarrow> nat"
    and inv :: "'b \<Rightarrow> bool"
  assumes push_inv: "inv b \<Longrightarrow> inv (push e b)"
    and push_cap: "inv b \<Longrightarrow> cap (push e b) = cap b"
    and push_view: "inv b \<Longrightarrow> view (push e b) = take (cap b) (e # view b)"
begin

lemma fold_push:
  "inv b \<Longrightarrow> length (view b) \<le> cap b \<Longrightarrow>
     inv (fold push es b) \<and> cap (fold push es b) = cap b \<and>
     view (fold push es b) = take (cap b) (rev es @ view b)"
proof (induction es arbitrary: b)
  case Nil
  then show ?case by simp
next
  case (Cons e es)
  have "length (view (push e b)) \<le> cap (push e b)"
    using Cons.prems by (simp add: push_view push_cap)
  with Cons.IH [OF push_inv [OF Cons.prems(1)]] Cons.prems
  have *: "inv (fold push es (push e b)) \<and> cap (fold push es (push e b)) = cap b \<and>
    view (fold push es (push e b)) = take (cap b) (rev es @ take (cap b) (e # view b))"
    by (simp add: push_view push_cap)
  have "take (cap b) (rev es @ take (cap b) (e # view b)) = take (cap b) (rev es @ e # view b)"
    by (simp add: min_def)
  with * show ?case by simp
qed

text \<open>The newest entries survive: the view is a prefix of everything ever pushed, newest first.\<close>

lemma fold_push_empty:
  "inv b \<Longrightarrow> view b = [] \<Longrightarrow> view (fold push es b) = take (cap b) (rev es)"
  using fold_push [of b es] by simp

end

section \<open>The ring is a bounded log\<close>

definition ring_inv :: "Ring \<Rightarrow> bool" where
  "ring_inv r \<longleftrightarrow> rgNext r < length (rgEntries r)"

definition recent :: "Ring \<Rightarrow> Entry list" where
  "recent r = (if rgFull r then rev (drop (rgNext r) (rgEntries r) @ take (rgNext r) (rgEntries r))
               else rev (take (rgNext r) (rgEntries r)))"

definition ring_cap :: "Ring \<Rightarrow> nat" where
  "ring_cap r = length (rgEntries r)"

lemma NewRing_facts: "ring_inv (NewRing n)" "recent (NewRing n) = []" "ring_cap (NewRing n) = nat (max 1 n)"
  by (simp_all add: NewRing_def ring_inv_def recent_def ring_cap_def Let_def)

lemma ring_append_inv: "ring_inv r \<Longrightarrow> ring_inv (ring_append e r)"
  by (auto simp: ring_inv_def ring_append_def Let_def intro!: mod_less_divisor)

lemma ring_append_cap: "ring_cap (ring_append e r) = ring_cap r"
  by (simp add: ring_cap_def ring_append_def Let_def)

lemma take_exact: "length xs = k \<Longrightarrow> take k (xs @ ys) = xs"
  by simp

lemma ring_append_recent:
  assumes "ring_inv r"
  shows "recent (ring_append e r) = take (ring_cap r) (e # recent r)"
proof -
  define n es where "n = rgNext r" and "es = rgEntries r"
  have n: "n < length es" using assms by (simp add: ring_inv_def n_def es_def)
  show ?thesis
  proof (cases "Suc n = length es")
    case True
    then have "take (Suc n) (es[n := e]) = es[n := e]" by simp
    then have up: "es[n := e] = take n es @ [e]"
      using n by (metis take_Suc_conv_app_nth length_list_update nth_list_update_eq take_update_cancel order_refl)
    have d: "drop n es = [es ! n]" using True n by (metis Cons_nth_drop_Suc drop_all order_refl)
    have "take (length es) ((e # rev (take n es)) @ [es ! n]) = e # rev (take n es)"
      by (rule take_exact) (use True in simp)
    moreover have "take (length es) (e # rev (take n es)) = e # rev (take n es)" using n by simp
    ultimately show ?thesis
      using True n up d
      by (simp add: recent_def ring_append_def ring_cap_def Let_def flip: n_def es_def)
  next
    case False
    with n have sn: "Suc n < length es" by simp
    have t: "take (Suc n) (es[n := e]) = take n es @ [e]"
      using n by (simp add: take_Suc_conv_app_nth)
    have d: "drop (Suc n) (es[n := e]) = drop (Suc n) es" by simp
    have dn: "drop n es = es ! n # drop (Suc n) es" using n by (simp add: Cons_nth_drop_Suc)
    have "take (length es) ((e # rev (take n es) @ rev (drop (Suc n) es)) @ [es ! n])
          = e # rev (take n es) @ rev (drop (Suc n) es)"
      by (rule take_exact) (use sn in simp)
    moreover have "take (length es) (e # rev (take n es)) = e # rev (take n es)" using n by simp
    ultimately show ?thesis
      using sn t d dn
      by (simp add: recent_def ring_append_def ring_cap_def Let_def flip: n_def es_def)
  qed
qed

interpretation ring: log_buffer ring_append recent ring_cap ring_inv
  by unfold_locales (simp_all add: ring_append_inv ring_append_cap ring_append_recent)

section \<open>Entries reads the view\<close>

lemma length_recent: "ring_inv r \<Longrightarrow> length (recent r) = ring_count r"
  by (simp add: recent_def ring_count_def ring_inv_def)

lemma ring_slot_eq:
  assumes "ring_inv r" and "i < ring_count r"
  shows "ring_slot r i = (if i < rgNext r then rgNext r - Suc i
                          else rgNext r + length (rgEntries r) - Suc i)"
proof -
  define n L where "n = rgNext r" and "L = length (rgEntries r)"
  have n: "n < L" and i: "i < L"
    using assms by (auto simp: ring_inv_def ring_count_def n_def L_def split: if_splits)
  have "(int n - 1 - int i + int L) mod int L = (if i < n then int (n - Suc i) else int (n + L - Suc i))"
  proof (cases "i < n")
    case True
    then have "int n - 1 - int i + int L = int (n - Suc i) + int L" by simp
    then have "(int n - 1 - int i + int L) mod int L = int (n - Suc i) mod int L" by simp
    also have "\<dots> = int (n - Suc i)" using n by (intro mod_pos_pos_trivial) auto
    finally show ?thesis using True by simp
  next
    case False
    then have "int n - 1 - int i + int L = int (n + L - Suc i)" using i by simp
    moreover have "int (n + L - Suc i) mod int L = int (n + L - Suc i)"
      using False i n by (intro mod_pos_pos_trivial) auto
    ultimately show ?thesis using False by simp
  qed
  then have "ring_slot r i = nat (if i < n then int (n - Suc i) else int (n + L - Suc i))"
    by (simp only: ring_slot_def n_def L_def)
  also have "\<dots> = (if i < n then n - Suc i else n + L - Suc i)"
    by (simp only: nat_int split: if_split) simp
  finally show ?thesis by (simp only: n_def L_def)
qed

lemma ring_slot_recent:
  assumes inv: "ring_inv r" and i: "i < ring_count r"
  shows "rgEntries r ! ring_slot r i = recent r ! i"
proof -
  define n es where "n = rgNext r" and "es = rgEntries r"
  have n: "n < length es" using inv by (simp add: ring_inv_def n_def es_def)
  have "recent r ! i = es ! (if i < n then n - Suc i else n + length es - Suc i)"
  proof (cases "rgFull r")
    case False
    then show ?thesis using i n by (simp add: recent_def ring_count_def rev_nth flip: n_def es_def)
  next
    case True
    let ?xs = "drop n es @ take n es"
    have i': "i < length es" using True i by (simp add: ring_count_def es_def)
    have "recent r = rev ?xs" by (simp only: recent_def True if_True n_def es_def)
    with i' n have "recent r ! i = ?xs ! (length es - Suc i)" by (subst \<open>recent r = rev ?xs\<close>, subst rev_nth) auto
    also have "\<dots> = es ! (if i < n then n - Suc i else n + length es - Suc i)"
      using i' n by (auto simp: nth_append intro!: arg_cong [of _ _ "(!) es"])
    finally show ?thesis .
  qed
  then show ?thesis using ring_slot_eq [OF inv i] by (simp flip: n_def es_def)
qed

definition at_level :: "Level \<Rightarrow> Entry \<Rightarrow> bool" where
  "at_level minLevel e \<longleftrightarrow> \<not> parseLevel (enLevel e) < minLevel"

definition capped :: "int \<Rightarrow> 'a list \<Rightarrow> 'a list" where
  "capped limit xs = (if limit > 0 then take (nat limit) xs else xs)"

lemma entries_loop_eq:
  assumes inv: "ring_inv r"
  shows "i + k = ring_count r \<Longrightarrow> (limit > 0 \<longrightarrow> int (length out) < limit) \<Longrightarrow>
    entries_loop r minLevel limit k i out =
      capped limit (out @ filter (at_level minLevel) (drop i (recent r)))"
proof (induction k arbitrary: i out)
  case 0
  then have "drop i (recent r) = []" using length_recent [OF inv] by simp
  then show ?case using 0 by (auto simp: capped_def intro!: take_all [symmetric])
next
  case (Suc k)
  have i: "i < ring_count r" using Suc.prems(1) by simp
  have d: "drop i (recent r) = recent r ! i # drop (Suc i) (recent r)"
    using i length_recent [OF inv] by (simp add: Cons_nth_drop_Suc)
  note slot = ring_slot_recent [OF inv i]
  show ?case
  proof (cases "at_level minLevel (recent r ! i)")
    case False
    then show ?thesis
      using Suc.IH [of "Suc i" out] Suc.prems by (simp add: slot d at_level_def)
  next
    case True
    show ?thesis
    proof (cases "limit > 0 \<and> int (length (out @ [recent r ! i])) \<ge> limit")
      case stop: True
      then have "nat limit = Suc (length out)" using Suc.prems(2) by auto
      then show ?thesis using True stop by (simp add: slot d at_level_def capped_def)
    next
      case go: False
      then have "limit > 0 \<longrightarrow> int (length (out @ [recent r ! i])) < limit" by auto
      from Suc.IH [of "Suc i" "out @ [recent r ! i]", OF _ this] Suc.prems True go
      show ?thesis by (auto simp: slot d at_level_def Let_def)
    qed
  qed
qed

lemma Entries_eq:
  "ring_inv r \<Longrightarrow> Entries r minLevel limit = capped limit (filter (at_level minLevel) (recent r))"
  by (simp add: Entries_def entries_loop_eq)

lemma parseLevel_String:
  "parseLevel (Level_String LevelDebug) = LevelDebug"
  "parseLevel (Level_String LevelInfo) = LevelInfo"
  "parseLevel (Level_String LevelWarn) = LevelWarn"
  "parseLevel (Level_String LevelError) = LevelError"
  by (simp_all add: parseLevel_def Level_String_def level_name_def lower_char_def char_of_eq_iff)

section \<open>Properties\<close>

text \<open>The log ring.  After any number of records, reading the ring gives the newest entries
  first: exactly the last ones up to the capacity (at least one), those below the level left out,
  cut at the limit when there is one.\<close>

theorem ring_reads_newest:
  "Entries (fold ring_append es (NewRing n)) minLevel limit =
     (let kept = filter (\<lambda>e. minLevel \<le> parseLevel (enLevel e)) (take (nat (max 1 n)) (rev es))
      in if limit > 0 then take (nat limit) kept else kept)"
proof -
  have "ring_inv (fold ring_append es (NewRing n))"
    using ring.fold_push [of "NewRing n" es] by (simp add: NewRing_facts)
  moreover have "recent (fold ring_append es (NewRing n)) = take (nat (max 1 n)) (rev es)"
    using ring.fold_push_empty [of "NewRing n" es] by (simp add: NewRing_facts)
  moreover have "at_level minLevel = (\<lambda>e. minLevel \<le> parseLevel (enLevel e))"
    by (simp add: at_level_def fun_eq_iff not_less)
  ultimately show ?thesis by (simp add: Entries_eq capped_def Let_def)
qed

end
