(* ===== verification/Supervisor.thy ===== *)
theory Supervisor
  imports Prelude
begin

text \<open>
  The in-process supervisor of \<open>backend/internal/service/manager.go\<close>.  A \<open>Service\<close> is an
  interface; what one turn of the supervision loop sees of it and of the context is an
  \<open>attempt\<close>, and a supervised life is a list of attempts.  Services run as independent
  goroutines, so \<open>Run\<close> is the supervision of each of them.
\<close>

abbreviation initialBackoff :: duration where "initialBackoff \<equiv> second"
abbreviation maxBackoff :: duration where "maxBackoff \<equiv> 30 * second"

text \<open>\<open>Run\<close>'s error: \<open>nil\<close>, one that \<open>Is\<close> \<open>context.Canceled\<close>, or any other.\<close>

datatype run_error = RunNil | RunCanceled | RunFailed

record attempt =
  atError :: run_error
  atCtxErr :: bool       \<comment> \<open>\<open>ctx.Err() != nil\<close> when \<open>Run\<close> returned\<close>
  atElapsed :: duration  \<comment> \<open>\<open>time.Since(start)\<close>\<close>
  atCtxDone :: bool      \<comment> \<open>the \<open>select\<close> took \<open>ctx.Done()\<close> instead of the timer\<close>

text \<open>\<open>Supervising\<close>: the list of attempts ended while the loop goes on.\<close>

datatype service_end = ServiceStopped | ServiceExited | Supervising

text \<open>A long healthy run resets the backoff.\<close>

definition reset_backoff :: "duration \<Rightarrow> duration \<Rightarrow> duration" where
  "reset_backoff elapsed backoff = (if elapsed > minute then initialBackoff else backoff)"

text \<open>The waits before each restart, and how the loop ended.\<close>

fun supervise_loop :: "duration \<Rightarrow> attempt list \<Rightarrow> duration list \<times> service_end" where
  "supervise_loop backoff [] = ([], Supervising)"
| "supervise_loop backoff (a # as) =
     (if atCtxErr a then ([], ServiceStopped)
      else if atError a = RunNil \<or> atError a = RunCanceled then ([], ServiceExited)
      else
        let b = reset_backoff (atElapsed a) backoff in
        if atCtxDone a then ([b], ServiceStopped)
        else case supervise_loop (min (b * 2) maxBackoff) as of
               (waits, out) \<Rightarrow> (b # waits, out))"

definition supervise :: "attempt list \<Rightarrow> duration list \<times> service_end" where
  "supervise as = supervise_loop initialBackoff as"

text \<open>\<open>Manager.Run\<close> returns once every service's loop has ended.\<close>

definition Manager_Run :: "attempt list list \<Rightarrow> (duration list \<times> service_end) list \<times> bool" where
  "Manager_Run lives =
     (let rs = map supervise lives in (rs, \<forall>r\<in>set rs. snd r \<noteq> Supervising))"

text \<open>A crash: the service failed and the context is alive before and during the wait.\<close>

definition crash :: "attempt \<Rightarrow> bool" where
  "crash a \<longleftrightarrow> atError a = RunFailed \<and> \<not> atCtxErr a \<and> \<not> atCtxDone a"

lemma supervise_loop_bounds:
  "initialBackoff \<le> b \<Longrightarrow> b \<le> maxBackoff \<Longrightarrow>
     \<forall>w\<in>set (fst (supervise_loop b as)). initialBackoff \<le> w \<and> w \<le> maxBackoff"
proof (induction as arbitrary: b)
  case (Cons a as)
  let ?b = "reset_backoff (atElapsed a) b"
  have b': "initialBackoff \<le> ?b" "?b \<le> maxBackoff" using Cons.prems by (auto simp: reset_backoff_def)
  then have "\<forall>w\<in>set (fst (supervise_loop (min (?b * 2) maxBackoff) as)).
      initialBackoff \<le> w \<and> w \<le> maxBackoff"
    by (intro Cons.IH) auto
  with b' show ?case by (simp add: Let_def split_beta)
qed simp

lemma supervise_loop_crashes:
  assumes "\<forall>a\<in>set as. crash a" and "\<forall>a\<in>set as. atElapsed a \<le> minute"
  shows "supervise_loop b as =
    (map (\<lambda>k. if k = 0 then b else min (b * 2 ^ k) maxBackoff) [0..<length as], Supervising)"
  using assms
proof (induction as arbitrary: b)
  case (Cons a as)
  have IH: "supervise_loop (min (b * 2) maxBackoff) as =
    (map (\<lambda>k. if k = 0 then min (b * 2) maxBackoff
              else min (min (b * 2) maxBackoff * 2 ^ k) maxBackoff) [0..<length as], Supervising)"
    using Cons by simp
  have step: "(if k = 0 then min (b * 2) maxBackoff else min (min (b * 2) maxBackoff * 2 ^ k) maxBackoff)
      = min (b * 2 ^ Suc k) maxBackoff" for k :: nat
  proof -
    have m: "maxBackoff \<le> maxBackoff * 2 ^ k"
      using one_le_power [of "2 :: int" k] by simp
    have "min (min (b * 2) maxBackoff * 2 ^ k) maxBackoff = min (b * 2 * 2 ^ k) maxBackoff"
    proof (cases "b * 2 \<le> maxBackoff")
      case False
      then have "maxBackoff * 2 ^ k \<le> b * 2 * 2 ^ k" by (intro mult_right_mono) simp_all
      then have "maxBackoff \<le> b * 2 * 2 ^ k" using m by (rule order_trans [rotated])
      moreover have "min (b * 2) maxBackoff = maxBackoff" using False by simp
      ultimately show ?thesis using m by (simp only: min_absorb2)
    qed (simp only: min_absorb1)
    then show ?thesis by (auto simp: algebra_simps)
  qed
  have "crash a" "atElapsed a \<le> minute" using Cons.prems by auto
  then have "supervise_loop b (a # as) =
      (b # fst (supervise_loop (min (b * 2) maxBackoff) as), snd (supervise_loop (min (b * 2) maxBackoff) as))"
    by (simp add: crash_def reset_backoff_def Let_def split_beta)
  also have "\<dots> = (b # map (\<lambda>k. min (b * 2 ^ Suc k) maxBackoff) [0..<length as], Supervising)"
    unfolding IH by (simp add: step)
  also have "b # map (\<lambda>k. min (b * 2 ^ Suc k) maxBackoff) [0..<length as] =
      map (\<lambda>k. if k = 0 then b else min (b * 2 ^ k) maxBackoff) [0..<length (a # as)]"
    by (simp add: upt_conv_Cons map_Suc_upt [symmetric] del: upt_Suc) 
  finally show ?case .
qed simp

text \<open>The loop goes on exactly while the service keeps crashing under a live context.\<close>

lemma supervise_loop_goes_on:
  "snd (supervise_loop b as) = Supervising \<longleftrightarrow> (\<forall>a\<in>set as. crash a)"
proof (induction as arbitrary: b)
  case (Cons a as)
  show ?case
  proof (cases "crash a")
    case True
    then show ?thesis using Cons.IH by (auto simp: crash_def Let_def split_beta)
  next
    case False
    then show ?thesis
      by (cases "atError a") (auto simp: crash_def Let_def split_beta)
  qed
qed simp

section \<open>Properties\<close>

text \<open>C36: While a service keeps crashing (each run shorter than a minute, the context alive) the
  loop never gives up, and the waits before the restarts are exactly 1 s, 2 s, 4 s, 8 s, 16 s and
  then 30 s for ever.\<close>

theorem supervise_backoff:
  assumes "\<forall>a\<in>set as. crash a" and "\<forall>a\<in>set as. atElapsed a \<le> minute"
  shows "supervise as = (map (\<lambda>k. min (second * 2 ^ k) (30 * second)) [0..<length as], Supervising)"
proof -
  have "(if k = 0 then initialBackoff else min (initialBackoff * 2 ^ k) maxBackoff) =
      min (second * 2 ^ k) (30 * second)" for k :: nat
    by (cases k) simp_all
  then show ?thesis by (simp only: supervise_def supervise_loop_crashes [OF assms])
qed

theorem supervise_backoff_witness:
  "supervise (replicate 7 \<lparr>atError = RunFailed, atCtxErr = False, atElapsed = second, atCtxDone = False\<rparr>) =
     (map (\<lambda>k. min (second * 2 ^ k) (30 * second)) [0..<7], Supervising)"
  using supervise_backoff [of "replicate 7 \<lparr>atError = RunFailed, atCtxErr = False, atElapsed = second, atCtxDone = False\<rparr>"]
  by (simp add: crash_def)

text \<open>The manager returns exactly when no service is left crashing for ever, and whatever the
  services do, every wait before a restart lies between one second and thirty.\<close>

theorem Manager_Run_returns:
  "Manager_Run lives =
     (map supervise lives, list_all (list_ex (\<lambda>a. \<not> crash a)) lives) \<and>
   list_all (list_all (\<lambda>w. second \<le> w \<and> w \<le> 30 * second) \<circ> fst) (fst (Manager_Run lives))"
proof -
  have "list_all (\<lambda>w. second \<le> w \<and> w \<le> 30 * second) (fst (supervise as))" for as
    using supervise_loop_bounds [of initialBackoff as] by (simp add: supervise_def list_all_iff)
  then show ?thesis
    by (simp add: Manager_Run_def Let_def list_all_iff list_ex_iff supervise_def supervise_loop_goes_on)
qed

end
