(* ===== verification/Table.thy ===== *)
theory Table
  imports Prelude
begin

text \<open>
  The part of SQL the repositories use, on tables as lists of rows in row-id order: a lookup
  takes the first matching row, \<open>UPDATE\<close> maps over the matching rows, \<open>DELETE\<close> filters, and
  \<open>INSERT\<close> into a table with an \<open>AUTOINCREMENT\<close> key appends a row under the next id.
  \<open>keyed\<close> is what the primary key and the counter guarantee, and the lemmas show that the
  three statements keep it.
\<close>

section \<open>Statements\<close>

definition update_rows :: "('r \<Rightarrow> bool) \<Rightarrow> ('r \<Rightarrow> 'r) \<Rightarrow> 'r list \<Rightarrow> 'r list" where
  "update_rows P f rows = map (\<lambda>r. if P r then f r else r) rows"

definition delete_rows :: "('r \<Rightarrow> bool) \<Rightarrow> 'r list \<Rightarrow> 'r list" where
  "delete_rows P rows = filter (\<lambda>r. \<not> P r) rows"

text \<open>Another row than \<open>i\<close> already has the value \<open>v\<close> in a \<open>UNIQUE\<close> column.\<close>

definition taken_by_other :: "('r \<Rightarrow> int) \<Rightarrow> ('r \<Rightarrow> 'k) \<Rightarrow> int \<Rightarrow> 'k \<Rightarrow> 'r list \<Rightarrow> bool" where
  "taken_by_other key col i v rows \<longleftrightarrow> list_ex (\<lambda>r. key r \<noteq> i \<and> col r = v) rows"

definition has_key :: "('r \<Rightarrow> 'k) \<Rightarrow> 'k \<Rightarrow> 'r list \<Rightarrow> bool" where
  "has_key key i rows \<longleftrightarrow> list_ex (\<lambda>r. key r = i) rows"

definition row_by :: "('r \<Rightarrow> 'k) \<Rightarrow> 'k \<Rightarrow> 'r list \<Rightarrow> 'r option" where
  "row_by key i rows = List.find (\<lambda>r. key r = i) rows"

section \<open>Membership\<close>

lemma has_key_iff [simp]: "has_key key i rows \<longleftrightarrow> i \<in> key ` set rows"
  by (auto simp: has_key_def list_ex_iff)

lemma set_update_rows: "set (update_rows P f rows) = (\<lambda>r. if P r then f r else r) ` set rows"
  by (auto simp: update_rows_def)

lemma set_delete_rows [simp]: "set (delete_rows P rows) = {r \<in> set rows. \<not> P r}"
  by (auto simp: delete_rows_def)

lemma length_update_rows [simp]: "length (update_rows P f rows) = length rows"
  by (simp add: update_rows_def)

lemma map_update_rows: "(\<And>r. g (f r) = g r) \<Longrightarrow> map g (update_rows P f rows) = map g rows"
  by (simp add: update_rows_def)

lemma image_update_rows: "(\<And>r. g (f r) = g r) \<Longrightarrow> g ` set (update_rows P f rows) = g ` set rows"
  by (metis list.set_map map_update_rows)

lemma row_by_Some: "row_by key i rows = Some r \<Longrightarrow> r \<in> set rows \<and> key r = i"
  by (auto simp: row_by_def find_Some_iff)

lemma row_by_None: "row_by key i rows = None \<longleftrightarrow> i \<notin> key ` set rows"
  by (auto simp: row_by_def find_None_iff)

lemma row_by_distinct: "distinct (map key rows) \<Longrightarrow> r \<in> set rows \<Longrightarrow> row_by key (key r) rows = Some r"
  by (induction rows) (auto simp: row_by_def)

lemma row_by_append:
  "row_by key i (rows @ [r]) =
     (case row_by key i rows of Some x \<Rightarrow> Some x | None \<Rightarrow> if key r = i then Some r else None)"
  by (induction rows) (auto simp: row_by_def)

lemma row_by_delete:
  "(\<And>r. key r = i \<Longrightarrow> \<not> P r) \<Longrightarrow> row_by key i (delete_rows P rows) = row_by key i rows"
  by (induction rows) (auto simp: row_by_def delete_rows_def)

lemma row_by_update:
  assumes "\<And>r. key (f r) = key r"
  shows "row_by key i (update_rows P f rows) =
    map_option (\<lambda>r. if P r then f r else r) (row_by key i rows)"
  by (induction rows) (auto simp: row_by_def update_rows_def assms)

section \<open>Keyed tables\<close>

definition keyed :: "('r \<Rightarrow> int) \<Rightarrow> int \<Rightarrow> 'r list \<Rightarrow> bool" where
  "keyed key nxt rows \<longleftrightarrow> distinct (map key rows) \<and> (\<forall>i\<in>set (map key rows). i < nxt)"

lemma keyed_empty: "keyed key nxt []"
  by (simp add: keyed_def)

lemma keyed_insert: "keyed key nxt rows \<Longrightarrow> key r = nxt \<Longrightarrow> keyed key (nxt + 1) (rows @ [r])"
  by (auto simp: keyed_def)

lemma keyed_update: "(\<And>r. key (f r) = key r) \<Longrightarrow> keyed key nxt (update_rows P f rows) = keyed key nxt rows"
  by (simp only: keyed_def map_update_rows)

lemma keyed_delete: "keyed key nxt rows \<Longrightarrow> keyed key nxt (delete_rows P rows)"
  by (auto simp: keyed_def delete_rows_def distinct_map_filter)

lemma keyed_row_by: "keyed key nxt rows \<Longrightarrow> r \<in> set rows \<Longrightarrow> row_by key (key r) rows = Some r"
  by (simp add: keyed_def row_by_distinct)

lemma keyed_fresh: "keyed key nxt rows \<Longrightarrow> row_by key nxt rows = None"
  unfolding row_by_None keyed_def by fastforce

lemma keyed_unique: "keyed key nxt rows \<Longrightarrow> r \<in> set rows \<Longrightarrow> r' \<in> set rows \<Longrightarrow> key r = key r' \<Longrightarrow> r = r'"
  using keyed_row_by [of key nxt rows r] keyed_row_by [of key nxt rows r']
  by (metis option.inject)

text \<open>\<open>INSERT\<close> answers a lookup of the new key with the new row and leaves the others.\<close>

lemma row_by_insert:
  "keyed key nxt rows \<Longrightarrow> key r = nxt \<Longrightarrow>
     row_by key i (rows @ [r]) = (if i = nxt then Some r else row_by key i rows)"
  using keyed_fresh [of key nxt rows] by (auto simp: row_by_append split: option.splits dest: row_by_Some)

section \<open>Unique columns\<close>

lemma distinct_insert: "distinct (map col rows) \<Longrightarrow> \<not> has_key col (col r) rows \<Longrightarrow> distinct (map col (rows @ [r]))"
  by auto

lemma distinct_delete: "distinct (map col rows) \<Longrightarrow> distinct (map col (delete_rows P rows))"
  by (simp add: delete_rows_def distinct_map_filter)

lemma distinct_update_unique_by:
  assumes "distinct (map key rows)" and "distinct (map col rows)"
    and "\<not> list_ex (\<lambda>x. col x = v \<and> key x \<noteq> i) rows" and "\<And>r. col (f r) = v"
  shows "distinct (map col (update_rows (\<lambda>r. key r = i) f rows))"
  using assms(1-3)
proof (induction rows)
  case (Cons x rows)
  have IH: "distinct (map col (update_rows (\<lambda>r. key r = i) f rows))" using Cons by simp
  have key: "y \<in> set rows \<Longrightarrow> key y \<noteq> key x" and col: "y \<in> set rows \<Longrightarrow> col y \<noteq> col x" for y
    using Cons.prems(1,2) by (auto simp: image_iff)
  have free: "y \<in> set (x # rows) \<Longrightarrow> key y \<noteq> i \<Longrightarrow> col y \<noteq> v" for y
    using Cons.prems(3) unfolding list_ex_iff by blast
  have "col (if key x = i then f x else x) \<noteq> col (if key y = i then f y else y)" if y: "y \<in> set rows" for y
  proof -
    have "key y \<noteq> i \<Longrightarrow> col y \<noteq> v" "key x \<noteq> i \<Longrightarrow> col x \<noteq> v" using free y by simp_all
    then show ?thesis using key [OF y] col [OF y] assms(4) by metis
  qed
  then have "col (if key x = i then f x else x) \<notin> set (map col (update_rows (\<lambda>r. key r = i) f rows))"
    unfolding set_map set_update_rows image_image by blast
  with IH show ?case by (simp only: update_rows_def list.map distinct.simps simp_thms)
qed (simp add: update_rows_def)

lemma distinct_update_unique:
  "distinct (map col rows) \<Longrightarrow> distinct (map key rows) \<Longrightarrow> \<not> taken_by_other key col i v rows \<Longrightarrow>
     (\<And>r. col (f r) = v) \<Longrightarrow> distinct (map col (update_rows (\<lambda>r. key r = i) f rows))"
  by (rule distinct_update_unique_by [of key rows col v i f])
     (auto simp: taken_by_other_def list_ex_iff)

section \<open>Foreign keys\<close>

text \<open>Column \<open>f\<close> of the rows \<open>xs\<close> points at the keys \<open>g\<close> of the rows \<open>ys\<close>; \<open>fk_null\<close> may be null.\<close>

definition fk :: "('a \<Rightarrow> 'k) \<Rightarrow> 'a list \<Rightarrow> ('b \<Rightarrow> 'k) \<Rightarrow> 'b list \<Rightarrow> bool" where
  "fk f xs g ys \<longleftrightarrow> (\<forall>x\<in>set xs. f x \<in> g ` set ys)"

definition fk_null :: "('a \<Rightarrow> 'k option) \<Rightarrow> 'a list \<Rightarrow> ('b \<Rightarrow> 'k) \<Rightarrow> 'b list \<Rightarrow> bool" where
  "fk_null f xs g ys \<longleftrightarrow> (\<forall>x\<in>set xs. \<forall>k. f x = Some k \<longrightarrow> k \<in> g ` set ys)"

lemma fk_empty [simp]: "fk f [] g ys" "fk_null f' [] g ys"
  by (simp_all add: fk_def fk_null_def)

lemma fk_insert: "fk f xs g ys \<Longrightarrow> has_key g (f x) ys \<Longrightarrow> fk f (xs @ [x]) g ys"
  by (simp add: fk_def)

lemma fk_null_insert:
  "fk_null f xs g ys \<Longrightarrow> (\<And>k. f x = Some k \<Longrightarrow> has_key g k ys) \<Longrightarrow> fk_null f (xs @ [x]) g ys"
  by (auto simp: fk_null_def)

lemma fk_insert_target: "fk f xs g ys \<Longrightarrow> fk f xs g (ys @ [y])" "fk_null f' xs g ys \<Longrightarrow> fk_null f' xs g (ys @ [y])"
  by (auto simp: fk_def fk_null_def)

lemma fk_update: "(\<And>r. f (h r) = f r) \<Longrightarrow> fk f xs g ys \<Longrightarrow> fk f (update_rows P h xs) g ys"
  "(\<And>r. f' (h r) = f' r) \<Longrightarrow> fk_null f' xs g ys \<Longrightarrow> fk_null f' (update_rows P h xs) g ys"
  by (auto simp: fk_def fk_null_def set_update_rows)

lemma fk_update_target:
  assumes "\<And>r. g (h r) = g r"
  shows "fk f xs g ys \<Longrightarrow> fk f xs g (update_rows P h ys)"
    and "fk_null f' xs g ys \<Longrightarrow> fk_null f' xs g (update_rows P h ys)"
  unfolding fk_def fk_null_def image_update_rows [of g, OF assms] by assumption+

lemma fk_delete: "fk f xs g ys \<Longrightarrow> fk f (delete_rows P xs) g ys" "fk_null f' xs g ys \<Longrightarrow> fk_null f' (delete_rows P xs) g ys"
  by (auto simp: fk_def fk_null_def)

text \<open>\<open>ON DELETE CASCADE\<close>, \<open>ON DELETE SET NULL\<close>, and a key nothing points at.\<close>

lemma fk_cascade: "fk f xs g ys \<Longrightarrow> fk f (delete_rows (\<lambda>x. f x = i) xs) g (delete_rows (\<lambda>y. g y = i) ys)"
  by (fastforce simp: fk_def)

lemma fk_set_null:
  "(\<And>r. f (h r) = None) \<Longrightarrow> fk_null f xs g ys \<Longrightarrow>
     fk_null f (update_rows (\<lambda>x. f x = Some i) h xs) g (delete_rows (\<lambda>y. g y = i) ys)"
  by (fastforce simp: fk_null_def set_update_rows)

lemma fk_delete_unused:
  assumes "fk f xs g ys" and "\<And>y. y \<in> set ys \<Longrightarrow> P y \<Longrightarrow> \<not> has_key f (g y) xs"
  shows "fk f xs g (delete_rows P ys)"
  unfolding fk_def
proof
  fix x assume x: "x \<in> set xs"
  then obtain y where y: "y \<in> set ys" "f x = g y" using assms(1) by (auto simp: fk_def)
  then have "\<not> P y" using assms(2) [OF y(1)] x by force
  with y show "f x \<in> g ` set (delete_rows P ys)" by auto
qed

lemmas row_intros = keyed_insert keyed_delete distinct_insert distinct_delete
  fk_insert fk_insert_target fk_null_insert fk_update fk_update_target fk_delete fk_cascade fk_set_null

end
