(* ===== verification/Model.thy ===== *)
theory Model
  imports Prelude
begin

text \<open>
  The domain types of \<open>backend/internal/model/model.go\<close>.  A role stays the string it is in
  Go, because requests carry arbitrary strings and \<open>Valid\<close> checks them; host and
  installation statuses are only ever set to the declared constants (and the schema checks
  them), so they are datatypes.  Optional pointers are \<open>option\<close>s.
\<close>

section \<open>Roles\<close>

type_synonym Role = string

abbreviation RoleAdmin :: Role where "RoleAdmin \<equiv> ''admin''"
abbreviation RoleOperator :: Role where "RoleOperator \<equiv> ''operator''"
abbreviation RoleViewer :: Role where "RoleViewer \<equiv> ''viewer''"

definition Role_Valid :: "Role \<Rightarrow> bool" where
  "Role_Valid r \<longleftrightarrow> r = RoleAdmin \<or> r = RoleOperator \<or> r = RoleViewer"

definition roleRank :: "Role \<Rightarrow> int" where
  "roleRank r = (if r = RoleAdmin then 3 else if r = RoleOperator then 2
                 else if r = RoleViewer then 1 else 0)"

definition AtLeast :: "Role \<Rightarrow> Role \<Rightarrow> bool" where
  "AtLeast r least \<longleftrightarrow> roleRank r \<ge> roleRank least"

section \<open>Records\<close>

record User =
  uID :: int
  uUsername :: string
  uPasswordHash :: string
  uRole :: Role
  uLocale :: string
  uCreatedAt :: instant

record Session =
  sToken :: string
  sUserID :: int
  sCSRFToken :: string
  sCreatedAt :: instant
  sExpiresAt :: instant

datatype HostStatus = HostDiscovered | HostReady | HostInstalling | HostError

record Host =
  hID :: int
  hMAC :: string
  hHostname :: string
  hVendor :: string
  hModel :: string
  hSerial :: string
  hAssetID :: string
  hTags :: "string list"
  hFirmware :: string
  hArch :: string
  hProfileID :: "int option"
  hProfileVersion :: int
  hStatus :: HostStatus
  hCreatedAt :: instant
  hUpdatedAt :: instant

record Profile =
  pfID :: int
  pfName :: string
  pfProvider :: string
  pfISOID :: "int option"
  pfCurrentVersion :: int
  pfCreatedAt :: instant
  pfUpdatedAt :: instant

record ProfileVersion =
  pvID :: int
  pvProfileID :: int
  pvVersion :: int
  pvConfig :: string
  pvAnswerOverride :: string
  pvCreatedAt :: instant

datatype InstallationStatus =
  InstallDiscovered | InstallWaiting | InstallRunning | InstallSuccess | InstallError

record Installation =
  inID :: int
  inHostID :: int
  inProfileVersionID :: int
  inStatus :: InstallationStatus
  inStartedAt :: "instant option"
  inFinishedAt :: "instant option"
  inLog :: string
  inToken :: string
  inCreatedAt :: instant

record ISOImage =
  isID :: int
  isFilename :: string
  isProvider :: string
  isOSName :: string
  isVersion :: string
  isArch :: string
  isBootloader :: string
  isInstallMethod :: string
  isSizeBytes :: int
  isSHA256 :: string
  isStatus :: string
  isCreatedAt :: instant

section \<open>The order of roles\<close>

lemma AtLeast_refl [simp]: "AtLeast r r"
  by (simp add: AtLeast_def)

lemma AtLeast_trans: "AtLeast a b \<Longrightarrow> AtLeast b c \<Longrightarrow> AtLeast a c"
  by (simp add: AtLeast_def)

lemma AtLeast_admin: "AtLeast r RoleAdmin \<longleftrightarrow> r = RoleAdmin"
  by (simp add: AtLeast_def roleRank_def)

lemma AtLeast_operator: "AtLeast r RoleOperator \<longleftrightarrow> r = RoleAdmin \<or> r = RoleOperator"
  by (simp add: AtLeast_def roleRank_def)

lemma AtLeast_viewer: "AtLeast r RoleViewer \<longleftrightarrow> Role_Valid r"
  by (simp add: AtLeast_def roleRank_def Role_Valid_def)

lemmas AtLeast_simps = AtLeast_admin AtLeast_operator AtLeast_viewer

text \<open>A role string outside the enumeration grants nothing.\<close>

lemma invalid_role_grants_nothing:
  "\<not> Role_Valid r \<Longrightarrow> Role_Valid least \<Longrightarrow> \<not> AtLeast r least"
  by (auto simp: AtLeast_def roleRank_def Role_Valid_def)

end
