(* ===== verification/Store.thy ===== *)
theory Store
  imports Table Model "HOL-Library.List_Lexorder" "HOL-Library.Char_ord"
begin

text \<open>
  The database behind \<open>backend/internal/store\<close> and the schema of \<open>internal/db/migrations\<close>:
  one list of rows per table, the \<open>AUTOINCREMENT\<close> counters, and what foreign keys and
  unique columns refuse.  An operation returns the new database and its result, or an error;
  a failed statement (or a transaction that is rolled back) leaves the database as it was.
  Times are stored as text with one-second resolution, in a format whose text order is the order
  in time.  Failures of the disk or the driver are not modelled.
\<close>

section \<open>State\<close>

record Lease =
  leMAC :: string
  leIP :: string
  leHostname :: string
  leExpiresAt :: instant

record AuditEntry =
  auUserID :: "int option"
  auAction :: string
  auEntity :: string
  auEntityID :: string
  auAt :: instant

record db =
  users :: "User list"
  next_user :: int
  sessions :: "Session list"
  settings :: "string \<rightharpoonup> string"
  isos :: "ISOImage list"
  next_iso :: int
  profiles :: "Profile list"
  next_profile :: int
  versions :: "ProfileVersion list"
  next_version :: int
  hosts :: "Host list"
  next_host :: int
  installs :: "Installation list"
  next_install :: int
  leases :: "Lease list"
  audit :: "AuditEntry list"

definition empty_db :: db where
  "empty_db = \<lparr>users = [], next_user = 1, sessions = [], settings = Map.empty,
     isos = [], next_iso = 1, profiles = [], next_profile = 1, versions = [], next_version = 1,
     hosts = [], next_host = 1, installs = [], next_install = 1, leases = [], audit = []\<rparr>"

section \<open>Results\<close>

text \<open>\<open>ErrSQL\<close>: a constraint of the schema refused the statement.\<close>

datatype store_error = ErrNotFound | ErrVersionInUse | ErrSQL | ErrInvalidStatus

type_synonym 'a stored = "store_error + db \<times> 'a"

text \<open>The database after an operation whose error the caller drops.\<close>

definition db_after :: "db \<Rightarrow> 'a stored \<Rightarrow> db" where
  "db_after d r = (case r of Inl _ \<Rightarrow> d | Inr (d', _) \<Rightarrow> d')"

definition found :: "'a option \<Rightarrow> store_error + 'a" where
  "found r = (case r of None \<Rightarrow> Inl ErrNotFound | Some x \<Rightarrow> Inr x)"

text \<open>\<open>parseTime (formatTime t)\<close>: the stored time.\<close>

definition stored_time :: "instant \<Rightarrow> instant" where
  "stored_time t = t div second * second"

lemma stored_time_idem [simp]: "stored_time (stored_time t) = stored_time t"
  by (simp add: stored_time_def)

lemma stored_time_le: "stored_time t \<le> t"
  using div_mult_mod_eq [of t second] pos_mod_sign [of second t] by (simp add: stored_time_def)

text \<open>
  SQL compares the texts of two stored times; comparing a stored time with the clock gives
  the same answer.
\<close>

lemma stored_le_iff: "stored_time e \<le> stored_time now \<longleftrightarrow> stored_time e \<le> now"
proof
  assume "stored_time e \<le> now"
  then have "stored_time e div second \<le> now div second" by (intro zdiv_mono1) simp_all
  then have "e div second * second \<le> now div second * second"
    unfolding stored_time_def by (intro mult_right_mono) simp_all
  then show "stored_time e \<le> stored_time now" by (simp only: stored_time_def)
qed (erule order_trans, rule stored_time_le)

section \<open>Users\<close>

text \<open>\<open>COLLATE NOCASE\<close> folds the ASCII letters.\<close>

definition nocase :: "string \<Rightarrow> string" where
  "nocase s = map lower_char s"

definition UserByID :: "db \<Rightarrow> int \<Rightarrow> store_error + User" where
  "UserByID d i = found (row_by uID i (users d))"

definition UserByUsername :: "db \<Rightarrow> string \<Rightarrow> store_error + User" where
  "UserByUsername d name = found (row_by (nocase \<circ> uUsername) (nocase name) (users d))"

definition CreateUser ::
    "instant \<Rightarrow> db \<Rightarrow> string \<Rightarrow> string \<Rightarrow> Role \<Rightarrow> string \<Rightarrow> User stored" where
  "CreateUser now d username passwordHash role locale =
     (if has_key (nocase \<circ> uUsername) (nocase username) (users d) \<or> \<not> Role_Valid role then Inl ErrSQL
      else let u = \<lparr>uID = next_user d, uUsername = username, uPasswordHash = passwordHash,
                    uRole = role, uLocale = locale, uCreatedAt = stored_time now\<rparr>
           in Inr (d\<lparr>users := users d @ [u], next_user := next_user d + 1\<rparr>, u))"

definition CountUsers :: "db \<Rightarrow> int" where
  "CountUsers d = int (length (users d))"

definition CountAdmins :: "db \<Rightarrow> int" where
  "CountAdmins d = int (length (filter (\<lambda>u. uRole u = RoleAdmin) (users d)))"

definition ListUsers :: "db \<Rightarrow> User list" where
  "ListUsers d = sort_key (nocase \<circ> uUsername) (users d)"

definition UpdateUserRole :: "db \<Rightarrow> int \<Rightarrow> Role \<Rightarrow> unit stored" where
  "UpdateUserRole d i role =
     (if \<not> has_key uID i (users d) then Inl ErrNotFound
      else if \<not> Role_Valid role then Inl ErrSQL
      else Inr (d\<lparr>users := update_rows (\<lambda>u. uID u = i) (uRole_update (\<lambda>_. role)) (users d)\<rparr>, ()))"

definition UpdateUserPassword :: "db \<Rightarrow> int \<Rightarrow> string \<Rightarrow> unit stored" where
  "UpdateUserPassword d i passwordHash =
     (if \<not> has_key uID i (users d) then Inl ErrNotFound
      else Inr (d\<lparr>users := update_rows (\<lambda>u. uID u = i) (uPasswordHash_update (\<lambda>_. passwordHash)) (users d),
                 sessions := delete_rows (\<lambda>s. sUserID s = i) (sessions d)\<rparr>, ()))"

text \<open>The schema deletes the user's sessions and keeps the audit entries without the user.\<close>

definition DeleteUser :: "db \<Rightarrow> int \<Rightarrow> unit stored" where
  "DeleteUser d i =
     (if \<not> has_key uID i (users d) then Inl ErrNotFound
      else Inr (d\<lparr>users := delete_rows (\<lambda>u. uID u = i) (users d),
                 sessions := delete_rows (\<lambda>s. sUserID s = i) (sessions d),
                 audit := update_rows (\<lambda>a. auUserID a = Some i) (auUserID_update (\<lambda>_. None)) (audit d)\<rparr>, ()))"

definition AddAudit ::
    "instant \<Rightarrow> db \<Rightarrow> int option \<Rightarrow> string \<Rightarrow> string \<Rightarrow> string \<Rightarrow> unit stored" where
  "AddAudit now d userID action entity entityID =
     (if (\<exists>i. userID = Some i \<and> \<not> has_key uID i (users d)) then Inl ErrSQL
      else Inr (d\<lparr>audit := audit d @ [\<lparr>auUserID = userID, auAction = action, auEntity = entity,
                                     auEntityID = entityID, auAt = stored_time now\<rparr>]\<rparr>, ()))"

section \<open>Sessions\<close>

definition CreateSession :: "db \<Rightarrow> Session \<Rightarrow> unit stored" where
  "CreateSession d s =
     (if has_key sToken (sToken s) (sessions d) \<or> \<not> has_key uID (sUserID s) (users d) then Inl ErrSQL
      else Inr (d\<lparr>sessions := sessions d @ [s\<lparr>sCreatedAt := stored_time (sCreatedAt s),
                                             sExpiresAt := stored_time (sExpiresAt s)\<rparr>]\<rparr>, ()))"

definition SessionByToken :: "db \<Rightarrow> string \<Rightarrow> instant \<Rightarrow> store_error + Session" where
  "SessionByToken d token now =
     (case row_by sToken token (sessions d) of
        None \<Rightarrow> Inl ErrNotFound
      | Some s \<Rightarrow> if \<not> now < sExpiresAt s then Inl ErrNotFound else Inr s)"

definition DeleteSession :: "db \<Rightarrow> string \<Rightarrow> unit stored" where
  "DeleteSession d token = Inr (d\<lparr>sessions := delete_rows (\<lambda>s. sToken s = token) (sessions d)\<rparr>, ())"

definition DeleteExpiredSessions :: "db \<Rightarrow> instant \<Rightarrow> unit stored" where
  "DeleteExpiredSessions d now =
     Inr (d\<lparr>sessions := delete_rows (\<lambda>s. sExpiresAt s \<le> stored_time now) (sessions d)\<rparr>, ())"

section \<open>Settings\<close>

abbreviation SettingSetupCompleted :: string where "SettingSetupCompleted \<equiv> ''setup.completed''"
abbreviation SettingNetworkMode :: string where "SettingNetworkMode \<equiv> ''network.mode''"
abbreviation SettingUILanguage :: string where "SettingUILanguage \<equiv> ''ui.language''"

definition GetSetting :: "db \<Rightarrow> string \<Rightarrow> store_error + string" where
  "GetSetting d k = found (settings d k)"

definition SetSetting :: "db \<Rightarrow> string \<Rightarrow> string \<Rightarrow> unit stored" where
  "SetSetting d k v = Inr (d\<lparr>settings := (settings d)(k \<mapsto> v)\<rparr>, ())"

definition SetupCompleted :: "db \<Rightarrow> store_error + bool" where
  "SetupCompleted d =
     (case GetSetting d SettingSetupCompleted of
        Inl ErrNotFound \<Rightarrow> Inr False
      | Inl e \<Rightarrow> Inl e
      | Inr v \<Rightarrow> Inr (v = ''true''))"

section \<open>ISO images\<close>

definition iso_status_ok :: "string \<Rightarrow> bool" where
  "iso_status_ok s \<longleftrightarrow> s \<in> {''uploaded'', ''analyzing'', ''ready'', ''unsupported''}"

definition ISOByID :: "db \<Rightarrow> int \<Rightarrow> store_error + ISOImage" where
  "ISOByID d i = found (row_by isID i (isos d))"

definition ISOByFilename :: "db \<Rightarrow> string \<Rightarrow> store_error + ISOImage" where
  "ISOByFilename d f = found (row_by isFilename f (isos d))"

definition CreateISO :: "instant \<Rightarrow> db \<Rightarrow> ISOImage \<Rightarrow> ISOImage stored" where
  "CreateISO now d img =
     (if has_key isFilename (isFilename img) (isos d) \<or> \<not> iso_status_ok (isStatus img) then Inl ErrSQL
      else let r = img\<lparr>isID := next_iso d, isCreatedAt := stored_time now\<rparr>
           in Inr (d\<lparr>isos := isos d @ [r], next_iso := next_iso d + 1\<rparr>, r))"

definition ListISOs :: "db \<Rightarrow> ISOImage list" where
  "ListISOs d = sort_key isFilename (isos d)"

text \<open>Profiles that used the image keep working without one.\<close>

definition DeleteISO :: "db \<Rightarrow> int \<Rightarrow> unit stored" where
  "DeleteISO d i =
     (if \<not> has_key isID i (isos d) then Inl ErrNotFound
      else Inr (d\<lparr>isos := delete_rows (\<lambda>r. isID r = i) (isos d),
                 profiles := update_rows (\<lambda>p. pfISOID p = Some i) (pfISOID_update (\<lambda>_. None)) (profiles d)\<rparr>, ()))"

section \<open>Profiles and their versions\<close>

definition iso_ref_ok :: "db \<Rightarrow> int option \<Rightarrow> bool" where
  "iso_ref_ok d isoID = (case isoID of None \<Rightarrow> True | Some i \<Rightarrow> has_key isID i (isos d))"

definition ProfileByID :: "db \<Rightarrow> int \<Rightarrow> store_error + Profile" where
  "ProfileByID d i = found (row_by pfID i (profiles d))"

definition ListProfiles :: "db \<Rightarrow> Profile list" where
  "ListProfiles d = sort_key pfName (profiles d)"

definition ProfileVersionByID :: "db \<Rightarrow> int \<Rightarrow> store_error + ProfileVersion" where
  "ProfileVersionByID d i = found (row_by pvID i (versions d))"

definition pv_key :: "ProfileVersion \<Rightarrow> int \<times> int" where
  "pv_key v = (pvProfileID v, pvVersion v)"

definition ProfileVersionNumber :: "db \<Rightarrow> int \<Rightarrow> int \<Rightarrow> store_error + ProfileVersion" where
  "ProfileVersionNumber d profileID version = found (row_by pv_key (profileID, version) (versions d))"

definition ProfileVersions :: "db \<Rightarrow> int \<Rightarrow> ProfileVersion list" where
  "ProfileVersions d profileID = sort_key pvVersion (filter (\<lambda>v. pvProfileID v = profileID) (versions d))"

definition CreateProfile ::
    "instant \<Rightarrow> db \<Rightarrow> string \<Rightarrow> string \<Rightarrow> int option \<Rightarrow> string \<Rightarrow> Profile stored" where
  "CreateProfile now d name provider isoID config =
     (if has_key pfName name (profiles d) \<or> \<not> iso_ref_ok d isoID then Inl ErrSQL
      else let i = next_profile d;
               p = \<lparr>pfID = i, pfName = name, pfProvider = provider, pfISOID = isoID,
                    pfCurrentVersion = 1, pfCreatedAt = stored_time now, pfUpdatedAt = stored_time now\<rparr>;
               v = \<lparr>pvID = next_version d, pvProfileID = i, pvVersion = 1, pvConfig = config,
                    pvAnswerOverride = [], pvCreatedAt = stored_time now\<rparr>
           in Inr (d\<lparr>profiles := profiles d @ [p], next_profile := i + 1,
                     versions := versions d @ [v], next_version := next_version d + 1\<rparr>, p))"

definition max_version :: "db \<Rightarrow> int \<Rightarrow> int" where
  "max_version d profileID =
     fold max (map pvVersion (filter (\<lambda>v. pvProfileID v = profileID) (versions d))) 0"

definition appendProfileVersion :: "instant \<Rightarrow> db \<Rightarrow> int \<Rightarrow> string \<Rightarrow> unit stored" where
  "appendProfileVersion now d profileID config =
     (let n = max_version d profileID + 1 in
      if has_key pv_key (profileID, n) (versions d) \<or> \<not> has_key pfID profileID (profiles d) then Inl ErrSQL
      else let v = \<lparr>pvID = next_version d, pvProfileID = profileID, pvVersion = n, pvConfig = config,
                    pvAnswerOverride = [], pvCreatedAt = stored_time now\<rparr>
           in Inr (d\<lparr>versions := versions d @ [v], next_version := next_version d + 1,
                     profiles := update_rows (\<lambda>p. pfID p = profileID) (pfCurrentVersion_update (\<lambda>_. n)) (profiles d)\<rparr>, ()))"

text \<open>The join of a profile with the version row its \<open>current_version\<close> names.\<close>

definition head_version :: "db \<Rightarrow> int \<Rightarrow> ProfileVersion option" where
  "head_version d profileID =
     (case row_by pfID profileID (profiles d) of
        None \<Rightarrow> None
      | Some p \<Rightarrow> row_by pv_key (profileID, pfCurrentVersion p) (versions d))"

definition editHeadVersion :: "db \<Rightarrow> int \<Rightarrow> string \<Rightarrow> unit stored" where
  "editHeadVersion d profileID config =
     (case head_version d profileID of
        None \<Rightarrow> Inl ErrSQL
      | Some head \<Rightarrow>
          let refs = length (filter (\<lambda>i. inProfileVersionID i = pvID head) (installs d)) in
          if refs > 0 then Inl ErrVersionInUse
          else Inr (d\<lparr>versions := update_rows (\<lambda>v. pvID v = pvID head) (pvConfig_update (\<lambda>_. config)) (versions d)\<rparr>, ()))"

definition UpdateProfile ::
    "instant \<Rightarrow> db \<Rightarrow> int \<Rightarrow> string \<Rightarrow> int option \<Rightarrow> string option \<Rightarrow> bool \<Rightarrow> Profile stored" where
  "UpdateProfile now d i name isoID config newVersion =
     (if \<not> has_key pfID i (profiles d) then Inl ErrNotFound
      else if taken_by_other pfID pfName i name (profiles d) \<or> \<not> iso_ref_ok d isoID then Inl ErrSQL
      else
        let d1 = d\<lparr>profiles := update_rows (\<lambda>p. pfID p = i)
                    (\<lambda>p. p\<lparr>pfName := name, pfISOID := isoID, pfUpdatedAt := stored_time now\<rparr>) (profiles d)\<rparr>
        in case (case config of
                   None \<Rightarrow> Inr (d1, ())
                 | Some c \<Rightarrow> if newVersion then appendProfileVersion now d1 i c else editHeadVersion d1 i c) of
             Inl e \<Rightarrow> Inl e
           | Inr (d2, _) \<Rightarrow>
               (case ProfileByID d2 i of Inl e \<Rightarrow> Inl e | Inr p \<Rightarrow> Inr (d2, p)))"

text \<open>
  The versions go with the profile; a version an installation references refuses the
  statement; hosts lose the profile and keep the version number.
\<close>

definition DeleteProfile :: "db \<Rightarrow> int \<Rightarrow> unit stored" where
  "DeleteProfile d i =
     (if \<not> has_key pfID i (profiles d) then Inl ErrNotFound
      else if list_ex (\<lambda>v. pvProfileID v = i \<and> has_key inProfileVersionID (pvID v) (installs d)) (versions d)
      then Inl ErrSQL
      else Inr (d\<lparr>profiles := delete_rows (\<lambda>p. pfID p = i) (profiles d),
                 versions := delete_rows (\<lambda>v. pvProfileID v = i) (versions d),
                 hosts := update_rows (\<lambda>h. hProfileID h = Some i) (hProfileID_update (\<lambda>_. None)) (hosts d)\<rparr>, ()))"

definition SetAnswerOverride :: "db \<Rightarrow> int \<Rightarrow> int \<Rightarrow> string \<Rightarrow> unit stored" where
  "SetAnswerOverride d profileID version content =
     (if \<not> has_key pv_key (profileID, version) (versions d) then Inl ErrNotFound
      else Inr (d\<lparr>versions := update_rows (\<lambda>v. pv_key v = (profileID, version))
                   (pvAnswerOverride_update (\<lambda>_. content)) (versions d)\<rparr>, ()))"

section \<open>Hosts\<close>

definition firmware_ok :: "string \<Rightarrow> bool" where
  "firmware_ok f \<longleftrightarrow> f \<in> {'''', ''bios'', ''uefi''}"

definition profile_ref_ok :: "db \<Rightarrow> int option \<Rightarrow> bool" where
  "profile_ref_ok d pid = (case pid of None \<Rightarrow> True | Some i \<Rightarrow> has_key pfID i (profiles d))"

definition HostByID :: "db \<Rightarrow> int \<Rightarrow> store_error + Host" where
  "HostByID d i = found (row_by hID i (hosts d))"

definition HostByMAC :: "db \<Rightarrow> string \<Rightarrow> store_error + Host" where
  "HostByMAC d mac = found (row_by hMAC mac (hosts d))"

definition ListHosts :: "db \<Rightarrow> Host list" where
  "ListHosts d = hosts d"

definition CreateHost :: "instant \<Rightarrow> db \<Rightarrow> Host \<Rightarrow> Host stored" where
  "CreateHost now d h =
     (if has_key hMAC (hMAC h) (hosts d) \<or> \<not> firmware_ok (hFirmware h) \<or> \<not> profile_ref_ok d (hProfileID h)
      then Inl ErrSQL
      else let r = h\<lparr>hID := next_host d, hCreatedAt := stored_time now, hUpdatedAt := stored_time now\<rparr>
           in Inr (d\<lparr>hosts := hosts d @ [r], next_host := next_host d + 1\<rparr>, r))"

definition UpdateHost :: "instant \<Rightarrow> db \<Rightarrow> Host \<Rightarrow> Host stored" where
  "UpdateHost now d h =
     (if \<not> has_key hID (hID h) (hosts d) then Inl ErrNotFound
      else if taken_by_other hID hMAC (hID h) (hMAC h) (hosts d) \<or> \<not> firmware_ok (hFirmware h)
              \<or> \<not> profile_ref_ok d (hProfileID h) then Inl ErrSQL
      else
        let d' = d\<lparr>hosts := update_rows (\<lambda>r. hID r = hID h)
                    (\<lambda>r. h\<lparr>hID := hID r, hCreatedAt := hCreatedAt r, hUpdatedAt := stored_time now\<rparr>) (hosts d)\<rparr>
        in case HostByID d' (hID h) of Inl e \<Rightarrow> Inl e | Inr r \<Rightarrow> Inr (d', r))"

definition DeleteHost :: "db \<Rightarrow> int \<Rightarrow> unit stored" where
  "DeleteHost d i =
     (if \<not> has_key hID i (hosts d) then Inl ErrNotFound
      else Inr (d\<lparr>hosts := delete_rows (\<lambda>h. hID h = i) (hosts d),
                 installs := delete_rows (\<lambda>n. inHostID n = i) (installs d)\<rparr>, ()))"

section \<open>Installations\<close>

definition install_active :: "Installation \<Rightarrow> bool" where
  "install_active i \<longleftrightarrow> inStatus i = InstallWaiting \<or> inStatus i = InstallRunning"

definition InstallationByID :: "db \<Rightarrow> int \<Rightarrow> store_error + Installation" where
  "InstallationByID d i = found (row_by inID i (installs d))"

definition InstallationByToken :: "db \<Rightarrow> string \<Rightarrow> store_error + Installation" where
  "InstallationByToken d token =
     (if token = '''' then Inl ErrNotFound else found (row_by inToken token (installs d)))"

text \<open>The newest one, should there be several.\<close>

definition ActiveInstallationForHost :: "db \<Rightarrow> int \<Rightarrow> store_error + Installation" where
  "ActiveInstallationForHost d hostID =
     found (List.find (\<lambda>i. inHostID i = hostID \<and> install_active i) (rev (installs d)))"

definition CreateInstallation :: "instant \<Rightarrow> db \<Rightarrow> int \<Rightarrow> int \<Rightarrow> string \<Rightarrow> Installation stored" where
  "CreateInstallation now d hostID pvid token =
     (if \<not> has_key hID hostID (hosts d) \<or> \<not> has_key pvID pvid (versions d) then Inl ErrSQL
      else let r = \<lparr>inID = next_install d, inHostID = hostID, inProfileVersionID = pvid,
                    inStatus = InstallWaiting, inStartedAt = None, inFinishedAt = None, inLog = [],
                    inToken = token, inCreatedAt = stored_time now\<rparr>
           in Inr (d\<lparr>installs := installs d @ [r], next_install := next_install d + 1\<rparr>, r))"

definition ListInstallations :: "db \<Rightarrow> Installation list" where
  "ListInstallations d = rev (installs d)"

definition MarkInstallationStarted :: "db \<Rightarrow> int \<Rightarrow> instant \<Rightarrow> unit stored" where
  "MarkInstallationStarted d i now =
     Inr (d\<lparr>installs := update_rows (\<lambda>n. inID n = i \<and> inStatus n = InstallWaiting)
       (\<lambda>n. n\<lparr>inStatus := InstallRunning, inStartedAt := Some (stored_time now)\<rparr>) (installs d)\<rparr>, ())"

definition MarkInstallationFinished ::
    "db \<Rightarrow> int \<Rightarrow> InstallationStatus \<Rightarrow> string \<Rightarrow> instant \<Rightarrow> unit stored" where
  "MarkInstallationFinished d i status logLine now =
     (if status \<noteq> InstallSuccess \<and> status \<noteq> InstallError then Inl ErrInvalidStatus
      else Inr (d\<lparr>installs := update_rows (\<lambda>n. inID n = i)
             (\<lambda>n. n\<lparr>inStatus := status, inFinishedAt := Some (stored_time now),
                    inLog := inLog n @ logLine\<rparr>) (installs d)\<rparr>, ()))"

definition DeleteInstallation :: "db \<Rightarrow> int \<Rightarrow> unit stored" where
  "DeleteInstallation d i =
     (if \<not> list_ex (\<lambda>n. inID n = i \<and> inStatus n = InstallWaiting) (installs d) then Inl ErrNotFound
      else Inr (d\<lparr>installs := delete_rows (\<lambda>n. inID n = i \<and> inStatus n = InstallWaiting) (installs d)\<rparr>, ()))"

section \<open>Leases\<close>

definition store_UpsertLease :: "db \<Rightarrow> Lease \<Rightarrow> unit stored" where
  "store_UpsertLease d l =
     (let r = l\<lparr>leExpiresAt := stored_time (leExpiresAt l)\<rparr> in
      if list_ex (\<lambda>x. leIP x = leIP l \<and> leMAC x \<noteq> leMAC l) (leases d) then Inl ErrSQL
      else if has_key leMAC (leMAC l) (leases d)
      then Inr (d\<lparr>leases := update_rows (\<lambda>x. leMAC x = leMAC l) (\<lambda>_. r) (leases d)\<rparr>, ())
      else Inr (d\<lparr>leases := leases d @ [r]\<rparr>, ()))"

definition ActiveLeases :: "db \<Rightarrow> instant \<Rightarrow> Lease list" where
  "ActiveLeases d now = filter (\<lambda>l. leExpiresAt l > stored_time now) (leases d)"

definition LeaseByMAC :: "db \<Rightarrow> string \<Rightarrow> store_error + Lease" where
  "LeaseByMAC d mac = found (row_by leMAC mac (leases d))"

definition store_DeleteLease :: "db \<Rightarrow> string \<Rightarrow> unit stored" where
  "store_DeleteLease d mac = Inr (d\<lparr>leases := delete_rows (\<lambda>l. leMAC l = mac) (leases d)\<rparr>, ())"

end
