(* ===== verification/Store_Inv.thy ===== *)
theory Store_Inv
  imports Store
begin

text \<open>
  The invariants the schema and the repositories keep together, one predicate per table over
  the tables it refers to: keys below the counter, unique columns, foreign keys that point at
  rows, and for profiles that the current version is the newest version row.  \<open>db_step\<close> is the
  relation of all operations that write.
\<close>

section \<open>Invariants\<close>

definition users_inv :: "User list \<Rightarrow> int \<Rightarrow> bool" where
  "users_inv us n \<longleftrightarrow> keyed uID n us \<and> distinct (map (nocase \<circ> uUsername) us) \<and>
     list_all (\<lambda>u. Role_Valid (uRole u)) us"

definition sessions_inv :: "User list \<Rightarrow> Session list \<Rightarrow> bool" where
  "sessions_inv us ss \<longleftrightarrow> distinct (map sToken ss) \<and> fk sUserID ss uID us \<and>
     list_all (\<lambda>s. stored_time (sExpiresAt s) = sExpiresAt s) ss"

definition isos_inv :: "ISOImage list \<Rightarrow> int \<Rightarrow> bool" where
  "isos_inv is n \<longleftrightarrow> keyed isID n is \<and> distinct (map isFilename is) \<and> list_all (\<lambda>i. iso_status_ok (isStatus i)) is"

definition profiles_inv :: "ISOImage list \<Rightarrow> Profile list \<Rightarrow> int \<Rightarrow> bool" where
  "profiles_inv is ps n \<longleftrightarrow> keyed pfID n ps \<and> distinct (map pfName ps) \<and> fk_null pfISOID ps isID is"

text \<open>The current version of a profile is its newest version row.\<close>

definition pf_head :: "Profile \<Rightarrow> int \<times> int" where
  "pf_head p = (pfID p, pfCurrentVersion p)"

definition newest_heads :: "Profile list \<Rightarrow> ProfileVersion list \<Rightarrow> bool" where
  "newest_heads ps vs \<longleftrightarrow>
     (\<forall>p\<in>set ps. \<forall>v\<in>set vs. pvProfileID v = pfID p \<longrightarrow> 1 \<le> pvVersion v \<and> pvVersion v \<le> pfCurrentVersion p)"

definition versions_inv :: "Profile list \<Rightarrow> ProfileVersion list \<Rightarrow> int \<Rightarrow> bool" where
  "versions_inv ps vs n \<longleftrightarrow> keyed pvID n vs \<and> distinct (map pv_key vs) \<and> fk pvProfileID vs pfID ps \<and>
     fk pf_head ps pv_key vs \<and> newest_heads ps vs"

definition hosts_inv :: "Profile list \<Rightarrow> Host list \<Rightarrow> int \<Rightarrow> bool" where
  "hosts_inv ps hs n \<longleftrightarrow> keyed hID n hs \<and> distinct (map hMAC hs) \<and>
     list_all (\<lambda>h. firmware_ok (hFirmware h)) hs \<and> fk_null hProfileID hs pfID ps"

definition installs_inv :: "Host list \<Rightarrow> ProfileVersion list \<Rightarrow> Installation list \<Rightarrow> int \<Rightarrow> bool" where
  "installs_inv hs vs ins n \<longleftrightarrow> keyed inID n ins \<and> fk inHostID ins hID hs \<and> fk inProfileVersionID ins pvID vs"

definition leases_inv :: "Lease list \<Rightarrow> bool" where
  "leases_inv ls \<longleftrightarrow> distinct (map leMAC ls) \<and> distinct (map leIP ls)"

text \<open>Audit entries name an existing account or, after its deletion, none.\<close>

definition audit_inv :: "User list \<Rightarrow> AuditEntry list \<Rightarrow> bool" where
  "audit_inv us as \<longleftrightarrow> fk_null auUserID as uID us"

definition db_inv :: "db \<Rightarrow> bool" where
  "db_inv d \<longleftrightarrow> users_inv (users d) (next_user d) \<and> sessions_inv (users d) (sessions d) \<and>
     isos_inv (isos d) (next_iso d) \<and> profiles_inv (isos d) (profiles d) (next_profile d) \<and>
     versions_inv (profiles d) (versions d) (next_version d) \<and>
     hosts_inv (profiles d) (hosts d) (next_host d) \<and>
     installs_inv (hosts d) (versions d) (installs d) (next_install d) \<and> leases_inv (leases d) \<and>
     audit_inv (users d) (audit d)"

lemmas table_invs = users_inv_def sessions_inv_def isos_inv_def profiles_inv_def versions_inv_def
  hosts_inv_def installs_inv_def leases_inv_def audit_inv_def

lemma empty_db_inv: "db_inv empty_db"
  by (simp add: db_inv_def empty_db_def table_invs keyed_empty newest_heads_def)

section \<open>Users, sessions and settings\<close>

lemma CreateUser_inv:
  assumes "db_inv d" and "CreateUser now d n p r l = Inr (d', u)"
  shows "db_inv d'"
  using assms
  by (auto simp: CreateUser_def Let_def db_inv_def users_inv_def sessions_inv_def audit_inv_def
      intro!: row_intros split: if_splits)

lemma list_all_update:
  "list_all Q rows \<Longrightarrow> (\<And>r. Q r \<Longrightarrow> Q (f r)) \<Longrightarrow> list_all Q (update_rows P f rows)"
  by (auto simp: list_all_iff set_update_rows)

lemma list_all_delete: "list_all Q rows \<Longrightarrow> list_all Q (delete_rows P rows)"
  by (simp add: list_all_iff)

lemma UpdateUserRole_inv: "db_inv d \<Longrightarrow> UpdateUserRole d i r = Inr (d', u) \<Longrightarrow> db_inv d'"
  by (auto simp: UpdateUserRole_def db_inv_def users_inv_def sessions_inv_def audit_inv_def keyed_update
      map_update_rows intro!: fk_update_target list_all_update simp del: has_key_iff split: if_splits)

lemma UpdateUserPassword_inv: "db_inv d \<Longrightarrow> UpdateUserPassword d i h = Inr (d', u) \<Longrightarrow> db_inv d'"
  by (auto simp: UpdateUserPassword_def db_inv_def users_inv_def sessions_inv_def audit_inv_def keyed_update
      map_update_rows intro!: fk_update_target fk_delete list_all_update list_all_delete distinct_delete
      simp del: has_key_iff split: if_splits)

lemma DeleteUser_inv: "db_inv d \<Longrightarrow> DeleteUser d i = Inr (d', u) \<Longrightarrow> db_inv d'"
  by (auto simp: DeleteUser_def db_inv_def users_inv_def sessions_inv_def audit_inv_def
      intro!: keyed_delete fk_cascade fk_set_null list_all_delete distinct_delete simp del: has_key_iff split: if_splits)

lemma AddAudit_inv: "db_inv d \<Longrightarrow> AddAudit now d u a e i = Inr (d', x) \<Longrightarrow> db_inv d'"
  by (auto simp: AddAudit_def db_inv_def audit_inv_def intro!: fk_null_insert split: if_splits)

lemma CreateSession_inv: "db_inv d \<Longrightarrow> CreateSession d s = Inr (d', u) \<Longrightarrow> db_inv d'"
  by (auto simp: CreateSession_def db_inv_def sessions_inv_def intro!: fk_insert split: if_splits)

lemma delete_sessions_inv: "sessions_inv us ss \<Longrightarrow> sessions_inv us (delete_rows P ss)"
  by (simp add: sessions_inv_def distinct_delete fk_delete list_all_delete)

lemma DeleteSession_inv: "db_inv d \<Longrightarrow> DeleteSession d t = Inr (d', u) \<Longrightarrow> db_inv d'"
  by (auto simp: DeleteSession_def db_inv_def delete_sessions_inv)

lemma DeleteExpiredSessions_inv: "db_inv d \<Longrightarrow> DeleteExpiredSessions d now = Inr (d', u) \<Longrightarrow> db_inv d'"
  by (auto simp: DeleteExpiredSessions_def db_inv_def delete_sessions_inv)

lemma SetSetting_inv: "db_inv d \<Longrightarrow> SetSetting d k v = Inr (d', u) \<Longrightarrow> db_inv d'"
  by (auto simp: SetSetting_def db_inv_def)

section \<open>Images and leases\<close>

lemma CreateISO_inv: "db_inv d \<Longrightarrow> CreateISO now d img = Inr (d', r) \<Longrightarrow> db_inv d'"
  by (auto simp: CreateISO_def Let_def db_inv_def isos_inv_def profiles_inv_def
      intro!: row_intros split: if_splits)

text \<open>Only the id, the name and the version matter to the tables that refer to a profile.\<close>

lemma newest_heads_update:
  "(\<And>p. pfID (f p) = pfID p) \<Longrightarrow> (\<And>p. pfCurrentVersion (f p) = pfCurrentVersion p) \<Longrightarrow>
     newest_heads ps vs \<Longrightarrow> newest_heads (update_rows P f ps) vs"
  by (auto simp: newest_heads_def set_update_rows)

lemma newest_heads_delete: "newest_heads ps vs \<Longrightarrow> newest_heads (delete_rows P ps) (delete_rows Q vs)"
  by (auto simp: newest_heads_def)

lemma newest_heads_update_versions:
  "(\<And>v. pv_key (f v) = pv_key v) \<Longrightarrow> newest_heads ps vs \<Longrightarrow> newest_heads ps (update_rows P f vs)"
  by (fastforce simp: newest_heads_def set_update_rows pv_key_def)

lemma update_profiles_inv:
  assumes "db_inv d" and "\<And>p. pfID (f p) = pfID p" and "\<And>p. pfCurrentVersion (f p) = pfCurrentVersion p"
  shows "versions_inv (update_rows P f (profiles d)) (versions d) (next_version d)"
    and "hosts_inv (update_rows P f (profiles d)) (hosts d) (next_host d)"
  using assms
  by (auto simp: db_inv_def versions_inv_def hosts_inv_def pf_head_def
      intro!: fk_update_target fk_update newest_heads_update)

lemma DeleteISO_inv:
  assumes "db_inv d" and "DeleteISO d i = Inr (d', u)"
  shows "db_inv d'"
proof -
  let ?ps = "update_rows (\<lambda>p. pfISOID p = Some i) (pfISOID_update (\<lambda>_. None)) (profiles d)"
  have d': "d' = d\<lparr>isos := delete_rows (\<lambda>r. isID r = i) (isos d), profiles := ?ps\<rparr>"
    using assms(2) by (auto simp: DeleteISO_def split: if_splits)
  have "profiles_inv (delete_rows (\<lambda>r. isID r = i) (isos d)) ?ps (next_profile d)"
    using assms(1)
    by (auto simp: db_inv_def profiles_inv_def keyed_update map_update_rows intro!: fk_set_null)
  then show ?thesis
    using assms(1) update_profiles_inv [OF assms(1), of "pfISOID_update (\<lambda>_. None)"]
    by (simp add: d' db_inv_def isos_inv_def keyed_delete distinct_delete list_all_delete)
qed

lemma db_inv_leases: "db_inv d \<Longrightarrow> leases_inv ls \<Longrightarrow> db_inv (d\<lparr>leases := ls\<rparr>)"
  by (simp add: db_inv_def)

lemma UpsertLease_inv:
  assumes "db_inv d" and "store_UpsertLease d l = Inr (d', u)"
  shows "db_inv d'"
proof -
  let ?r = "l\<lparr>leExpiresAt := stored_time (leExpiresAt l)\<rparr>"
  have inv: "distinct (map leMAC (leases d))" "distinct (map leIP (leases d))"
    using assms(1) by (simp_all add: db_inv_def leases_inv_def)
  have free: "\<not> list_ex (\<lambda>x. leIP x = leIP l \<and> leMAC x \<noteq> leMAC l) (leases d)"
    using assms(2) by (auto simp: store_UpsertLease_def Let_def split: if_splits)
  have "leases_inv (leases d')"
  proof (cases "has_key leMAC (leMAC l) (leases d)")
    case True
    have "distinct (map leIP (update_rows (\<lambda>x. leMAC x = leMAC l) (\<lambda>_. ?r) (leases d)))"
      by (rule distinct_update_unique_by [OF inv free]) simp
    moreover have "distinct (map leMAC (update_rows (\<lambda>x. leMAC x = leMAC l) (\<lambda>_. ?r) (leases d)))"
      by (rule distinct_update_unique_by [OF inv(1,1), of "leMAC l"]) (auto simp: list_ex_iff)
    ultimately show ?thesis
      using assms(2) True free by (auto simp: store_UpsertLease_def Let_def leases_inv_def simp del: has_key_iff)
  next
    case False
    then have "leases d' = leases d @ [?r]"
      using assms(2) free by (auto simp: store_UpsertLease_def Let_def simp del: has_key_iff)
    moreover have "leMAC l \<notin> leMAC ` set (leases d)" using False by simp
    moreover from this have "leIP l \<notin> leIP ` set (leases d)" using free by (auto simp: list_ex_iff image_iff)
    ultimately show ?thesis using inv by (simp add: leases_inv_def)
  qed
  moreover have "d' = d\<lparr>leases := leases d'\<rparr>"
    using assms(2) by (auto simp: store_UpsertLease_def Let_def split: if_splits)
  ultimately show ?thesis using assms(1) by (metis db_inv_leases)
qed

lemma DeleteLease_inv: "db_inv d \<Longrightarrow> store_DeleteLease d m = Inr (d', u) \<Longrightarrow> db_inv d'"
  by (auto simp: store_DeleteLease_def db_inv_def leases_inv_def distinct_delete)

section \<open>Profiles\<close>

lemma CreateProfile_inv:
  assumes inv: "db_inv d" and "CreateProfile now d name prov isoID config = Inr (d', p)"
  shows "db_inv d'"
proof -
  define v where "v = \<lparr>pvID = next_version d, pvProfileID = next_profile d, pvVersion = 1, pvConfig = config,
                    pvAnswerOverride = [], pvCreatedAt = stored_time now\<rparr>"
  have ok: "\<not> has_key pfName name (profiles d)" "iso_ref_ok d isoID"
    using assms(2) by (auto simp: CreateProfile_def split: if_splits)
  have p: "p = \<lparr>pfID = next_profile d, pfName = name, pfProvider = prov, pfISOID = isoID,
                    pfCurrentVersion = 1, pfCreatedAt = stored_time now, pfUpdatedAt = stored_time now\<rparr>"
    and d': "d' = d\<lparr>profiles := profiles d @ [p], next_profile := next_profile d + 1,
                     versions := versions d @ [v], next_version := next_version d + 1\<rparr>"
    using assms(2) ok unfolding v_def by (auto simp: CreateProfile_def Let_def)
  have vs: "versions_inv (profiles d) (versions d) (next_version d)"
    and ps: "profiles_inv (isos d) (profiles d) (next_profile d)"
    using inv by (simp_all add: db_inv_def)
  have fresh: "x \<in> set (versions d) \<Longrightarrow> pvProfileID x \<noteq> next_profile d" for x
    using vs ps by (fastforce simp: versions_inv_def profiles_inv_def fk_def keyed_def)
  have old: "x \<in> set (profiles d) \<Longrightarrow> pfID x \<noteq> next_profile d" for x
    using ps by (fastforce simp: profiles_inv_def keyed_def)
  have "versions_inv (profiles d @ [p]) (versions d @ [v]) (next_version d + 1)"
    unfolding versions_inv_def
  proof (intro conjI)
    show "keyed pvID (next_version d + 1) (versions d @ [v])"
      using vs by (intro keyed_insert) (simp_all add: versions_inv_def v_def)
    show "distinct (map pv_key (versions d @ [v]))"
      using vs by (intro distinct_insert) (auto simp: versions_inv_def pv_key_def v_def, metis fresh)
    show "fk pvProfileID (versions d @ [v]) pfID (profiles d @ [p])"
      using vs by (intro fk_insert fk_insert_target) (simp_all add: versions_inv_def v_def p)
    show "fk pf_head (profiles d @ [p]) pv_key (versions d @ [v])"
      using vs by (intro fk_insert fk_insert_target) (simp_all add: versions_inv_def v_def p pf_head_def pv_key_def)
    show "newest_heads (profiles d @ [p]) (versions d @ [v])"
      using vs fresh old by (fastforce simp: versions_inv_def newest_heads_def p v_def)
  qed
  moreover have "profiles_inv (isos d) (profiles d @ [p]) (next_profile d + 1)"
    using ps ok by (auto simp: profiles_inv_def p iso_ref_ok_def intro!: keyed_insert fk_null_insert)
  ultimately show ?thesis
    using inv by (auto simp: d' db_inv_def hosts_inv_def installs_inv_def intro: fk_insert_target)
qed

lemma max_version_bound:
  assumes "v \<in> set (versions d)" and "pvProfileID v = i"
  shows "pvVersion v \<le> max_version d i"
proof -
  let ?xs = "map pvVersion (filter (\<lambda>v. pvProfileID v = i) (versions d))"
  have "pvVersion v \<in> set (0 # ?xs)" using assms by auto
  then have "pvVersion v \<le> Max (set (0 # ?xs))" by (intro Max_ge) simp_all
  then show ?thesis unfolding max_version_def Max.set_eq_fold .
qed

lemma max_version_pos: "0 \<le> max_version d i"
proof -
  let ?xs = "map pvVersion (filter (\<lambda>v. pvProfileID v = i) (versions d))"
  have "0 \<le> Max (set (0 # ?xs))" by (intro Max_ge) simp_all
  then show ?thesis unfolding max_version_def Max.set_eq_fold .
qed

lemma appendProfileVersion_inv:
  assumes inv: "db_inv d" and app: "appendProfileVersion now d i config = Inr (d', u)"
  shows "db_inv d'"
proof -
  define n where "n = max_version d i + 1"
  define v where "v = \<lparr>pvID = next_version d, pvProfileID = i, pvVersion = n, pvConfig = config,
                    pvAnswerOverride = [], pvCreatedAt = stored_time now\<rparr>"
  define ps where "ps = update_rows (\<lambda>p. pfID p = i) (pfCurrentVersion_update (\<lambda>_. n)) (profiles d)"
  have ok: "\<not> has_key pv_key (i, n) (versions d)" "has_key pfID i (profiles d)"
    using app unfolding appendProfileVersion_def n_def by (auto simp: Let_def split: if_splits)
  have d': "d' = d\<lparr>versions := versions d @ [v], next_version := next_version d + 1, profiles := ps\<rparr>"
    using app ok unfolding appendProfileVersion_def n_def [symmetric] v_def ps_def
    by (simp add: Let_def)
  have vs: "versions_inv (profiles d) (versions d) (next_version d)" using inv by (simp add: db_inv_def)
  have upd: "fk f xs pfID ps" if "fk f xs pfID (profiles d)" for f :: "'b \<Rightarrow> int" and xs
    unfolding ps_def by (rule fk_update_target(1) [OF _ that]) simp
  have upd': "fk_null f xs pfID ps" if "fk_null f xs pfID (profiles d)" for f :: "'b \<Rightarrow> int option" and xs
    unfolding ps_def by (rule fk_update_target(2) [OF _ that]) simp
  have "versions_inv ps (versions d @ [v]) (next_version d + 1)"
    unfolding versions_inv_def
  proof (intro conjI)
    show "keyed pvID (next_version d + 1) (versions d @ [v])"
      using vs by (intro keyed_insert) (simp_all add: versions_inv_def v_def)
    show "distinct (map pv_key (versions d @ [v]))"
      using vs ok(1) by (intro distinct_insert) (simp_all add: versions_inv_def pv_key_def v_def)
    have "has_key pfID i ps"
      using ok(2) unfolding has_key_iff ps_def by (subst image_update_rows) simp_all
    then show "fk pvProfileID (versions d @ [v]) pfID ps"
      using vs by (intro fk_insert upd) (simp_all add: versions_inv_def v_def)
    show "fk pf_head ps pv_key (versions d @ [v])"
      using vs unfolding fk_def versions_inv_def
      by (auto simp: ps_def set_update_rows pf_head_def pv_key_def v_def)
    have "1 \<le> n" using max_version_pos [of d i] by (simp add: n_def)
    then show "newest_heads ps (versions d @ [v])"
      using vs max_version_bound [of _ d i]
      by (force simp: versions_inv_def newest_heads_def ps_def set_update_rows v_def n_def)
  qed
  moreover have "profiles_inv (isos d) ps (next_profile d)"
    using inv unfolding db_inv_def profiles_inv_def ps_def
    by (auto simp: keyed_update map_update_rows intro!: fk_update)
  ultimately show ?thesis
    using inv by (auto simp: d' db_inv_def hosts_inv_def installs_inv_def intro: fk_insert_target upd')
qed

lemma update_versions_inv:
  assumes "db_inv d" and "\<And>v. pvID (f v) = pvID v" and "\<And>v. pv_key (f v) = pv_key v"
  shows "db_inv (d\<lparr>versions := update_rows P f (versions d)\<rparr>)"
proof -
  have "pvProfileID (f v) = pvProfileID v" for v using assms(3) [of v] by (simp add: pv_key_def)
  then show ?thesis
    using assms
    by (auto simp: db_inv_def versions_inv_def installs_inv_def keyed_update map_update_rows
        intro!: fk_update fk_update_target newest_heads_update_versions)
qed

lemma editHeadVersion_inv:
  "db_inv d \<Longrightarrow> editHeadVersion d i config = Inr (d', u) \<Longrightarrow> db_inv d'"
  by (auto simp: editHeadVersion_def Let_def pv_key_def intro!: update_versions_inv
      split: option.splits if_splits)

lemma SetAnswerOverride_inv:
  "db_inv d \<Longrightarrow> SetAnswerOverride d i v content = Inr (d', u) \<Longrightarrow> db_inv d'"
  by (auto simp: SetAnswerOverride_def pv_key_def intro!: update_versions_inv split: if_splits)

lemma UpdateProfile_inv:
  assumes inv: "db_inv d" and upd: "UpdateProfile now d i name isoID config nv = Inr (d', p)"
  shows "db_inv d'"
proof -
  let ?f = "\<lambda>p. p\<lparr>pfName := name, pfISOID := isoID, pfUpdatedAt := stored_time now\<rparr>"
  define d1 where "d1 = d\<lparr>profiles := update_rows (\<lambda>p. pfID p = i) ?f (profiles d)\<rparr>"
  have ok: "\<not> taken_by_other pfID pfName i name (profiles d)" "iso_ref_ok d isoID"
    using upd by (auto simp: UpdateProfile_def simp del: has_key_iff split: if_splits)
  have ps: "profiles_inv (isos d) (profiles d) (next_profile d)" using inv by (simp add: db_inv_def)
  have "profiles_inv (isos d) (update_rows (\<lambda>p. pfID p = i) ?f (profiles d)) (next_profile d)"
    unfolding profiles_inv_def
  proof (intro conjI)
    show "keyed pfID (next_profile d) (update_rows (\<lambda>p. pfID p = i) ?f (profiles d))"
      using ps by (simp add: profiles_inv_def keyed_update)
    show "distinct (map pfName (update_rows (\<lambda>p. pfID p = i) ?f (profiles d)))"
      using ps ok(1) by (intro distinct_update_unique) (simp_all add: profiles_inv_def keyed_def)
    show "fk_null pfISOID (update_rows (\<lambda>p. pfID p = i) ?f (profiles d)) isID (isos d)"
      using ps ok(2) by (auto simp: profiles_inv_def fk_null_def set_update_rows iso_ref_ok_def split: option.splits)
  qed
  then have d1: "db_inv d1"
    using inv update_profiles_inv [OF inv, of ?f] by (simp add: d1_def db_inv_def)
  have "(case config of None \<Rightarrow> Inr (d1, ())
      | Some c \<Rightarrow> if nv then appendProfileVersion now d1 i c else editHeadVersion d1 i c) = Inr (d', ())"
    using upd ok by (auto simp: UpdateProfile_def Let_def d1_def [symmetric] simp del: has_key_iff
        split: if_splits sum.splits)
  then show ?thesis
    using d1 appendProfileVersion_inv [OF d1] editHeadVersion_inv [OF d1]
    by (auto split: option.splits if_splits)
qed

lemma DeleteProfile_inv:
  assumes inv: "db_inv d" and del: "DeleteProfile d i = Inr (d', u)"
  shows "db_inv d'"
proof -
  let ?ps = "delete_rows (\<lambda>p. pfID p = i) (profiles d)"
  let ?vs = "delete_rows (\<lambda>v. pvProfileID v = i) (versions d)"
  let ?hs = "update_rows (\<lambda>h. hProfileID h = Some i) (hProfileID_update (\<lambda>_. None)) (hosts d)"
  have d': "d' = d\<lparr>profiles := ?ps, versions := ?vs, hosts := ?hs\<rparr>"
    and free: "\<not> list_ex (\<lambda>v. pvProfileID v = i \<and> has_key inProfileVersionID (pvID v) (installs d)) (versions d)"
    using del by (auto simp: DeleteProfile_def simp del: has_key_iff split: if_splits)
  have "fk pf_head ?ps pv_key ?vs"
    using inv by (force simp: db_inv_def versions_inv_def fk_def pf_head_def pv_key_def image_iff)
  then have "versions_inv ?ps ?vs (next_version d)"
    using inv by (auto simp: db_inv_def versions_inv_def
        intro!: keyed_delete distinct_delete fk_cascade newest_heads_delete)
  moreover have "hosts_inv ?ps ?hs (next_host d)"
    using inv by (auto simp: db_inv_def hosts_inv_def keyed_update map_update_rows
        intro!: fk_set_null list_all_update)
  moreover have "installs_inv ?hs ?vs (installs d) (next_install d)"
    using inv free by (auto simp: db_inv_def installs_inv_def list_ex_iff
        intro!: fk_update_target fk_delete_unused simp del: has_key_iff)
  moreover have "profiles_inv (isos d) ?ps (next_profile d)"
    using inv by (auto simp: db_inv_def profiles_inv_def intro!: keyed_delete distinct_delete fk_delete)
  ultimately show ?thesis using inv by (simp add: d' db_inv_def)
qed

section \<open>Hosts and installations\<close>

lemma CreateHost_inv:
  assumes "db_inv d" and "CreateHost now d h = Inr (d', r)"
  shows "db_inv d'"
  using assms
  by (auto simp: CreateHost_def Let_def db_inv_def hosts_inv_def installs_inv_def profile_ref_ok_def
      intro!: keyed_insert distinct_insert fk_null_insert fk_insert_target
      split: if_splits option.splits)

lemma UpdateHost_inv:
  assumes inv: "db_inv d" and upd: "UpdateHost now d h = Inr (d', r)"
  shows "db_inv d'"
proof -
  let ?f = "\<lambda>r. h\<lparr>hID := hID r, hCreatedAt := hCreatedAt r, hUpdatedAt := stored_time now\<rparr>"
  let ?hs = "update_rows (\<lambda>r. hID r = hID h) ?f (hosts d)"
  have d': "d' = d\<lparr>hosts := ?hs\<rparr>" and ok: "\<not> taken_by_other hID hMAC (hID h) (hMAC h) (hosts d)"
    "firmware_ok (hFirmware h)" "profile_ref_ok d (hProfileID h)"
    using upd by (auto simp: UpdateHost_def Let_def simp del: has_key_iff split: if_splits sum.splits)
  have hs: "hosts_inv (profiles d) (hosts d) (next_host d)" using inv by (simp add: db_inv_def)
  have "hosts_inv (profiles d) ?hs (next_host d)"
    unfolding hosts_inv_def
  proof (intro conjI)
    show "keyed hID (next_host d) ?hs" using hs by (simp add: hosts_inv_def keyed_update)
    show "distinct (map hMAC ?hs)"
      using hs ok(1) by (intro distinct_update_unique) (simp_all add: hosts_inv_def keyed_def)
    show "list_all (\<lambda>h. firmware_ok (hFirmware h)) ?hs"
      using hs ok(2) by (intro list_all_update) (simp_all add: hosts_inv_def)
    show "fk_null hProfileID ?hs pfID (profiles d)"
      using hs ok(3) by (auto simp: hosts_inv_def fk_null_def set_update_rows profile_ref_ok_def split: option.splits)
  qed
  moreover have "installs_inv ?hs (versions d) (installs d) (next_install d)"
    using inv by (auto simp: db_inv_def installs_inv_def intro!: fk_update_target)
  ultimately show ?thesis using inv by (simp add: d' db_inv_def)
qed

lemma DeleteHost_inv: "db_inv d \<Longrightarrow> DeleteHost d i = Inr (d', u) \<Longrightarrow> db_inv d'"
  by (auto simp: DeleteHost_def db_inv_def hosts_inv_def installs_inv_def
      intro!: keyed_delete distinct_delete fk_cascade fk_delete(2) list_all_delete
      intro: fk_delete(1) simp del: has_key_iff split: if_splits)

lemma CreateInstallation_inv: "db_inv d \<Longrightarrow> CreateInstallation now d h v t = Inr (d', r) \<Longrightarrow> db_inv d'"
  by (auto simp: CreateInstallation_def Let_def db_inv_def installs_inv_def
      intro!: keyed_insert fk_insert simp del: has_key_iff split: if_splits)

lemma update_installs_inv:
  "db_inv d \<Longrightarrow> (\<And>n. inID (f n) = inID n) \<Longrightarrow> (\<And>n. inHostID (f n) = inHostID n) \<Longrightarrow>
     (\<And>n. inProfileVersionID (f n) = inProfileVersionID n) \<Longrightarrow>
     db_inv (d\<lparr>installs := update_rows P f (installs d)\<rparr>)"
  by (auto simp: db_inv_def installs_inv_def keyed_update intro!: fk_update)

lemma MarkInstallationStarted_inv: "db_inv d \<Longrightarrow> MarkInstallationStarted d i now = Inr (d', u) \<Longrightarrow> db_inv d'"
  by (auto simp: MarkInstallationStarted_def intro!: update_installs_inv)

lemma MarkInstallationFinished_inv:
  "db_inv d \<Longrightarrow> MarkInstallationFinished d i st l now = Inr (d', u) \<Longrightarrow> db_inv d'"
  by (auto simp: MarkInstallationFinished_def intro!: update_installs_inv split: if_splits)

lemma DeleteInstallation_inv: "db_inv d \<Longrightarrow> DeleteInstallation d i = Inr (d', u) \<Longrightarrow> db_inv d'"
  by (auto simp: DeleteInstallation_def db_inv_def installs_inv_def intro!: keyed_delete fk_delete split: if_splits)

section \<open>All writes\<close>

inductive db_step :: "db \<Rightarrow> db \<Rightarrow> bool" where
  step_CreateUser: "CreateUser now d n p r l = Inr (d', u) \<Longrightarrow> db_step d d'"
| step_UpdateUserRole: "UpdateUserRole d i r = Inr (d', x) \<Longrightarrow> db_step d d'"
| step_UpdateUserPassword: "UpdateUserPassword d i h = Inr (d', x) \<Longrightarrow> db_step d d'"
| step_DeleteUser: "DeleteUser d i = Inr (d', x) \<Longrightarrow> db_step d d'"
| step_AddAudit: "AddAudit now d au a e i = Inr (d', x) \<Longrightarrow> db_step d d'"
| step_CreateSession: "CreateSession d s = Inr (d', x) \<Longrightarrow> db_step d d'"
| step_DeleteSession: "DeleteSession d t = Inr (d', x) \<Longrightarrow> db_step d d'"
| step_DeleteExpiredSessions: "DeleteExpiredSessions d now = Inr (d', x) \<Longrightarrow> db_step d d'"
| step_SetSetting: "SetSetting d k v = Inr (d', x) \<Longrightarrow> db_step d d'"
| step_CreateISO: "CreateISO now d img = Inr (d', r') \<Longrightarrow> db_step d d'"
| step_DeleteISO: "DeleteISO d i = Inr (d', x) \<Longrightarrow> db_step d d'"
| step_CreateProfile: "CreateProfile now d n p isoID c = Inr (d', pr) \<Longrightarrow> db_step d d'"
| step_UpdateProfile: "UpdateProfile now d i n isoID c nv = Inr (d', pr) \<Longrightarrow> db_step d d'"
| step_DeleteProfile: "DeleteProfile d i = Inr (d', x) \<Longrightarrow> db_step d d'"
| step_SetAnswerOverride: "SetAnswerOverride d i ver c = Inr (d', x) \<Longrightarrow> db_step d d'"
| step_CreateHost: "CreateHost now d h = Inr (d', hr) \<Longrightarrow> db_step d d'"
| step_UpdateHost: "UpdateHost now d h = Inr (d', hr) \<Longrightarrow> db_step d d'"
| step_DeleteHost: "DeleteHost d i = Inr (d', x) \<Longrightarrow> db_step d d'"
| step_CreateInstallation: "CreateInstallation now d hi pv t = Inr (d', ir) \<Longrightarrow> db_step d d'"
| step_MarkInstallationStarted: "MarkInstallationStarted d i now = Inr (d', x) \<Longrightarrow> db_step d d'"
| step_MarkInstallationFinished: "MarkInstallationFinished d i st l now = Inr (d', x) \<Longrightarrow> db_step d d'"
| step_DeleteInstallation: "DeleteInstallation d i = Inr (d', x) \<Longrightarrow> db_step d d'"
| step_UpsertLease: "store_UpsertLease d le = Inr (d', x) \<Longrightarrow> db_step d d'"
| step_DeleteLease: "store_DeleteLease d m = Inr (d', x) \<Longrightarrow> db_step d d'"

lemmas store_op_invs = CreateUser_inv UpdateUserRole_inv UpdateUserPassword_inv DeleteUser_inv AddAudit_inv
  CreateSession_inv DeleteSession_inv DeleteExpiredSessions_inv SetSetting_inv CreateISO_inv DeleteISO_inv
  CreateProfile_inv UpdateProfile_inv DeleteProfile_inv SetAnswerOverride_inv CreateHost_inv UpdateHost_inv
  DeleteHost_inv CreateInstallation_inv MarkInstallationStarted_inv MarkInstallationFinished_inv
  DeleteInstallation_inv UpsertLease_inv DeleteLease_inv

lemma db_step_inv: "db_step d d' \<Longrightarrow> db_inv d \<Longrightarrow> db_inv d'"
  by (induction rule: db_step.induct) (rule store_op_invs, assumption, assumption)+

lemma db_steps_inv: "db_step\<^sup>*\<^sup>* d d' \<Longrightarrow> db_inv d \<Longrightarrow> db_inv d'"
  by (induction rule: rtranclp_induct) (auto intro: db_step_inv)

end
