(* ===== verification/Store_Facts.thy ===== *)
theory Store_Facts
  imports Store_Inv
begin

text \<open>
  What the repositories promise their callers: history stays accurate, sessions end when they
  must and not before, and the versioning rules of profiles.
\<close>

section \<open>What a write does to versions and installations\<close>

text \<open>An installation keeps its id, host and version; a version keeps its id, number and text.\<close>

definition same_install :: "Installation \<Rightarrow> Installation \<Rightarrow> bool" where
  "same_install i i' \<longleftrightarrow> inID i' = inID i \<and> inHostID i' = inHostID i \<and>
     inProfileVersionID i' = inProfileVersionID i \<and> inToken i' = inToken i"

definition same_version :: "ProfileVersion \<Rightarrow> ProfileVersion \<Rightarrow> bool" where
  "same_version v v' \<longleftrightarrow> pvID v' = pvID v \<and> pvProfileID v' = pvProfileID v \<and>
     pvVersion v' = pvVersion v \<and> pvConfig v' = pvConfig v"

definition installs_kept :: "db \<Rightarrow> db \<Rightarrow> bool" where
  "installs_kept d d' \<longleftrightarrow> next_install d \<le> next_install d' \<and>
     (\<forall>i'\<in>set (installs d'). next_install d \<le> inID i' \<or> (\<exists>i\<in>set (installs d). same_install i i'))"

definition versions_kept :: "db \<Rightarrow> db \<Rightarrow> bool" where
  "versions_kept d d' \<longleftrightarrow>
     (\<forall>i\<in>set (installs d). \<forall>v\<in>set (versions d). inProfileVersionID i = pvID v \<longrightarrow>
        (\<exists>v'\<in>set (versions d'). same_version v v'))"

lemma same_refl [simp]: "same_install i i" "same_version v v"
  by (simp_all add: same_install_def same_version_def)

lemma installs_kept_same [simp]: "installs d' = installs d \<Longrightarrow> next_install d' = next_install d \<Longrightarrow> installs_kept d d'"
  unfolding installs_kept_def by (metis order_refl same_refl(1))

lemma versions_kept_same [simp]: "versions d' = versions d \<Longrightarrow> versions_kept d d'"
  unfolding versions_kept_def by (metis same_refl(2))

lemma versions_kept_append [simp]: "versions d' = versions d @ vs \<Longrightarrow> versions_kept d d'"
  unfolding versions_kept_def by (metis UnCI set_append same_refl(2))

lemma installs_kept_image:
  assumes "\<And>i'. i' \<in> set (installs d') \<Longrightarrow> \<exists>i\<in>set (installs d). same_install i i'"
    and "next_install d' = next_install d"
  shows "installs_kept d d'"
  using assms by (simp add: installs_kept_def)

lemma installs_kept_update:
  assumes "installs d' = update_rows P f (installs d)" and "next_install d' = next_install d"
    and "\<And>i. same_install i (f i)"
  shows "installs_kept d d'"
proof (rule installs_kept_image [OF _ assms(2)])
  fix i' assume "i' \<in> set (installs d')"
  then obtain i where "i \<in> set (installs d)" "i' = (if P i then f i else i)"
    by (auto simp: assms(1) set_update_rows)
  then show "\<exists>i\<in>set (installs d). same_install i i'" using assms(3) by (intro bexI [of _ i]) simp_all
qed

lemma installs_kept_delete:
  assumes "installs d' = delete_rows P (installs d)" and "next_install d' = next_install d"
  shows "installs_kept d d'"
proof (rule installs_kept_image [OF _ assms(2)])
  fix i' assume "i' \<in> set (installs d')"
  then show "\<exists>i\<in>set (installs d). same_install i i'" by (intro bexI [of _ i']) (simp_all add: assms(1))
qed

lemma versions_kept_update:
  assumes "versions d' = update_rows P f (versions d)"
    and "\<And>v i. v \<in> set (versions d) \<Longrightarrow> P v \<Longrightarrow> i \<in> set (installs d) \<Longrightarrow> inProfileVersionID i = pvID v \<Longrightarrow>
        same_version v (f v)"
  shows "versions_kept d d'"
  unfolding versions_kept_def
proof (intro ballI impI)
  fix i v assume i: "i \<in> set (installs d)" "v \<in> set (versions d)" "inProfileVersionID i = pvID v"
  have "(if P v then f v else v) \<in> set (versions d')"
    unfolding assms(1) set_update_rows by (rule imageI [OF i(2)])
  moreover have "same_version v (if P v then f v else v)"
    using assms(2) [OF i(2) _ i(1,3)] by simp
  ultimately show "\<exists>v'\<in>set (versions d'). same_version v v'" by (rule rev_bexI)
qed

lemma editHeadVersion_kept:
  assumes "editHeadVersion d i c = Inr (d', u)"
  shows "installs_kept d d' \<and> versions_kept d d'"
proof -
  obtain head :: ProfileVersion where d': "d' = d\<lparr>versions := update_rows (\<lambda>v. pvID v = pvID head) (pvConfig_update (\<lambda>_. c)) (versions d)\<rparr>"
    and none: "filter (\<lambda>i. inProfileVersionID i = pvID head) (installs d) = []"
    using assms by (auto simp: editHeadVersion_def Let_def split: option.splits if_splits)
  have "versions_kept d d'"
    by (rule versions_kept_update [of _ "\<lambda>v. pvID v = pvID head" "pvConfig_update (\<lambda>_. c)"])
       (use none in \<open>auto simp: d' filter_empty_conv\<close>)
  then show ?thesis by (simp add: d')
qed

lemma appendProfileVersion_kept:
  "appendProfileVersion now d i c = Inr (d', u) \<Longrightarrow> installs_kept d d' \<and> versions_kept d d'"
  by (auto simp: appendProfileVersion_def Let_def simp del: has_key_iff split: if_splits)

lemma UpdateProfile_kept:
  assumes "UpdateProfile now d i name isoID config nv = Inr (d', p)"
  shows "installs_kept d d' \<and> versions_kept d d'"
proof -
  define d1 where "d1 = d\<lparr>profiles := update_rows (\<lambda>p. pfID p = i)
      (\<lambda>p. p\<lparr>pfName := name, pfISOID := isoID, pfUpdatedAt := stored_time now\<rparr>) (profiles d)\<rparr>"
  have d1: "installs d1 = installs d" "versions d1 = versions d" "next_install d1 = next_install d"
    by (simp_all add: d1_def)
  have step: "(case config of None \<Rightarrow> Inr (d1, ())
      | Some c \<Rightarrow> if nv then appendProfileVersion now d1 i c else editHeadVersion d1 i c) = Inr (d', ())"
    using assms by (auto simp: UpdateProfile_def Let_def d1_def [symmetric] simp del: has_key_iff
        split: if_splits sum.splits)
  have "installs_kept d1 d' \<and> versions_kept d1 d'"
    using step appendProfileVersion_kept [of now d1 i] editHeadVersion_kept [of d1 i]
    by (auto split: option.splits if_splits)
  then show ?thesis by (simp add: installs_kept_def versions_kept_def d1)
qed

lemma DeleteProfile_kept:
  assumes "DeleteProfile d i = Inr (d', u)"
  shows "installs_kept d d' \<and> versions_kept d d'"
proof -
  have d': "installs d' = installs d" "next_install d' = next_install d"
      "versions d' = delete_rows (\<lambda>v. pvProfileID v = i) (versions d)"
    and free: "\<And>v. v \<in> set (versions d) \<Longrightarrow> pvProfileID v = i \<Longrightarrow> \<not> has_key inProfileVersionID (pvID v) (installs d)"
    using assms by (auto simp: DeleteProfile_def list_ex_iff simp del: has_key_iff split: if_splits)
  have "\<exists>v'\<in>set (versions d'). same_version v v'"
    if "j \<in> set (installs d)" "v \<in> set (versions d)" "inProfileVersionID j = pvID v" for j v
  proof (intro bexI [of _ v])
    have "has_key inProfileVersionID (pvID v) (installs d)" using that(1,3) by force
    then have "pvProfileID v \<noteq> i" using free [OF that(2)] by blast
    then show "v \<in> set (versions d')" using that(2) by (simp add: d')
  qed simp
  then show ?thesis using d' by (simp add: versions_kept_def)
qed

lemma SetAnswerOverride_kept:
  assumes "SetAnswerOverride d i n c = Inr (d', u)"
  shows "installs_kept d d' \<and> versions_kept d d'"
proof -
  have d': "d' = d\<lparr>versions := update_rows (\<lambda>v. pv_key v = (i, n)) (pvAnswerOverride_update (\<lambda>_. c)) (versions d)\<rparr>"
    using assms by (auto simp: SetAnswerOverride_def split: if_splits)
  have "versions_kept d d'"
    by (rule versions_kept_update [of _ "\<lambda>v. pv_key v = (i, n)" "pvAnswerOverride_update (\<lambda>_. c)"])
       (simp_all add: d' same_version_def)
  then show ?thesis by (simp add: d')
qed

lemma installs_kept_append:
  assumes "installs d' = installs d @ [r]" and "inID r = next_install d" and "next_install d' = next_install d + 1"
  shows "installs_kept d d'"
  unfolding installs_kept_def
proof (intro conjI ballI)
  fix i' assume "i' \<in> set (installs d')"
  then consider "i' \<in> set (installs d)" | "i' = r" using assms(1) by auto
  then show "next_install d \<le> inID i' \<or> (\<exists>i\<in>set (installs d). same_install i i')"
  proof cases
    case 1
    then have "\<exists>i\<in>set (installs d). same_install i i'" by (rule rev_bexI) simp
    then show ?thesis ..
  qed (simp add: assms(2))
qed (simp add: assms(3))

lemma CreateInstallation_kept:
  "CreateInstallation now d h v t = Inr (d', r) \<Longrightarrow> installs_kept d d' \<and> versions_kept d d'"
  by (auto simp: CreateInstallation_def Let_def simp del: has_key_iff split: if_splits
      intro!: installs_kept_append)

lemma install_updates_kept:
  "MarkInstallationStarted d i now = Inr (d', u) \<Longrightarrow> installs_kept d d' \<and> versions_kept d d'"
  "MarkInstallationFinished d i st l now = Inr (d', u) \<Longrightarrow> installs_kept d d' \<and> versions_kept d d'"
  by (auto simp: MarkInstallationStarted_def MarkInstallationFinished_def same_install_def
      intro!: installs_kept_update split: if_splits)

lemma install_deletes_kept:
  "DeleteInstallation d i = Inr (d', u) \<Longrightarrow> installs_kept d d' \<and> versions_kept d d'"
  "DeleteHost d i = Inr (d', u) \<Longrightarrow> installs_kept d d' \<and> versions_kept d d'"
  by (auto simp: DeleteInstallation_def DeleteHost_def simp del: has_key_iff
      intro!: installs_kept_delete split: if_splits)

text \<open>The writes that touch neither table.\<close>

lemma other_writes_kept:
  "CreateUser now d n p r l = Inr (d', us) \<Longrightarrow> installs_kept d d' \<and> versions_kept d d'"
  "UpdateUserRole d i r = Inr (d', u) \<Longrightarrow> installs_kept d d' \<and> versions_kept d d'"
  "UpdateUserPassword d i h = Inr (d', u) \<Longrightarrow> installs_kept d d' \<and> versions_kept d d'"
  "DeleteUser d i = Inr (d', u) \<Longrightarrow> installs_kept d d' \<and> versions_kept d d'"
  "AddAudit now d au a e ent = Inr (d', u) \<Longrightarrow> installs_kept d d' \<and> versions_kept d d'"
  "CreateSession d s = Inr (d', u) \<Longrightarrow> installs_kept d d' \<and> versions_kept d d'"
  "DeleteSession d t = Inr (d', u) \<Longrightarrow> installs_kept d d' \<and> versions_kept d d'"
  "DeleteExpiredSessions d now = Inr (d', u) \<Longrightarrow> installs_kept d d' \<and> versions_kept d d'"
  "SetSetting d k v = Inr (d', u) \<Longrightarrow> installs_kept d d' \<and> versions_kept d d'"
  by (auto simp: CreateUser_def UpdateUserRole_def UpdateUserPassword_def DeleteUser_def AddAudit_def
      CreateSession_def DeleteSession_def DeleteExpiredSessions_def SetSetting_def Let_def
      simp del: has_key_iff split: if_splits)

lemma other_writes_kept':
  "CreateISO now d img = Inr (d', im) \<Longrightarrow> installs_kept d d' \<and> versions_kept d d'"
  "DeleteISO d i = Inr (d', u) \<Longrightarrow> installs_kept d d' \<and> versions_kept d d'"
  "CreateProfile now d n prov isoID c = Inr (d', p) \<Longrightarrow> installs_kept d d' \<and> versions_kept d d'"
  "CreateHost now d h = Inr (d', r) \<Longrightarrow> installs_kept d d' \<and> versions_kept d d'"
  "UpdateHost now d h = Inr (d', r) \<Longrightarrow> installs_kept d d' \<and> versions_kept d d'"
  "store_UpsertLease d l = Inr (d', u) \<Longrightarrow> installs_kept d d' \<and> versions_kept d d'"
  "store_DeleteLease d m = Inr (d', u) \<Longrightarrow> installs_kept d d' \<and> versions_kept d d'"
  by (auto simp: CreateISO_def DeleteISO_def CreateProfile_def CreateHost_def UpdateHost_def
      store_UpsertLease_def store_DeleteLease_def Let_def
      simp del: has_key_iff split: if_splits sum.splits)

lemmas writes_kept = UpdateProfile_kept DeleteProfile_kept SetAnswerOverride_kept CreateInstallation_kept
  install_updates_kept install_deletes_kept other_writes_kept other_writes_kept'

lemma db_step_kept: "db_step d d' \<Longrightarrow> installs_kept d d' \<and> versions_kept d d'"
  by (induction rule: db_step.induct) (erule writes_kept)+

section \<open>History\<close>

lemma same_install_trans: "same_install i j \<Longrightarrow> same_install j k \<Longrightarrow> same_install i k"
  by (simp add: same_install_def)

lemma same_version_trans: "same_version v w \<Longrightarrow> same_version w x \<Longrightarrow> same_version v x"
  by (simp add: same_version_def)

lemma history_kept:
  assumes "db_step\<^sup>*\<^sup>* d d'" and inv: "db_inv d"
  shows "next_install d \<le> next_install d' \<and>
    (\<forall>i\<in>set (installs d). \<forall>i'\<in>set (installs d'). inID i' = inID i \<longrightarrow>
       same_install i i' \<and>
       (\<forall>v\<in>set (versions d). inProfileVersionID i = pvID v \<longrightarrow> (\<exists>v'\<in>set (versions d'). same_version v v')))"
  using assms(1)
proof (induction rule: rtranclp_induct)
  case base
  have "keyed inID (next_install d) (installs d)" using inv by (simp add: db_inv_def installs_inv_def)
  from keyed_unique [OF this] show ?case
    by (metis order_refl same_refl)
next
  case (step e d')
  have k: "installs_kept e d'" "versions_kept e d'" using db_step_kept [OF step.hyps(2)] by blast+
  have bound: "i \<in> set (installs d) \<Longrightarrow> inID i < next_install d" for i
    using inv by (simp add: db_inv_def installs_inv_def keyed_def)
  show ?case
  proof (intro conjI ballI impI)
    show "next_install d \<le> next_install d'" using step.IH k(1) by (auto simp: installs_kept_def)
  next
    fix i i' assume i: "i \<in> set (installs d)" "i' \<in> set (installs d')" "inID i' = inID i"
    have "\<not> next_install e \<le> inID i'" using bound [OF i(1)] step.IH i(3) by auto
    then obtain j where j: "j \<in> set (installs e)" "same_install j i'"
      using k(1) i(2) unfolding installs_kept_def by blast
    then have "inID j = inID i" using i(3) by (simp add: same_install_def)
    then have ij: "same_install i j"
      and vs: "\<And>v. v \<in> set (versions d) \<Longrightarrow> inProfileVersionID i = pvID v \<Longrightarrow> \<exists>w\<in>set (versions e). same_version v w"
      using step.IH i(1) j(1) by blast+
    show "same_install i i'" using ij j(2) by (rule same_install_trans)
    fix v assume v: "v \<in> set (versions d)" "inProfileVersionID i = pvID v"
    obtain w where w: "w \<in> set (versions e)" "same_version v w" using vs [OF v] by blast
    have "inProfileVersionID j = pvID w" using ij w(2) v(2) by (simp add: same_install_def same_version_def)
    then obtain v' where "v' \<in> set (versions d')" "same_version w v'"
      using k(2) j(1) w(1) unfolding versions_kept_def by blast
    with w(2) show "\<exists>v'\<in>set (versions d'). same_version v v'" using same_version_trans by blast
  qed
qed

section \<open>Sessions\<close>

lemma SessionByToken_iff:
  "SessionByToken d t now = Inr s \<longleftrightarrow> row_by sToken t (sessions d) = Some s \<and> now < sExpiresAt s"
  by (auto simp: SessionByToken_def split: option.splits if_splits)

lemma SessionByToken_error: "SessionByToken d t now = Inl e \<Longrightarrow> e = ErrNotFound"
  by (auto simp: SessionByToken_def split: option.splits if_splits)

lemma row_by_delete_distinct:
  assumes "distinct (map key rows)"
  shows "row_by key i (delete_rows P rows) =
    (case row_by key i rows of None \<Rightarrow> None | Some r \<Rightarrow> if P r then None else Some r)"
  using assms
proof (induction rows)
  case (Cons x rows)
  show ?case
  proof (cases "key x = i")
    case True
    then have "row_by key i rows = None" using Cons.prems by (auto simp: row_by_None)
    then show ?thesis using Cons True by (auto simp: row_by_def delete_rows_def)
  qed (use Cons in \<open>auto simp: row_by_def delete_rows_def\<close>)
qed (simp add: row_by_def delete_rows_def)

text \<open>The housekeeping loop and the lookup agree on what has expired.\<close>

lemma DeleteExpiredSessions_lookup:
  assumes "db_inv d" and "DeleteExpiredSessions d now = Inr (d', u)" and "now \<le> later"
  shows "SessionByToken d' t later = SessionByToken d t later"
    and "row_by sToken t (sessions d') = Some s \<Longrightarrow> SessionByToken d t now = Inr s"
proof -
  have inv: "distinct (map sToken (sessions d))"
    "\<And>s. s \<in> set (sessions d) \<Longrightarrow> stored_time (sExpiresAt s) = sExpiresAt s"
    using assms(1) by (simp_all add: db_inv_def sessions_inv_def list_all_iff)
  have d': "row_by sToken t (sessions d') = (case row_by sToken t (sessions d) of None \<Rightarrow> None
      | Some s \<Rightarrow> if sExpiresAt s \<le> stored_time now then None else Some s)"
    using assms(2) by (auto simp: DeleteExpiredSessions_def row_by_delete_distinct [OF inv(1)] cong: option.case_cong)
  have agree: "sExpiresAt s \<le> stored_time now \<longleftrightarrow> sExpiresAt s \<le> now"
    if "row_by sToken t (sessions d) = Some s" for s
    using stored_le_iff [of "sExpiresAt s" now] inv(2) [of s] row_by_Some [OF that] by simp
  show "SessionByToken d' t later = SessionByToken d t later"
    using agree assms(3) by (auto simp: SessionByToken_def d' split: option.splits)
  show "row_by sToken t (sessions d') = Some s \<Longrightarrow> SessionByToken d t now = Inr s"
    using agree by (auto simp: SessionByToken_iff d' split: option.splits if_splits)
qed

text \<open>A new password or a deleted account ends every session of the user and no other.\<close>

lemma revoke_sessions_lookup:
  assumes "db_inv d" and "sessions d' = delete_rows (\<lambda>s. sUserID s = i) (sessions d)"
  shows "SessionByToken d' t now = Inr s \<longleftrightarrow> SessionByToken d t now = Inr s \<and> sUserID s \<noteq> i"
proof -
  have inv: "distinct (map sToken (sessions d))" using assms(1) by (simp add: db_inv_def sessions_inv_def)
  show ?thesis by (auto simp: SessionByToken_iff assms(2) row_by_delete_distinct [OF inv] split: option.splits)
qed

section \<open>Profiles\<close>

text \<open>The head of a profile is a row, and no version of it is newer.\<close>

lemma head_version_exists:
  assumes "db_inv d" and "row_by pfID i (profiles d) = Some p"
  shows "\<exists>v. head_version d i = Some v \<and> v \<in> set (versions d) \<and> pvProfileID v = i \<and> pvVersion v = pfCurrentVersion p"
proof -
  have p: "p \<in> set (profiles d)" "pfID p = i" using row_by_Some [OF assms(2)] by simp_all
  have "(i, pfCurrentVersion p) \<in> pv_key ` set (versions d)"
    using assms(1) p by (auto simp: db_inv_def versions_inv_def fk_def pf_head_def)
  then obtain v where "row_by pv_key (i, pfCurrentVersion p) (versions d) = Some v"
    using row_by_None [of pv_key _ "versions d"] by (metis option.exhaust)
  with row_by_Some [OF this] assms(2) show ?thesis by (auto simp: head_version_def pv_key_def)
qed

lemma max_version_head:
  assumes "db_inv d" and "row_by pfID i (profiles d) = Some p"
  shows "max_version d i = pfCurrentVersion p"
proof (rule antisym)
  have p: "p \<in> set (profiles d)" "pfID p = i" using row_by_Some [OF assms(2)] by simp_all
  obtain v where v: "v \<in> set (versions d)" "pvProfileID v = i" "pvVersion v = pfCurrentVersion p"
    using head_version_exists [OF assms] by blast
  show "pfCurrentVersion p \<le> max_version d i" using max_version_bound [OF v(1,2)] v(3) by simp
  have nh: "w \<in> set (versions d) \<Longrightarrow> pvProfileID w = i \<Longrightarrow> 1 \<le> pvVersion w \<and> pvVersion w \<le> pfCurrentVersion p" for w
    using assms(1) p by (auto simp: db_inv_def versions_inv_def newest_heads_def)
  let ?xs = "map pvVersion (filter (\<lambda>v. pvProfileID v = i) (versions d))"
  have "Max (set (0 # ?xs)) \<le> pfCurrentVersion p"
    using nh [OF v(1,2)] nh by (intro Max.boundedI) auto
  then show "max_version d i \<le> pfCurrentVersion p" unfolding max_version_def Max.set_eq_fold .
qed

lemma version_row:
  "db_inv d \<Longrightarrow> v \<in> set (versions d) \<Longrightarrow> ProfileVersionByID d (pvID v) = Inr v"
  by (simp add: ProfileVersionByID_def found_def keyed_row_by [of pvID "next_version d"] db_inv_def versions_inv_def)

lemma ProfileVersionByID_row:
  "ProfileVersionByID d i = Inr v \<Longrightarrow> v \<in> set (versions d) \<and> pvID v = i"
  by (auto simp: ProfileVersionByID_def found_def dest: row_by_Some split: option.splits)

lemma UpdateProfile_steps:
  assumes "UpdateProfile now d i name isoID (Some c) nv = Inr (d', p)"
  obtains d1 where "d1 = d\<lparr>profiles := update_rows (\<lambda>p. pfID p = i)
      (\<lambda>p. p\<lparr>pfName := name, pfISOID := isoID, pfUpdatedAt := stored_time now\<rparr>) (profiles d)\<rparr>"
    and "(if nv then appendProfileVersion now d1 i c else editHeadVersion d1 i c) = Inr (d', ())"
    and "ProfileByID d' i = Inr p"
  using assms by (auto simp: UpdateProfile_def Let_def simp del: has_key_iff split: if_splits sum.splits)

text \<open>What an update with a configuration does to the versions.\<close>

lemma UpdateProfile_effect:
  assumes "db_inv d" and "ProfileByID d i = Inr p0"
    and "UpdateProfile now d i name isoID (Some c) nv = Inr (d', p)"
  shows "(if nv then
      pfCurrentVersion p = pfCurrentVersion p0 + 1 \<and>
      (\<exists>v. versions d' = versions d @ [v] \<and> pv_key v = (i, pfCurrentVersion p) \<and> pvConfig v = c)
    else
      pfCurrentVersion p = pfCurrentVersion p0 \<and>
      (\<exists>v. head_version d i = Some v \<and> \<not> has_key inProfileVersionID (pvID v) (installs d) \<and>
         versions d' = update_rows (\<lambda>w. pvID w = pvID v) (pvConfig_update (\<lambda>_. c)) (versions d)))"
proof -
  let ?f = "\<lambda>p. p\<lparr>pfName := name, pfISOID := isoID, pfUpdatedAt := stored_time now\<rparr>"
  obtain d1 where d1: "d1 = d\<lparr>profiles := update_rows (\<lambda>p. pfID p = i) ?f (profiles d)\<rparr>"
    and step: "(if nv then appendProfileVersion now d1 i c else editHeadVersion d1 i c) = Inr (d', ())"
    and p: "ProfileByID d' i = Inr p"
    using UpdateProfile_steps [OF assms(3)] by metis
  have p0: "row_by pfID i (profiles d) = Some p0"
    using assms(2) by (auto simp: ProfileByID_def found_def split: option.splits)
  then have r1: "row_by pfID i (profiles d1) = Some (?f p0)"
    using row_by_Some [OF p0] by (simp add: d1 row_by_update)
  have mv: "max_version d1 i = pfCurrentVersion p0"
    using max_version_head [OF assms(1) p0] by (simp add: max_version_def d1)
  have hv: "head_version d1 i = head_version d i"
    using r1 p0 by (simp add: head_version_def d1)
  show ?thesis
  proof (cases nv)
    case True
    have v: "\<exists>v. versions d' = versions d1 @ [v] \<and> pv_key v = (i, max_version d1 i + 1) \<and> pvConfig v = c"
      and ps: "profiles d' = update_rows (\<lambda>p. pfID p = i) (pfCurrentVersion_update (\<lambda>_. max_version d1 i + 1)) (profiles d1)"
      using step True by (auto simp: appendProfileVersion_def Let_def pv_key_def simp del: has_key_iff split: if_splits)
    have "pfCurrentVersion p = pfCurrentVersion p0 + 1"
      using p r1 row_by_Some [OF r1] by (auto simp: ProfileByID_def found_def ps row_by_update mv)
    with v True show ?thesis unfolding mv by (simp add: d1)
  next
    case False
    then obtain v where v: "head_version d i = Some v"
      and d': "d' = d1\<lparr>versions := update_rows (\<lambda>w. pvID w = pvID v) (pvConfig_update (\<lambda>_. c)) (versions d1)\<rparr>"
      and none: "filter (\<lambda>i. inProfileVersionID i = pvID v) (installs d1) = []"
      using step by (auto simp: editHeadVersion_def Let_def hv split: option.splits if_splits)
    have "pfCurrentVersion p = pfCurrentVersion p0" using p r1 by (auto simp: ProfileByID_def found_def d')
    moreover have "\<not> has_key inProfileVersionID (pvID v) (installs d)"
      using none by (auto simp: d1 filter_empty_conv)
    ultimately show ?thesis using False v by (auto simp: d' d1)
  qed
qed

section \<open>A sample database\<close>

definition sample_user :: User where
  "sample_user = \<lparr>uID = 1, uUsername = ''anna'', uPasswordHash = ''h'', uRole = RoleAdmin, uLocale = ''en'', uCreatedAt = 0\<rparr>"

definition sample_session :: Session where
  "sample_session = \<lparr>sToken = ''t'', sUserID = 1, sCSRFToken = ''c'', sCreatedAt = 0, sExpiresAt = 100 * second\<rparr>"

definition sample_profile :: Profile where
  "sample_profile = \<lparr>pfID = 1, pfName = ''p'', pfProvider = ''debian'', pfISOID = None, pfCurrentVersion = 1,
     pfCreatedAt = 0, pfUpdatedAt = 0\<rparr>"

definition sample_version :: ProfileVersion where
  "sample_version = \<lparr>pvID = 1, pvProfileID = 1, pvVersion = 1, pvConfig = ''{}'', pvAnswerOverride = [], pvCreatedAt = 0\<rparr>"

definition sample_host :: Host where
  "sample_host = \<lparr>hID = 1, hMAC = ''aa:bb:cc:dd:ee:ff'', hHostname = ''h'', hVendor = [], hModel = [], hSerial = [],
     hAssetID = [], hTags = [], hFirmware = ''uefi'', hArch = ''x86_64'', hProfileID = Some 1, hProfileVersion = 1,
     hStatus = HostReady, hCreatedAt = 0, hUpdatedAt = 0\<rparr>"

definition sample_install :: Installation where
  "sample_install = \<lparr>inID = 1, inHostID = 1, inProfileVersionID = 1, inStatus = InstallWaiting, inStartedAt = None,
     inFinishedAt = None, inLog = [], inToken = ''tok'', inCreatedAt = 0\<rparr>"

definition sample_db :: db where
  "sample_db = empty_db\<lparr>users := [sample_user], next_user := 2, sessions := [sample_session],
     profiles := [sample_profile], next_profile := 2, versions := [sample_version], next_version := 2,
     hosts := [sample_host], next_host := 2, installs := [sample_install], next_install := 2\<rparr>"

lemmas sample_defs = sample_db_def sample_user_def sample_session_def sample_profile_def sample_version_def
  sample_host_def sample_install_def empty_db_def

lemma sample_db_inv: "db_inv sample_db"
  by (simp add: db_inv_def sample_defs table_invs keyed_def fk_def fk_null_def newest_heads_def pf_head_def
      pv_key_def Role_Valid_def firmware_ok_def stored_time_def)

section \<open>Properties\<close>

text \<open>C8: Referential integrity.  Every database the repositories can reach from the empty one keeps
  the schema's promises: ids unique and never ahead of the counter, user names unique up to
  letter case, MACs, tokens, image and profile names, version numbers and leased addresses unique,
  every foreign key pointing at a row (sessions and audit entries at accounts, profiles at images,
  versions and hosts at profiles, installations at hosts and versions), and the current version of
  every profile its newest row.\<close>

theorem store_integrity:
  assumes "db_step\<^sup>*\<^sup>* empty_db d"
  shows "db_inv d"
  using assms empty_db_inv by (rule db_steps_inv)

theorem store_integrity_witness:
  "\<exists>d u. CreateUser 0 empty_db ''Anna'' ''h'' RoleAdmin ''en'' = Inr (d, u) \<and> db_inv d \<and>
     (\<exists>e. CreateUser 0 d ''ANNA'' ''h'' RoleAdmin ''en'' = Inl e)"
proof -
  obtain d u where c: "CreateUser 0 empty_db ''Anna'' ''h'' RoleAdmin ''en'' = Inr (d, u)"
    and d: "users d = [u]" "uUsername u = ''Anna''"
    by (simp add: CreateUser_def empty_db_def Role_Valid_def Let_def)
  have "db_step\<^sup>*\<^sup>* empty_db d" using step_CreateUser [OF c] by (rule r_into_rtranclp)
  from store_integrity [OF this] c d show ?thesis
    by (auto simp: CreateUser_def nocase_def lower_char_def char_of_def bit_Suc bit_0)
qed

text \<open>C9: History is immutable.  Whatever is written between two moments, an installation that
  exists at both names the same host and the same profile version, and that version still has
  the number and the configuration text it had.\<close>

theorem history_immutable:
  assumes "db_inv d" and "db_step\<^sup>*\<^sup>* d d'"
    and "InstallationByID d i = Inr inst" and "InstallationByID d' i = Inr inst'"
    and "ProfileVersionByID d (inProfileVersionID inst) = Inr v"
  obtains v' where "ProfileVersionByID d' (inProfileVersionID inst') = Inr v'"
    and "inHostID inst' = inHostID inst" and "inProfileVersionID inst' = inProfileVersionID inst"
    and "pvVersion v' = pvVersion v" and "pvConfig v' = pvConfig v" and "pvProfileID v' = pvProfileID v"
proof -
  have i: "inst \<in> set (installs d)" "inst' \<in> set (installs d')" "inID inst' = inID inst"
    using assms(3,4) by (auto simp: InstallationByID_def found_def dest: row_by_Some split: option.splits)
  have v: "v \<in> set (versions d)" "inProfileVersionID inst = pvID v"
    using ProfileVersionByID_row [OF assms(5)] by simp_all
  obtain v' where "same_install inst inst'" "v' \<in> set (versions d')" "same_version v v'"
    using history_kept [OF assms(2,1)] i v by metis
  then show thesis
    using that [of v'] version_row [OF db_steps_inv [OF assms(2,1)], of v'] v(2)
    by (simp add: same_install_def same_version_def)
qed

text \<open>C29: Versioning rules.  Saving a configuration as a new version appends version N+1, makes it the
  current one and leaves every older row alone; saving in place changes only the configuration of
  the current version, keeps its number, and succeeds only when no installation refers to it.\<close>

theorem UpdateProfile_versions:
  assumes "db_inv d" and "ProfileByID d i = Inr p0"
    and "UpdateProfile now d i name isoID (Some c) nv = Inr (d', p)"
  shows "(if nv then
      pfCurrentVersion p = pfCurrentVersion p0 + 1 \<and>
      (\<exists>v. versions d' = versions d @ [v] \<and> pv_key v = (i, pfCurrentVersion p) \<and> pvConfig v = c)
    else
      pfCurrentVersion p = pfCurrentVersion p0 \<and>
      (\<exists>v. head_version d i = Some v \<and> \<not> has_key inProfileVersionID (pvID v) (installs d) \<and>
         versions d' = update_rows (\<lambda>w. pvID w = pvID v) (pvConfig_update (\<lambda>_. c)) (versions d)))"
  using UpdateProfile_effect [OF assms] .

text \<open>Sessions end when they must and not before.  The housekeeping run at a time removes no
  session that is still valid at any later lookup, and every session row it leaves is accepted
  at that time.\<close>

theorem housekeeping_exact:
  assumes "db_inv d" and "DeleteExpiredSessions d now = Inr (d', ())"
  shows "(\<forall>later t. now \<le> later \<longrightarrow> SessionByToken d' t later = SessionByToken d t later) \<and>
    (\<forall>t s. row_by sToken t (sessions d') = Some s \<longrightarrow> SessionByToken d t now = Inr s)"
  using DeleteExpiredSessions_lookup [OF assms] by blast

text \<open>C30: A new password and a deleted account log the user out everywhere: afterwards no session
  of the user is accepted, and every other session is accepted exactly as before.\<close>

theorem revocation_complete:
  assumes "db_inv d" and "UpdateUserPassword d i hash = Inr (d', ()) \<or> DeleteUser d i = Inr (d', ())"
  shows "SessionByToken d' t now = Inr s \<longleftrightarrow> SessionByToken d t now = Inr s \<and> sUserID s \<noteq> i"
proof -
  have "sessions d' = delete_rows (\<lambda>s. sUserID s = i) (sessions d)"
    using assms(2) by (auto simp: UpdateUserPassword_def DeleteUser_def simp del: has_key_iff split: if_splits)
  then show ?thesis by (rule revoke_sessions_lookup [OF assms(1)])
qed

theorem history_immutable_witness:
  "\<exists>d' p v. UpdateProfile 0 sample_db 1 ''q'' None (Some ''new'') True = Inr (d', p) \<and>
     ProfileVersionByID d' 1 = Inr v \<and> pvConfig v = ''{}''"
proof -
  obtain d' p where u: "UpdateProfile 0 sample_db 1 ''q'' None (Some ''new'') True = Inr (d', p)"
    and i: "InstallationByID d' 1 = Inr sample_install"
    by (simp add: UpdateProfile_def appendProfileVersion_def taken_by_other_def iso_ref_ok_def Let_def max_version_def
        sample_defs pv_key_def ProfileByID_def found_def row_by_def update_rows_def InstallationByID_def)
  have i0: "InstallationByID sample_db 1 = Inr sample_install"
    "ProfileVersionByID sample_db (inProfileVersionID sample_install) = Inr sample_version"
    by (simp_all add: InstallationByID_def ProfileVersionByID_def found_def row_by_def sample_defs)
  obtain v where "ProfileVersionByID d' (inProfileVersionID sample_install) = Inr v" "pvConfig v = pvConfig sample_version"
    by (rule history_immutable [OF sample_db_inv r_into_rtranclp [of db_step, OF step_UpdateProfile [OF u]] i0(1) i i0(2)])
  with u show ?thesis by (auto simp: sample_install_def sample_version_def)
qed

theorem UpdateProfile_versions_witness:
  "\<exists>d' p v. UpdateProfile 0 sample_db 1 ''q'' None (Some ''new'') True = Inr (d', p) \<and>
     versions d' = [sample_version, v] \<and> pv_key v = (1, 2)"
proof -
  obtain d' p where u: "UpdateProfile 0 sample_db 1 ''q'' None (Some ''new'') True = Inr (d', p)"
    by (simp add: UpdateProfile_def appendProfileVersion_def taken_by_other_def iso_ref_ok_def Let_def max_version_def
        sample_defs pv_key_def ProfileByID_def found_def row_by_def update_rows_def)
  have p0: "ProfileByID sample_db 1 = Inr sample_profile"
    by (simp add: ProfileByID_def found_def row_by_def sample_defs)
  have "versions sample_db = [sample_version]" "pfCurrentVersion sample_profile = 1" by (simp_all add: sample_defs)
  then show ?thesis using UpdateProfile_versions [OF sample_db_inv p0 u] u by auto
qed

theorem housekeeping_exact_witness:
  "\<exists>d'. DeleteExpiredSessions sample_db (50 * second) = Inr (d', ()) \<and>
     SessionByToken d' ''t'' (60 * second) = Inr sample_session"
proof -
  obtain d' where d: "DeleteExpiredSessions sample_db (50 * second) = Inr (d', ())"
    by (simp add: DeleteExpiredSessions_def)
  have "SessionByToken sample_db ''t'' (60 * second) = Inr sample_session"
    by (simp add: SessionByToken_def row_by_def sample_defs)
  then show ?thesis using housekeeping_exact [OF sample_db_inv d] d by simp
qed

theorem revocation_complete_witness:
  "\<exists>d'. DeleteUser sample_db 1 = Inr (d', ()) \<and> SessionByToken d' ''t'' 0 \<noteq> Inr sample_session"
proof -
  obtain d' where d: "DeleteUser sample_db 1 = Inr (d', ())"
    by (simp add: DeleteUser_def sample_defs)
  then have "SessionByToken d' ''t'' 0 = Inr s \<longleftrightarrow> SessionByToken sample_db ''t'' 0 = Inr s \<and> sUserID s \<noteq> 1" for s
    by (intro revocation_complete [OF sample_db_inv] disjI2)
  then show ?thesis using d by (auto simp: sample_session_def)
qed

end
