(* ===== verification/Parse_IP.thy ===== *)
theory Parse_IP
  imports Net_Ip Netutil Go_Path
begin

text \<open>
  \<open>net.ParseIP\<close> as Go's \<open>net/netip\<close> implements it: the first \<open>.\<close> or \<open>:\<close> decides between the
  two families, IPv4 addresses come back in their 16-byte form, zones are refused.  The nil
  address is the empty list.
\<close>

section \<open>IPv4\<close>

definition octet :: "string \<Rightarrow> u8 option" where
  "octet s =
     (if s = [] \<or> \<not> list_all is_digit s \<or> length s > 3 then None
      else if length s > 1 \<and> hd s = CHR ''0'' then None
      else if digits_val s > 255 then None
      else Some (of_nat (digits_val s)))"

definition parse4 :: "string \<Rightarrow> u8 list option" where
  "parse4 s =
     (case map octet (split_on (CHR ''.'') s) of
        [Some a, Some b, Some c, Some d] \<Rightarrow> Some [a, b, c, d]
      | _ \<Rightarrow> None)"

section \<open>IPv6\<close>

definition hex_field :: "string \<Rightarrow> string" where
  "hex_field s = takeWhile (\<lambda>c. hex_val c \<noteq> None) s"

definition hex_num :: "string \<Rightarrow> nat" where
  "hex_num s = foldl (\<lambda>n c. 16 * n + the (hex_val c)) 0 s"

text \<open>
  The main loop: the bytes so far, the place of the ellipsis, the rest of the text.  It
  returns the bytes and the ellipsis once the text is used up or 16 bytes are filled.
\<close>

function parse6_loop :: "u8 list \<Rightarrow> nat option \<Rightarrow> string \<Rightarrow> (u8 list \<times> nat option) option" where
  "parse6_loop bs ell s =
     (if length bs \<ge> 16 then if s = [] then Some (bs, ell) else None
      else let h = hex_field s; r = drop (length h) s in
        if h = [] \<or> length h > 4 then None
        else if r \<noteq> [] \<and> hd r = CHR ''.'' then
          (if ell = None \<and> length bs \<noteq> 12 then None
           else if length bs + 4 > 16 then None
           else map_option (\<lambda>q. (bs @ q, ell)) (parse4 s))
        else let bs' = bs @ [of_nat (hex_num h div 256), of_nat (hex_num h mod 256)] in
          if r = [] then Some (bs', ell)
          else if hd r \<noteq> CHR '':'' \<or> length r = 1 then None
          else if hd (tl r) = CHR '':'' then
            (if ell \<noteq> None then None
             else if tl (tl r) = [] then Some (bs', Some (length bs'))
             else parse6_loop bs' (Some (length bs')) (tl (tl r)))
          else parse6_loop bs' ell (tl r))"
  by pat_completeness auto
termination
  by (relation "measure (\<lambda>(bs, ell, s). 16 - length bs)") auto

definition expand6 :: "u8 list \<times> nat option \<Rightarrow> u8 list option" where
  "expand6 r =
     (case r of (bs, ell) \<Rightarrow>
        if length bs < 16
        then (case ell of
                None \<Rightarrow> None
              | Some k \<Rightarrow> Some (take k bs @ replicate (16 - length bs) 0 @ drop k bs))
        else if ell \<noteq> None then None else Some bs)"

definition parse6 :: "string \<Rightarrow> u8 list option" where
  "parse6 s =
     (if CHR ''%'' \<in> set s then None
      else if take 2 s = ''::'' then
        (if length s = 2 then Some (replicate 16 0)
         else Option.bind (parse6_loop [] (Some 0) (drop 2 s)) expand6)
      else Option.bind (parse6_loop [] None s) expand6)"

section \<open>ParseIP\<close>

definition ParseIP :: "string \<Rightarrow> net_ip" where
  "ParseIP s =
     (case dropWhile (\<lambda>c. c \<noteq> CHR ''.'' \<and> c \<noteq> CHR '':'' \<and> c \<noteq> CHR ''%'') s of
        [] \<Rightarrow> []
      | c # _ \<Rightarrow>
          if c = CHR ''.'' then (case parse4 s of None \<Rightarrow> [] | Some q \<Rightarrow> replicate 10 0 @ [255, 255] @ q)
          else if c = CHR '':'' then (case parse6 s of None \<Rightarrow> [] | Some b \<Rightarrow> b)
          else [])"

section \<open>Printing and parsing\<close>

lemma nat_str_small:
  assumes "n < 256"
  shows "length (nat_str n) \<le> 3" and "length (nat_str n) > 1 \<Longrightarrow> hd (nat_str n) \<noteq> CHR ''0''"
proof -
  have d: "0 < k \<Longrightarrow> k < 10 \<Longrightarrow> digit k \<noteq> CHR ''0''" for k
    using of_char_digit [of k] by auto
  consider "n < 10" | "10 \<le> n" "n < 100" | "100 \<le> n" by linarith
  then have "length (nat_str n) \<le> 3 \<and> (length (nat_str n) > 1 \<longrightarrow> hd (nat_str n) \<noteq> CHR ''0'')"
  proof cases
    case 1
    then show ?thesis by (simp add: nat_str.simps [of n])
  next
    case 2
    then have "n div 10 < 10" "0 < n div 10" by auto
    with 2 d [of "n div 10"] show ?thesis
      by (simp add: nat_str.simps [of n] nat_str.simps [of "n div 10"])
  next
    case 3
    then have "n div 100 < 10" "0 < n div 100" "\<not> n div 10 < 10" "n div 10 div 10 = n div 100"
      using assms by (auto simp: div_mult2_eq [symmetric])
    with 3 d [of "n div 100"] show ?thesis
      by (simp add: nat_str.simps [of n] nat_str.simps [of "n div 10"] nat_str.simps [of "n div 100"])
  qed
  then show "length (nat_str n) \<le> 3" "length (nat_str n) > 1 \<Longrightarrow> hd (nat_str n) \<noteq> CHR ''0''" by simp_all
qed

lemma octet_nat_str: "n < 256 \<Longrightarrow> octet (nat_str n) = Some (of_nat n)"
  using nat_str_small [of n] nat_str_Atoi_digits [of n] by (auto simp: octet_def)

lemma nat_str_no_dot: "c = CHR ''.'' \<or> c = CHR '':'' \<or> c = CHR ''%'' \<Longrightarrow> c \<notin> set (nat_str n)"
  using nat_str_Atoi_digits [of n] by (auto simp: list_all_iff is_digit_def)

lemma parse4_ip4_string: "length b = 4 \<Longrightarrow> parse4 (ip4_string b) = Some b"
proof -
  assume len: "length b = 4"
  have u: "unat (x :: u8) < 256" for x using unsigned_less [of x] by simp
  let ?f = "\<lambda>k. nat_str (unat (b ! k))"
  have "split_on (CHR ''.'') (ip4_string b) = [?f 0, ?f 1, ?f 2, ?f 3]"
    using split_join [of "[?f 0, ?f 1, ?f 2, ?f 3]" "CHR ''.''"] nat_str_no_dot [of "CHR ''.''"]
    by (simp add: ip4_string_def)
  moreover have "b = [b ! 0, b ! 1, b ! 2, b ! 3]"
    using len by (auto simp: numeral_eq_Suc length_Suc_conv)
  ultimately show ?thesis by (simp add: parse4_def octet_nat_str [OF u])
qed

text \<open>The text of an IPv4 address parses to that address.\<close>

lemma ParseIP_ip4_string:
  assumes "length b = 4"
  shows "ParseIP (ip4_string b) = replicate 10 0 @ [255, 255] @ b"
proof -
  let ?n = "nat_str (unat (b ! 0))"
  have "dropWhile (\<lambda>c. c \<noteq> CHR ''.'' \<and> c \<noteq> CHR '':'' \<and> c \<noteq> CHR ''%'') (?n @ CHR ''.'' # t) = CHR ''.'' # t" for t
    using nat_str_no_dot [of "CHR ''.''"] nat_str_no_dot [of "CHR '':''"] nat_str_no_dot [of "CHR ''%''"]
    by (subst dropWhile_append2) auto
  moreover obtain t where "ip4_string b = ?n @ CHR ''.'' # t" by (simp add: ip4_string_def)
  ultimately show ?thesis
    using parse4_ip4_string [OF assms] by (simp add: ParseIP_def)
qed

lemma To4_mapped: "length b = 4 \<Longrightarrow> To4 (replicate 10 0 @ [255, 255] @ b) = b"
  by (simp add: To4_def nth_append)

lemma ipToUint_ParseIP: "ipToUint (ParseIP (ip4_string (uintToIP n))) = Inr n"
  using ipToUint_uintToIP [of n]
  by (simp only: ipToUint_def ParseIP_ip4_string length_uintToIP To4_mapped To4_uintToIP Let_def
      uintToIP_not_nil if_False)

end
