(* ===== verification/Config.thy ===== *)
theory Config
  imports Go_Path
begin

text \<open>
  \<open>backend/internal/config/config.go\<close>: the configuration from the environment, which is a
  function from names to values (unset is empty).
\<close>

record Config =
  cfDataDir :: string
  cfHTTPAddr :: string
  cfProvidersDir :: string
  cfAssetsDir :: string
  cfLogLevel :: string
  cfLogFormat :: string

definition envOr :: "(string \<Rightarrow> string) \<Rightarrow> string \<Rightarrow> string \<Rightarrow> string" where
  "envOr env key fallback = (if env key \<noteq> '''' then env key else fallback)"

definition FromEnv :: "(string \<Rightarrow> string) \<Rightarrow> Config" where
  "FromEnv env =
     \<lparr>cfDataDir = envOr env ''HELBOOT_DATA_DIR'' ''./data'',
      cfHTTPAddr = envOr env ''HELBOOT_HTTP_ADDR'' '':8080'',
      cfProvidersDir = envOr env ''HELBOOT_PROVIDERS_DIR'' ''./providers'',
      cfAssetsDir = envOr env ''HELBOOT_ASSETS_DIR'' '''',
      cfLogLevel = envOr env ''HELBOOT_LOG_LEVEL'' ''info'',
      cfLogFormat = envOr env ''HELBOOT_LOG_FORMAT'' ''text''\<rparr>"

definition AssetsPath :: "Config \<Rightarrow> string" where
  "AssetsPath c = (if cfAssetsDir c \<noteq> '''' then cfAssetsDir c else Join [cfDataDir c, ''assets''])"

definition DatabasePath :: "Config \<Rightarrow> string" where
  "DatabasePath c = Join [cfDataDir c, ''helboot.db'']"

end
