(* ===== verification/Services.thy ===== *)
theory Services
  imports Dhcp_Service Store_Facts Parse_IP Config
begin

text \<open>
  \<open>backend/cmd/helboot/services.go\<close>: how the boot-network services are assembled from the
  settings at start-up, and the adapter through which the lease pool persists leases in the
  store.  The operating system's interface addresses are a parameter.
\<close>

section \<open>Settings and addresses\<close>

definition getSetting :: "db \<Rightarrow> string \<Rightarrow> string" where
  "getSetting d key = (case GetSetting d key of Inl _ \<Rightarrow> '''' | Inr v \<Rightarrow> v)"

abbreviation settingServerIP :: string where "settingServerIP \<equiv> ''network.server_ip''"
abbreviation settingDHCPStart :: string where "settingDHCPStart \<equiv> ''network.dhcp.range_start''"
abbreviation settingDHCPEnd :: string where "settingDHCPEnd \<equiv> ''network.dhcp.range_end''"
abbreviation settingDHCPMask :: string where "settingDHCPMask \<equiv> ''network.dhcp.subnet_mask''"
abbreviation settingDHCPGateway :: string where "settingDHCPGateway \<equiv> ''network.dhcp.gateway''"
abbreviation settingDHCPDNS :: string where "settingDHCPDNS \<equiv> ''network.dhcp.dns''"
abbreviation settingDHCPLeaseMin :: string where "settingDHCPLeaseMin \<equiv> ''network.dhcp.lease_minutes''"

text \<open>\<open>IP.IsGlobalUnicast\<close> of a 4-byte address.\<close>

definition global_unicast4 :: "net_ip \<Rightarrow> bool" where
  "global_unicast4 ip \<longleftrightarrow> length ip = 4 \<and> ip \<noteq> [255, 255, 255, 255] \<and> ip \<noteq> [0, 0, 0, 0] \<and>
     ip ! 0 \<noteq> 127 \<and> ip ! 0 AND 0xF0 \<noteq> 0xE0 \<and> \<not> (ip ! 0 = 169 \<and> ip ! 1 = 254)"

text \<open>\<open>addrs\<close>: the IP networks \<open>net.InterfaceAddrs\<close> lists, \<open>None\<close> when it fails.\<close>

definition detectServerIP :: "net_ip list option \<Rightarrow> string \<Rightarrow> net_ip" where
  "detectServerIP addrs configured =
     (if ParseIP configured \<noteq> [] then To4 (ParseIP configured)
      else case addrs of
             None \<Rightarrow> []
           | Some as \<Rightarrow>
               (case List.find (\<lambda>a. To4 a \<noteq> [] \<and> global_unicast4 (To4 a)) as of
                  None \<Rightarrow> [] | Some a \<Rightarrow> To4 a))"

text \<open>\<open>net.SplitHostPort\<close>, the port only; \<open>None\<close> is an error.\<close>

definition split_port :: "string \<Rightarrow> string option" where
  "split_port s =
     (let port = rev (takeWhile (\<lambda>c. c \<noteq> CHR '':'') (rev s));
          host = take (length s - length port - 1) s;
          tail = dropWhile (\<lambda>c. c \<noteq> CHR '']'') s
      in if CHR '':'' \<notin> set s then None
         else if hd s = CHR ''['' then
           (if tail = [] \<or> tl tail \<noteq> CHR '':'' # port \<or> CHR ''['' \<in> set (tl s) \<or> CHR '']'' \<in> set (tl tail) then None
            else Some port)
         else if CHR '':'' \<in> set host \<or> CHR ''['' \<in> set s \<or> CHR '']'' \<in> set s then None
         else Some port)"

definition httpPort :: "string \<Rightarrow> string" where
  "httpPort addr =
     (case split_port addr of None \<Rightarrow> ''8080'' | Some port \<Rightarrow> if port = '''' then ''8080'' else port)"

section \<open>The lease adapter\<close>

definition leaseAdapter :: "db LeaseStore" where
  "leaseAdapter =
     \<lparr>UpsertLease = (\<lambda>mac ip hostname t d.
        case store_UpsertLease d \<lparr>leMAC = mac, leIP = ip, leHostname = hostname, leExpiresAt = t\<rparr> of
          Inl _ \<Rightarrow> (d, True) | Inr (d', _) \<Rightarrow> (d', False)),
      DeleteLease = (\<lambda>mac d. case store_DeleteLease d mac of Inl _ \<Rightarrow> (d, True) | Inr (d', _) \<Rightarrow> (d', False))\<rparr>"

section \<open>Building the services\<close>

text \<open>\<open>int64\<close> arithmetic of \<open>time.Duration\<close>.\<close>

definition wrap64 :: "int \<Rightarrow> int" where
  "wrap64 i = (i + 2 ^ 63) mod 2 ^ 64 - 2 ^ 63"

definition lease_minutes :: "db \<Rightarrow> int" where
  "lease_minutes d =
     (let n = fst (Atoi (getSetting d settingDHCPLeaseMin)) in if n \<le> 0 then 60 else n)"

definition restore_leases :: "LeasePool \<Rightarrow> Lease list \<Rightarrow> LeasePool" where
  "restore_leases p ls = foldl (\<lambda>p l. Restore p (leMAC l) (ParseIP (leIP l)) (leExpiresAt l)) p ls"

definition buildDHCPServer :: "instant \<Rightarrow> db \<Rightarrow> BootConfig \<Rightarrow> (DHCPConfig \<times> LeasePool) option" where
  "buildDHCPServer now d bootCfg =
     (let start = ParseIP (getSetting d settingDHCPStart);
          end = ParseIP (getSetting d settingDHCPEnd)
      in if start = [] \<or> end = [] then None
         else case NewLeasePool start end (wrap64 (lease_minutes d * minute)) of
                Inl _ \<Rightarrow> None
              | Inr pool \<Rightarrow>
                  let pool' = restore_leases pool (ActiveLeases d now);
                      m = To4 (ParseIP (getSetting d settingDHCPMask));
                      mask = (if m = [] then [255, 255, 255, 0] else m);
                      dns = filter (\<lambda>ip. ip \<noteq> [])
                        (map (\<lambda>s. ParseIP (TrimSpace s)) (split_on (CHR '','') (getSetting d settingDHCPDNS)))
                  in Some (\<lparr>dcBoot = bootCfg, dcSubnetMask = mask,
                            dcGateway = ParseIP (getSetting d settingDHCPGateway), dcDNS = dns\<rparr>, pool'))"

datatype net_service =
  SvcTFTP string | SvcDHCP DHCPConfig LeasePool "DHCPObserver option" | SvcProxy BootConfig "DHCPObserver option"

definition buildNetworkServices ::
    "instant \<Rightarrow> net_ip list option \<Rightarrow> Config \<Rightarrow> db \<Rightarrow> DHCPObserver option \<Rightarrow> net_service list" where
  "buildNetworkServices now addrs cfg d observer =
     (case SetupCompleted d of
        Inl _ \<Rightarrow> []
      | Inr completed \<Rightarrow>
          if \<not> completed then []
          else
            let serverIP = detectServerIP addrs (getSetting d settingServerIP) in
            if serverIP = [] then []
            else
              let ob = SetSelfIP observer serverIP;
                  bootCfg = \<lparr>bcServerIP = serverIP,
                    bcScriptURL = ''http://'' @ ip4_string serverIP @ '':'' @ httpPort (cfHTTPAddr cfg) @ ''/boot/ipxe''\<rparr>;
                  tftp = SvcTFTP (Join [AssetsPath cfg, ''tftp''])
              in if getSetting d SettingNetworkMode = ''dhcp''
                 then (case buildDHCPServer now d bootCfg of
                         None \<Rightarrow> [tftp]
                       | Some (dc, pool) \<Rightarrow> [tftp, SvcDHCP dc pool ob])
                 else [tftp, SvcProxy bootCfg ob])"

section \<open>The store keeps the contract of the lease pool\<close>

definition lease_rows :: "db \<Rightarrow> string \<Rightarrow> (string \<times> instant) option" where
  "lease_rows d mac = map_option (\<lambda>l. (leIP l, leExpiresAt l)) (row_by leMAC mac (leases d))"

lemma row_by_replace:
  "key r = i \<Longrightarrow> row_by key k (update_rows (\<lambda>x. key x = i) (\<lambda>_. r) rows) =
     (if k = i \<and> has_key key i rows then Some r else row_by key k rows)"
  by (induction rows) (auto simp: row_by_def update_rows_def)

lemma clip_stored: "clip_time t = stored_time t"
  by (simp add: clip_time_def stored_time_def)

interpretation stored_leases: unique_lease_store leaseAdapter lease_rows
proof
  fix mac ip h t s s'
  assume "UpsertLease leaseAdapter mac ip h t s = (s', False)"
  then show "lease_rows s' = (lease_rows s)(mac \<mapsto> (ip, clip_time t))"
    by (auto simp: leaseAdapter_def store_UpsertLease_def Let_def lease_rows_def clip_stored fun_eq_iff
        row_by_replace row_by_append row_by_None simp del: has_key_iff split: if_splits option.splits
        dest: row_by_Some)
       (auto simp: row_by_None [symmetric] dest: row_by_Some)
next
  fix mac s s' assume "DeleteLease leaseAdapter mac s = (s', False)"
  then have "leases s' = delete_rows (\<lambda>l. leMAC l = mac) (leases s)"
    by (auto simp: leaseAdapter_def store_DeleteLease_def)
  moreover have "row_by leMAC mac (delete_rows (\<lambda>l. leMAC l = mac) (leases s)) = None"
    by (auto simp: row_by_None)
  ultimately show "lease_rows s' = (lease_rows s)(mac := None)"
    by (auto simp: lease_rows_def fun_eq_iff row_by_delete)
next
  fix mac ip h t s s' m e
  show "UpsertLease leaseAdapter mac ip h t s = (s', True) \<Longrightarrow> s' = s"
    by (auto simp: leaseAdapter_def split: sum.splits)
  show "DeleteLease leaseAdapter mac s = (s', True) \<Longrightarrow> s' = s"
    by (auto simp: leaseAdapter_def split: sum.splits)
  show "lease_rows s m = Some (ip, e) \<Longrightarrow> m \<noteq> mac \<Longrightarrow> UpsertLease leaseAdapter mac ip h t s = (s, True)"
    by (auto simp: lease_rows_def leaseAdapter_def store_UpsertLease_def Let_def list_ex_iff dest!: row_by_Some)
qed

section \<open>Restoring leases at start-up\<close>

text \<open>What the adapter writes: the dotted form of an IPv4 address.\<close>

definition lease_addr :: "Lease \<Rightarrow> u32" where
  "lease_addr l = (case ipToUint (ParseIP (leIP l)) of Inr n \<Rightarrow> n | Inl _ \<Rightarrow> 0)"

definition dotted :: "Lease \<Rightarrow> bool" where
  "dotted l \<longleftrightarrow> (\<exists>n. leIP l = ip4_string (uintToIP n))"

lemma dotted_addr: "dotted l \<Longrightarrow> ipToUint (ParseIP (leIP l)) = Inr (lease_addr l) \<and> leIP l = ip4_string (uintToIP (lease_addr l))"
  by (auto simp: dotted_def lease_addr_def ipToUint_ParseIP)

definition in_range :: "LeasePool \<Rightarrow> u32 \<Rightarrow> bool" where
  "in_range p n \<longleftrightarrow> pStart p \<le> n \<and> n \<le> pEnd p"

lemma Restore_byMAC:
  "ipToUint ip = Inr n \<Longrightarrow> byMAC (Restore p mac ip t) =
     (if in_range p n then (byMAC p)(mac \<mapsto> \<lparr>plMac = mac, plIp = n, plExpires = t\<rparr>) else byMAC p)"
  by (auto simp: Restore_def in_range_def Let_def not_less)

lemma Restore_byIP:
  "ipToUint ip = Inr n \<Longrightarrow> byIP (Restore p mac ip t) =
     (if in_range p n then (byIP p)(n \<mapsto> \<lparr>plMac = mac, plIp = n, plExpires = t\<rparr>) else byIP p)"
  by (auto simp: Restore_def in_range_def Let_def not_less)

lemma Restore_in_range [simp]: "in_range (Restore p mac ip t) = in_range p"
  by (simp add: in_range_def fun_eq_iff)

lemma restore_leases_pool:
  assumes "pool_inv p" and "list_all dotted ls" and "distinct (map leMAC ls)" and "distinct (map lease_addr ls)"
    and "\<And>l. l \<in> set ls \<Longrightarrow> byMAC p (leMAC l) = None \<and> byIP p (lease_addr l) = None"
  shows "pool_inv (restore_leases p ls) \<and> in_range (restore_leases p ls) = in_range p \<and>
    pDuration (restore_leases p ls) = pDuration p \<and> pEnd (restore_leases p ls) = pEnd p \<and>
    (\<forall>m. byMAC (restore_leases p ls) m =
      (case List.find (\<lambda>l. leMAC l = m \<and> in_range p (lease_addr l)) ls of
         None \<Rightarrow> byMAC p m
       | Some l \<Rightarrow> Some \<lparr>plMac = m, plIp = lease_addr l, plExpires = leExpiresAt l\<rparr>))"
  using assms
proof (induction ls arbitrary: p)
  case (Cons l ls)
  let ?q = "Restore p (leMAC l) (ParseIP (leIP l)) (leExpiresAt l)"
  have a: "ipToUint (ParseIP (leIP l)) = Inr (lease_addr l)" using Cons.prems(2) by (intro conjunct1 [OF dotted_addr]) simp
  have free: "byMAC p (leMAC l) = None" "byIP p (lease_addr l) = None" using Cons.prems(5) [of l] by simp_all
  have q: "pool_inv ?q" using Cons.prems(1) free a by (intro Restore_inv) auto
  have rest: "byMAC ?q (leMAC k) = None \<and> byIP ?q (lease_addr k) = None" if "k \<in> set ls" for k
  proof -
    have "leMAC k \<noteq> leMAC l" "lease_addr k \<noteq> lease_addr l" using Cons.prems(3,4) that by (auto simp: image_iff)
    then show ?thesis using Cons.prems(5) [of k] that by (simp add: Restore_byMAC [OF a] Restore_byIP [OF a])
  qed
  have IH: "pool_inv (restore_leases ?q ls) \<and> in_range (restore_leases ?q ls) = in_range ?q \<and>
    pDuration (restore_leases ?q ls) = pDuration ?q \<and> pEnd (restore_leases ?q ls) = pEnd ?q \<and>
    (\<forall>m. byMAC (restore_leases ?q ls) m =
      (case List.find (\<lambda>l. leMAC l = m \<and> in_range ?q (lease_addr l)) ls of
         None \<Rightarrow> byMAC ?q m
       | Some l \<Rightarrow> Some \<lparr>plMac = m, plIp = lease_addr l, plExpires = leExpiresAt l\<rparr>))"
    using Cons.prems rest by (intro Cons.IH q) simp_all
  have none: "List.find (\<lambda>k. leMAC k = leMAC l \<and> in_range p (lease_addr k)) ls = None"
    using Cons.prems(3) by (auto simp: find_None_iff image_iff)
  show ?case
    using IH none by (auto simp: restore_leases_def Restore_byMAC [OF a] split: option.splits)
qed (simp add: restore_leases_def)

lemma buildDHCPServer_pool:
  assumes "buildDHCPServer now d bc = Some (dc, pool)"
  obtains p0 where
    "NewLeasePool (ParseIP (getSetting d settingDHCPStart)) (ParseIP (getSetting d settingDHCPEnd))
       (wrap64 (lease_minutes d * minute)) = Inr p0"
    "pool = restore_leases p0 (ActiveLeases d now)"
  using assms by (auto simp: buildDHCPServer_def Let_def split: if_splits sum.splits)

lemma NewLeasePool_empty: "NewLeasePool s e t = Inr p \<Longrightarrow> byMAC p = Map.empty \<and> byIP p = Map.empty"
  by (auto simp: NewLeasePool_def split: sum.splits if_splits)

lemma find_filter_distinct:
  assumes "distinct (map key rows)"
  shows "List.find (\<lambda>r. key r = k \<and> Q r) (filter P rows) =
    (case row_by key k rows of None \<Rightarrow> None | Some r \<Rightarrow> if P r \<and> Q r then Some r else None)"
  using assms
proof (induction rows)
  case (Cons x rows)
  show ?case
  proof (cases "key x = k")
    case True
    then have "row_by key k rows = None" using Cons.prems by (auto simp: row_by_None)
    then show ?thesis using Cons True by (auto simp: row_by_def)
  qed (use Cons in \<open>auto simp: row_by_def\<close>)
qed (simp add: row_by_def)

lemma distinct_lease_addr:
  assumes "list_all dotted ls" and "distinct (map leIP ls)"
  shows "distinct (map lease_addr ls)"
proof -
  have "map leIP ls = map (\<lambda>n. ip4_string (uintToIP n)) (map lease_addr ls)"
    using assms(1) dotted_addr by (auto simp: list_all_iff)
  then show ?thesis using assms(2) by (metis distinct_map)
qed

section \<open>Properties\<close>

text \<open>C21: Leases survive a restart.  When the DHCP server is built from a database whose lease
  rows are the ones the server wrote (dotted IPv4 addresses), the new pool is consistent, and it
  holds, for every client, exactly its row that has not expired and lies in the configured range,
  with the same address and expiry.\<close>

theorem restart_keeps_leases:
  assumes "db_inv d" and "list_all dotted (leases d)" and "buildDHCPServer now d bc = Some (dc, pool)"
  shows "pool_inv pool \<and>
    (\<forall>m. byMAC pool m =
      (case row_by leMAC m (leases d) of
         None \<Rightarrow> None
       | Some l \<Rightarrow> if stored_time now < leExpiresAt l \<and> pStart pool \<le> lease_addr l \<and> lease_addr l \<le> pEnd pool
                   then Some \<lparr>plMac = m, plIp = lease_addr l, plExpires = leExpiresAt l\<rparr> else None))"
proof -
  define ls where "ls = ActiveLeases d now"
  obtain p0 where p0: "pool_inv p0" "byMAC p0 = Map.empty" "byIP p0 = Map.empty" and pool: "pool = restore_leases p0 ls"
    using buildDHCPServer_pool [OF assms(3)] NewLeasePool_inv NewLeasePool_empty unfolding ls_def by metis
  have macs: "distinct (map leMAC (leases d))" and ips: "distinct (map leIP (leases d))"
    using assms(1) by (simp_all add: db_inv_def leases_inv_def)
  have "distinct (map leMAC ls)" "distinct (map leIP ls)" "list_all dotted ls"
    using macs ips assms(2) by (auto simp: ls_def ActiveLeases_def distinct_map_filter list_all_iff)
  then have R: "pool_inv pool \<and> in_range pool = in_range p0 \<and>
    (\<forall>m. byMAC pool m = (case List.find (\<lambda>l. leMAC l = m \<and> in_range p0 (lease_addr l)) ls of
         None \<Rightarrow> byMAC p0 m
       | Some l \<Rightarrow> Some \<lparr>plMac = m, plIp = lease_addr l, plExpires = leExpiresAt l\<rparr>))"
    using restore_leases_pool [OF p0(1), of ls] distinct_lease_addr p0(2,3) by (simp add: pool)
  have F: "List.find (\<lambda>l. leMAC l = m \<and> in_range pool (lease_addr l)) ls =
      (case row_by leMAC m (leases d) of None \<Rightarrow> None
       | Some l \<Rightarrow> if stored_time now < leExpiresAt l \<and> in_range pool (lease_addr l) then Some l else None)" for m
    unfolding ls_def ActiveLeases_def using macs by (rule find_filter_distinct)
  have ir: "in_range p0 = in_range pool" using R by simp
  have "byMAC pool m = (case List.find (\<lambda>l. leMAC l = m \<and> in_range pool (lease_addr l)) ls of
         None \<Rightarrow> None
       | Some l \<Rightarrow> Some \<lparr>plMac = m, plIp = lease_addr l, plExpires = leExpiresAt l\<rparr>)" for m
    using R unfolding ir by (simp add: p0(2) cong: option.case_cong)
  then have "byMAC pool m = (case row_by leMAC m (leases d) of None \<Rightarrow> None
       | Some l \<Rightarrow> if stored_time now < leExpiresAt l \<and> in_range pool (lease_addr l)
                   then Some \<lparr>plMac = m, plIp = lease_addr l, plExpires = leExpiresAt l\<rparr> else None)" for m
    unfolding F by (simp split: option.splits)
  then show ?thesis using R unfolding in_range_def by blast
qed

definition sample_dhcp_db :: db where
  "sample_dhcp_db = empty_db\<lparr>settings := [''network.dhcp.range_start'' \<mapsto> ''10.0.0.1'', ''network.dhcp.range_end'' \<mapsto> ''10.0.0.1''],
     leases := [\<lparr>leMAC = ''old'', leIP = ''10.0.0.1'', leHostname = [], leExpiresAt = 90 * second\<rparr>]\<rparr>"

lemma sample_ip: "ip4_string [10, 0, 0, 1] = ''10.0.0.1''" "uintToIP 0x0A000001 = [10, 0, 0, 1]"
  "ParseIP ''10.0.0.1'' = replicate 10 0 @ [255, 255, 10, 0, 0, 1]"
  "ipToUint (ParseIP ''10.0.0.1'') = Inr 0x0A000001"
proof -
  show s: "ip4_string [10, 0, 0, 1] = ''10.0.0.1''"
    by (simp add: ip4_string_def nat_str.simps digit_def char_of_def bit_Suc bit_0)
  show u: "uintToIP 0x0A000001 = [10, 0, 0, 1]" by (simp add: uintToIP_def)
  show "ParseIP ''10.0.0.1'' = replicate 10 0 @ [255, 255, 10, 0, 0, 1]"
    using ParseIP_ip4_string [of "[10, 0, 0, 1]"] by (simp add: s)
  show "ipToUint (ParseIP ''10.0.0.1'') = Inr 0x0A000001"
    using ipToUint_ParseIP [of "0x0A000001"] by (simp only: u s)
qed

lemma sample_dhcp_db_inv: "db_inv sample_dhcp_db" "list_all dotted (leases sample_dhcp_db)"
proof -
  show "db_inv sample_dhcp_db"
    using empty_db_inv by (simp add: sample_dhcp_db_def db_inv_def leases_inv_def)
  show "list_all dotted (leases sample_dhcp_db)"
    using sample_ip(1,2) by (auto simp: sample_dhcp_db_def dotted_def intro!: exI [of _ "0x0A000001"])
qed

theorem restart_keeps_leases_witness:
  "\<exists>dc pool. buildDHCPServer 0 sample_dhcp_db (dcBoot sample_config) = Some (dc, pool) \<and> pool_inv pool"
proof -
  obtain dc pool where b: "buildDHCPServer 0 sample_dhcp_db (dcBoot sample_config) = Some (dc, pool)"
    using sample_ip(3,4)
    by (simp add: buildDHCPServer_def Let_def NewLeasePool_def sample_dhcp_db_def getSetting_def GetSetting_def found_def)
  from restart_keeps_leases [OF sample_dhcp_db_inv this] b show ?thesis by blast
qed

text \<open>A reassigned address is not persisted.  When the pool gives a client an address whose
  row in the database still belongs to another client (whose lease expired, which is when the
  pool reassigns), the \<open>UNIQUE\<close> column refuses the row and the error is dropped: the client
  holds the address in memory, its new lease is not in the database, and the next start restores
  the old owner at best.\<close>

theorem reassigned_lease_lost:
  assumes "Allocate (Some leaseAdapter) p d now mac requested hostname = Some (p', d', ip)" and "ip \<noteq> []"
    and "row_by leMAC m (leases d) = Some l" and "leIP l = ip4_string ip" and "m \<noteq> mac"
  shows "d' = d \<and> (\<exists>n. byMAC p' mac = Some \<lparr>plMac = mac, plIp = n, plExpires = now + pDuration p\<rparr> \<and> ip = uintToIP n)"
proof -
  have "lease_rows d m = Some (ip4_string ip, leExpiresAt l)" using assms(3,4) by (simp add: lease_rows_def)
  then have "d' = d" by (rule stored_leases.reassigned_not_persisted [OF assms(1,2) _ assms(5)])
  then show ?thesis using Allocate_holds [OF assms(1,2)] by blast
qed

theorem reassigned_lease_lost_witness:
  "\<exists>p'. Allocate (Some leaseAdapter) \<lparr>pStart = 0x0A000001, pEnd = 0x0A000001, pDuration = hour,
        byMAC = [''old'' \<mapsto> \<lparr>plMac = ''old'', plIp = 0x0A000001, plExpires = 90 * second\<rparr>],
        byIP = [0x0A000001 \<mapsto> \<lparr>plMac = ''old'', plIp = 0x0A000001, plExpires = 90 * second\<rparr>]\<rparr>
      sample_dhcp_db (100 * second) ''new'' (ParseIP ''10.0.0.1'') []
    = Some (p', sample_dhcp_db, [10, 0, 0, 1]) \<and> LeaseByMAC sample_dhcp_db ''new'' = Inl ErrNotFound"
    (is "\<exists>p'. Allocate ?ls ?p ?d ?now ?mac ?rq [] = _ \<and> _")
proof -
  have "choose_ip ?p ?now ?mac ?rq = Some (Some 0x0A000001)"
    using sample_ip(4) by (simp add: choose_ip_def isFree_def addr_free_def)
  then obtain p' d' where A: "Allocate ?ls ?p ?d ?now ?mac ?rq [] = Some (p', d', [10, 0, 0, 1])"
    using sample_ip(2) by (simp add: Allocate_def Let_def)
  have "row_by leMAC ''old'' (leases ?d) = Some \<lparr>leMAC = ''old'', leIP = ''10.0.0.1'', leHostname = [], leExpiresAt = 90 * second\<rparr>"
    by (simp add: sample_dhcp_db_def row_by_def)
  from reassigned_lease_lost [OF A _ this] sample_ip(1) have "d' = ?d" by simp
  moreover have "LeaseByMAC ?d ''new'' = Inl ErrNotFound"
    by (simp add: LeaseByMAC_def found_def sample_dhcp_db_def row_by_def)
  ultimately show ?thesis using A by blast
qed

end
