(* ===== verification/Schema.thy ===== *)
theory Schema
  imports Prelude Complex_Main
begin

text \<open>
  \<open>backend/internal/provider/schema.go\<close>: the settings schema of a provider and the
  validation of profile configuration documents against it (ADR-0012).  A Go \<open>any\<close> is the
  datatype of the values that JSON and YAML decode to; a float is the exact rational it stands
  for (finite floats only).  \<open>None\<close> as the outcome of a comparison or a validation is a Go panic.
\<close>

section \<open>Values\<close>

datatype any =
  ANil | ABool bool | AInt int | AInt64 int | AUint64 int | AFloat rat | AStr string
| AAnys "any list" | AStrs "string list" | AMap "(string \<times> any) list"

type_synonym document = "string \<rightharpoonup> any"

text \<open>
  \<open>a == b\<close> on interfaces: different dynamic types are different, and two slices or two maps of
  the same type panic.
\<close>

fun any_eq :: "any \<Rightarrow> any \<Rightarrow> bool option" where
  "any_eq (AAnys _) (AAnys _) = None"
| "any_eq (AStrs _) (AStrs _) = None"
| "any_eq (AMap _) (AMap _) = None"
| "any_eq a b = Some (a = b)"

section \<open>Descriptors\<close>

record SettingsField =
  sfKey :: string
  sfType :: string
  sfLabel :: string
  sfGroup :: string
  sfDefault :: any
  sfRequired :: bool
  sfHelp :: string
  sfPlaceholder :: string
  sfOptions :: "string list"
  sfMin :: "int option"
  sfMax :: "int option"
  sfDependsOn :: "(string \<times> any) option"

abbreviation FieldString :: string where "FieldString \<equiv> ''string''"
abbreviation FieldText :: string where "FieldText \<equiv> ''text''"
abbreviation FieldPassword :: string where "FieldPassword \<equiv> ''password''"
abbreviation FieldBool :: string where "FieldBool \<equiv> ''bool''"
abbreviation FieldInt :: string where "FieldInt \<equiv> ''int''"
abbreviation FieldSelect :: string where "FieldSelect \<equiv> ''select''"
abbreviation FieldList :: string where "FieldList \<equiv> ''list''"

definition is_upper :: "char \<Rightarrow> bool" where
  "is_upper c \<longleftrightarrow> 65 \<le> (of_char c :: nat) \<and> of_char c \<le> (90 :: nat)"

definition is_lower :: "char \<Rightarrow> bool" where
  "is_lower c \<longleftrightarrow> 97 \<le> (of_char c :: nat) \<and> of_char c \<le> (122 :: nat)"

text \<open>The pattern \<open>[A-Za-z][A-Za-z0-9]*\<close>.\<close>

definition fieldKeyRe :: "string \<Rightarrow> bool" where
  "fieldKeyRe s =
     (case s of [] \<Rightarrow> False
      | c # r \<Rightarrow> (is_upper c \<or> is_lower c) \<and> list_all (\<lambda>c. is_upper c \<or> is_lower c \<or> is_digit c) r)"

section \<open>Values of a field\<close>

datatype field_error =
  MustBeString | MustBeBoolean | MustBeInteger | MustBeAtLeast int | MustBeAtMost int
| MustBeOneOf "string list" | MustBeStrings

text \<open>An integer arrives as a Go \<open>int\<close>, an \<open>int64\<close>, or a float with no fraction in range.\<close>

fun asInt :: "any \<Rightarrow> int option" where
  "asInt (AInt n) = Some n"
| "asInt (AInt64 n) = Some n"
| "asInt (AFloat q) =
     (if q = of_int (floor q) \<and> min_int64 \<le> floor q \<and> floor q \<le> max_int64 then Some (floor q) else None)"
| "asInt _ = None"

definition isEmptyValue :: "any \<Rightarrow> bool" where
  "isEmptyValue v \<longleftrightarrow> v = ANil \<or> v = AStr ''''"

definition looseEqual :: "any \<Rightarrow> any \<Rightarrow> bool option" where
  "looseEqual a b =
     (if a = ANil \<or> b = ANil then Some (a = b)
      else case asInt a of
             Some ai \<Rightarrow> (case asInt b of Some bi \<Rightarrow> Some (ai = bi) | None \<Rightarrow> any_eq a b)
           | None \<Rightarrow> any_eq a b)"

definition is_str :: "any \<Rightarrow> bool" where
  "is_str v = (case v of AStr _ \<Rightarrow> True | _ \<Rightarrow> False)"

definition checkFieldValue :: "SettingsField \<Rightarrow> any \<Rightarrow> field_error option" where
  "checkFieldValue f v =
     (if sfType f \<in> {FieldString, FieldText, FieldPassword} then
        (if is_str v then None else Some MustBeString)
      else if sfType f = FieldBool then
        (case v of ABool _ \<Rightarrow> None | _ \<Rightarrow> Some MustBeBoolean)
      else if sfType f = FieldInt then
        (case asInt v of
           None \<Rightarrow> Some MustBeInteger
         | Some n \<Rightarrow>
             (case sfMin f of
                Some lo \<Rightarrow> if n < lo then Some (MustBeAtLeast lo)
                  else (case sfMax f of Some hi \<Rightarrow> if n > hi then Some (MustBeAtMost hi) else None | None \<Rightarrow> None)
              | None \<Rightarrow> (case sfMax f of Some hi \<Rightarrow> if n > hi then Some (MustBeAtMost hi) else None | None \<Rightarrow> None)))
      else if sfType f = FieldSelect then
        (case v of
           AStr s \<Rightarrow> if s \<in> set (sfOptions f) then None else Some (MustBeOneOf (sfOptions f))
         | _ \<Rightarrow> Some MustBeString)
      else if sfType f = FieldList then
        (case v of
           AAnys items \<Rightarrow> if list_all is_str items then None else Some MustBeStrings
         | AStrs _ \<Rightarrow> None
         | _ \<Rightarrow> Some MustBeStrings)
      else None)"

section \<open>Schemas\<close>

datatype schema_error =
  BadKey nat string | DuplicateKey string | SelectNeedsOptions string | UnknownType string string
| LabelRequired string | MinOverMax string | BadDefault string field_error | UnknownDependency string string

definition field_types :: "string list" where
  "field_types = [FieldString, FieldText, FieldPassword, FieldBool, FieldInt, FieldList]"

definition validateField :: "nat \<Rightarrow> string set \<Rightarrow> SettingsField \<Rightarrow> schema_error option" where
  "validateField i keys f =
     (if \<not> fieldKeyRe (sfKey f) then Some (BadKey i (sfKey f))
      else if sfKey f \<in> keys then Some (DuplicateKey (sfKey f))
      else if sfType f = FieldSelect \<and> sfOptions f = [] then Some (SelectNeedsOptions (sfKey f))
      else if sfType f \<noteq> FieldSelect \<and> sfType f \<notin> set field_types then Some (UnknownType (sfKey f) (sfType f))
      else if sfLabel f = '''' then Some (LabelRequired (sfKey f))
      else if (case (sfMin f, sfMax f) of (Some lo, Some hi) \<Rightarrow> lo > hi | _ \<Rightarrow> False)
        then Some (MinOverMax (sfKey f))
      else if sfDefault f \<noteq> ANil
        then (case checkFieldValue f (sfDefault f) of None \<Rightarrow> None | Some e \<Rightarrow> Some (BadDefault (sfKey f) e))
      else None)"

text \<open>The first loop: the keys seen so far; it ends with all keys, or the first error.\<close>

fun validate_fields :: "nat \<Rightarrow> string set \<Rightarrow> SettingsField list \<Rightarrow> schema_error + string set" where
  "validate_fields i keys [] = Inr keys"
| "validate_fields i keys (f # fs) =
     (case validateField i keys f of
        Some e \<Rightarrow> Inl e
      | None \<Rightarrow> validate_fields (Suc i) (insert (sfKey f) keys) fs)"

fun validate_dependencies :: "string set \<Rightarrow> SettingsField list \<Rightarrow> schema_error option" where
  "validate_dependencies keys [] = None"
| "validate_dependencies keys (f # fs) =
     (case sfDependsOn f of
        Some (dep, _) \<Rightarrow> if dep \<notin> keys then Some (UnknownDependency (sfKey f) dep) else validate_dependencies keys fs
      | None \<Rightarrow> validate_dependencies keys fs)"

definition validateSchema :: "SettingsField list \<Rightarrow> schema_error option" where
  "validateSchema schema =
     (case validate_fields 0 {} schema of
        Inl e \<Rightarrow> Some e
      | Inr keys \<Rightarrow> validate_dependencies keys schema)"

section \<open>Documents\<close>

text \<open>A missing key reads as \<open>nil\<close>.\<close>

definition doc_get :: "document \<Rightarrow> string \<Rightarrow> any" where
  "doc_get doc k = (case doc k of None \<Rightarrow> ANil | Some v \<Rightarrow> v)"

definition dependencySatisfied :: "SettingsField \<Rightarrow> document \<Rightarrow> bool option" where
  "dependencySatisfied f doc =
     (case sfDependsOn f of None \<Rightarrow> Some True | Some (field, v) \<Rightarrow> looseEqual (doc_get doc field) v)"

datatype problem = IsRequired string | BadValue string field_error

definition field_problem :: "document \<Rightarrow> SettingsField \<Rightarrow> problem list option" where
  "field_problem doc f =
     (if doc (sfKey f) = None \<or> isEmptyValue (doc_get doc (sfKey f)) then
        (if sfRequired f
         then (case dependencySatisfied f doc of
                 None \<Rightarrow> None
               | Some active \<Rightarrow> Some (if active then [IsRequired (sfKey f)] else []))
         else Some [])
      else (case checkFieldValue f (doc_get doc (sfKey f)) of
              Some e \<Rightarrow> Some [BadValue (sfKey f) e] | None \<Rightarrow> Some []))"

text \<open>The problems found, none when the document is valid.\<close>

fun ValidateConfig :: "SettingsField list \<Rightarrow> document \<Rightarrow> problem list option" where
  "ValidateConfig [] doc = Some []"
| "ValidateConfig (f # fs) doc =
     (case field_problem doc f of
        None \<Rightarrow> None
      | Some ps \<Rightarrow> (case ValidateConfig fs doc of None \<Rightarrow> None | Some qs \<Rightarrow> Some (ps @ qs)))"

section \<open>Schemas that load\<close>

definition field_ok :: "SettingsField \<Rightarrow> bool" where
  "field_ok f \<longleftrightarrow> fieldKeyRe (sfKey f) \<and>
     (sfType f \<in> set field_types \<or> sfType f = FieldSelect \<and> sfOptions f \<noteq> []) \<and> sfLabel f \<noteq> '''' \<and>
     \<not> (\<exists>lo hi. sfMin f = Some lo \<and> sfMax f = Some hi \<and> lo > hi) \<and>
     (sfDefault f = ANil \<or> checkFieldValue f (sfDefault f) = None)"

lemma validateField_None: "validateField i keys f = None \<longleftrightarrow> sfKey f \<notin> keys \<and> field_ok f"
  by (auto simp: validateField_def field_ok_def field_types_def split: option.splits)

lemma validate_fields_Inr:
  "validate_fields i keys fs = Inr ks \<longleftrightarrow>
     distinct (map sfKey fs) \<and> keys \<inter> sfKey ` set fs = {} \<and> list_all field_ok fs \<and> ks = keys \<union> sfKey ` set fs"
proof (induction fs arbitrary: i keys)
  case (Cons f fs)
  then show ?case
    using validateField_None [of i keys f] by (cases "validateField i keys f") auto
qed auto

lemma validate_dependencies_None:
  "validate_dependencies keys fs = None \<longleftrightarrow> (\<forall>f\<in>set fs. \<forall>dep v. sfDependsOn f = Some (dep, v) \<longrightarrow> dep \<in> keys)"
  by (induction fs) (auto split: option.splits)

lemma validateSchema_None:
  "validateSchema fs = None \<longleftrightarrow>
     distinct (map sfKey fs) \<and> list_all field_ok fs \<and>
     (\<forall>f\<in>set fs. \<forall>dep v. sfDependsOn f = Some (dep, v) \<longrightarrow> dep \<in> sfKey ` set fs)"
proof (cases "validate_fields 0 {} fs")
  case (Inl e)
  then show ?thesis using validate_fields_Inr [of 0 "{}" fs "sfKey ` set fs"] by (auto simp: validateSchema_def)
next
  case (Inr b)
  then have "distinct (map sfKey fs) \<and> list_all field_ok fs \<and> b = sfKey ` set fs"
    using validate_fields_Inr [of 0 "{}" fs b] by simp
  with Inr show ?thesis by (simp add: validateSchema_def validate_dependencies_None)
qed

section \<open>What validation means\<close>

text \<open>The type of a field as a set of values.\<close>

definition in_bounds :: "int option \<Rightarrow> int option \<Rightarrow> int \<Rightarrow> bool" where
  "in_bounds lo hi n \<longleftrightarrow> (\<forall>l. lo = Some l \<longrightarrow> l \<le> n) \<and> (\<forall>h. hi = Some h \<longrightarrow> n \<le> h)"

fun field_value :: "SettingsField \<Rightarrow> any \<Rightarrow> bool" where
  "field_value f v =
     (if sfType f \<in> {FieldString, FieldText, FieldPassword} then (\<exists>s. v = AStr s)
      else if sfType f = FieldBool then (\<exists>b. v = ABool b)
      else if sfType f = FieldInt then (\<exists>n. asInt v = Some n \<and> in_bounds (sfMin f) (sfMax f) n)
      else if sfType f = FieldSelect then (\<exists>s\<in>set (sfOptions f). v = AStr s)
      else if sfType f = FieldList then (\<exists>ss. v = AStrs ss \<or> v = AAnys (map AStr ss))
      else True)"

declare field_value.simps [simp del]

lemma all_strings: "list_all is_str items \<longleftrightarrow> (\<exists>ss. items = map AStr ss)"
proof
  show "list_all is_str items \<Longrightarrow> \<exists>ss. items = map AStr ss"
  proof (induction items)
    case (Cons v items)
    then obtain s ss where "v = AStr s" "items = map AStr ss" by (cases v) (auto simp: is_str_def)
    then have "v # items = map AStr (s # ss)" by simp
    then show ?case ..
  qed simp
qed (auto simp: list_all_iff is_str_def)

lemma checkFieldValue_None: "checkFieldValue f v = None \<longleftrightarrow> field_value f v"
proof -
  have "checkFieldValue f v = None \<longleftrightarrow> (\<exists>n. asInt v = Some n \<and> in_bounds (sfMin f) (sfMax f) n)"
    if "sfType f = FieldInt"
    using that by (auto simp: checkFieldValue_def in_bounds_def split: option.splits)
  then show ?thesis
    by (cases v) (auto simp: checkFieldValue_def is_str_def all_strings field_value.simps)
qed

lemma ValidateConfig_Some:
  "ValidateConfig fs doc = Some ps \<Longrightarrow>
     set ps = (\<Union>f\<in>set fs. set (the (field_problem doc f))) \<and> (\<forall>f\<in>set fs. field_problem doc f \<noteq> None)"
  by (induction fs arbitrary: ps) (auto split: option.splits)

lemma ValidateConfig_None: "ValidateConfig fs doc = None \<longleftrightarrow> (\<exists>f\<in>set fs. field_problem doc f = None)"
  by (induction fs) (auto split: option.splits)

lemma field_problem_empty:
  "field_problem doc f = Some [] \<longleftrightarrow>
     (if isEmptyValue (doc_get doc (sfKey f)) then sfRequired f \<longrightarrow> dependencySatisfied f doc = Some False
      else field_value f (doc_get doc (sfKey f)))"
proof -
  have "doc (sfKey f) = None \<Longrightarrow> isEmptyValue (doc_get doc (sfKey f))"
    by (simp add: doc_get_def isEmptyValue_def)
  then show ?thesis
    by (auto simp: field_problem_def checkFieldValue_None [symmetric] split: option.splits)
qed

section \<open>Properties\<close>

text \<open>C17: What validation accepts.  A document is accepted exactly when each field of the schema that has
  a non-empty value has one of its type (an integer in its bounds, one of its options, a list of
  strings, ...), whether its dependency holds or not, and each field that is empty or missing is
  optional or depends on another field whose value can be compared with and differs from the one
  asked for.  A dependency that compares two lists or two maps of one type never counts as
  different: it panics, see \<open>ValidateConfig_can_panic\<close>.  Keys the schema does not know play no role.\<close>

theorem ValidateConfig_exact:
  "ValidateConfig fs doc = Some [] \<longleftrightarrow>
     list_all (\<lambda>f. if isEmptyValue (doc_get doc (sfKey f))
                   then \<not> sfRequired f \<or>
                     (\<exists>other v. sfDependsOn f = Some (other, v) \<and> looseEqual (doc_get doc other) v = Some False)
                   else field_value f (doc_get doc (sfKey f))) fs"
proof (induction fs)
  case (Cons f fs)
  have "ValidateConfig (f # fs) doc = Some [] \<longleftrightarrow> field_problem doc f = Some [] \<and> ValidateConfig fs doc = Some []"
    by (auto split: option.splits)
  moreover have "dependencySatisfied f doc = Some False \<longleftrightarrow>
      (\<exists>other v. sfDependsOn f = Some (other, v) \<and> looseEqual (doc_get doc other) v = Some False)"
    by (auto simp: dependencySatisfied_def split: option.splits)
  ultimately show ?case using Cons field_problem_empty [of doc f] by auto
qed simp

theorem ValidateConfig_exact_witness:
  "\<exists>f. sfType f = FieldInt \<and> ValidateConfig [f] [''Size'' \<mapsto> AFloat 8] = Some [] \<and>
     ValidateConfig [f] [''Size'' \<mapsto> AFloat 8.5] \<noteq> Some []"
proof -
  let ?f = "\<lparr>sfKey = ''Size'', sfType = FieldInt, sfLabel = ''Size'', sfGroup = [], sfDefault = ANil,
    sfRequired = True, sfHelp = [], sfPlaceholder = [], sfOptions = [], sfMin = Some 1, sfMax = Some 9, sfDependsOn = None\<rparr>"
  have "floor (8 :: rat) = 8" "floor (8.5 :: rat) = 8" by (simp_all add: floor_eq_iff)
  then show ?thesis
    using ValidateConfig_exact [of "[?f]" "[''Size'' \<mapsto> AFloat 8]"]
      ValidateConfig_exact [of "[?f]" "[''Size'' \<mapsto> AFloat 8.5]"]
    by (intro exI [of _ ?f]) (auto simp: doc_get_def isEmptyValue_def in_bounds_def field_value.simps)
qed

text \<open>The document of the defaults of a schema, and its fields that have to be filled in.\<close>

definition default_document :: "SettingsField list \<Rightarrow> document" where
  "default_document fs = map_of (map (\<lambda>f. (sfKey f, sfDefault f)) (filter (\<lambda>f. sfDefault f \<noteq> ANil) fs))"

lemma default_document_get:
  assumes "distinct (map sfKey fs)" and "f \<in> set fs"
  shows "doc_get (default_document fs) (sfKey f) = sfDefault f"
  using assms
proof (induction fs)
  case (Cons g fs)
  show ?case
  proof (cases "f = g")
    case True
    have "sfKey g \<notin> fst ` set (map (\<lambda>f. (sfKey f, sfDefault f)) (filter (\<lambda>f. sfDefault f \<noteq> ANil) fs))"
      using Cons.prems(1) by (force simp: image_iff)
    then have "default_document fs (sfKey g) = None"
      unfolding default_document_def map_of_eq_None_iff .
    with True show ?thesis by (simp add: default_document_def doc_get_def)
  next
    case False
    then have "f \<in> set fs" "sfKey f \<noteq> sfKey g" using Cons.prems by (auto simp: image_iff)
    then show ?thesis using Cons.IH Cons.prems(1) by (simp add: default_document_def doc_get_def)
  qed
qed simp

definition unfilled :: "SettingsField list \<Rightarrow> SettingsField list" where
  "unfilled fs = filter (\<lambda>f. sfRequired f \<and> isEmptyValue (sfDefault f)) fs"

lemma default_problem:
  assumes "validateSchema fs = None" and "f \<in> set fs"
  shows "field_problem (default_document fs) f =
    (if sfRequired f \<and> isEmptyValue (sfDefault f)
     then map_option (\<lambda>active. if active then [IsRequired (sfKey f)] else []) (dependencySatisfied f (default_document fs))
     else Some [])"
proof -
  have d: "doc_get (default_document fs) (sfKey f) = sfDefault f" and ok: "field_ok f"
    using assms default_document_get by (auto simp: validateSchema_None list_all_iff)
  have "default_document fs (sfKey f) = None \<Longrightarrow> isEmptyValue (sfDefault f)"
    using d by (simp add: doc_get_def isEmptyValue_def)
  moreover have "isEmptyValue (sfDefault f) \<or> checkFieldValue f (sfDefault f) = None"
    using ok by (auto simp: field_ok_def isEmptyValue_def)
  ultimately show ?thesis using d by (auto simp: field_problem_def split: option.splits)
qed

lemma ValidateConfig_collect:
  assumes "\<And>f. f \<in> set fs \<Longrightarrow> field_problem doc f = (if P f then map_option (\<lambda>b. if b then [q f] else []) (dep f) else Some [])"
  shows "ValidateConfig fs doc =
    (if \<exists>f\<in>set (filter P fs). dep f = None then None else Some (map q (filter (\<lambda>f. dep f = Some True) (filter P fs))))"
  using assms by (induction fs) (auto split: option.splits)

text \<open>C18: The defaults of a schema that loads fit it.  Validating the document made of the defaults finds no
  wrong value: it reports, in the order of the schema, exactly the required fields without a default
  whose dependency, if any, the defaults satisfy (and panics only if the dependency of such a field
  compares values Go cannot compare).  When each required field has a default, the document passes.\<close>

theorem schema_defaults_valid:
  assumes "validateSchema fs = None"
  shows "ValidateConfig fs (default_document fs) =
    (if \<exists>f\<in>set (unfilled fs). dependencySatisfied f (default_document fs) = None then None
     else Some (map (\<lambda>f. IsRequired (sfKey f))
       (filter (\<lambda>f. dependencySatisfied f (default_document fs) = Some True) (unfilled fs))))"
  unfolding unfilled_def by (rule ValidateConfig_collect) (rule default_problem [OF assms])

definition sample_field :: "string \<Rightarrow> string \<Rightarrow> SettingsField" where
  "sample_field key type = \<lparr>sfKey = key, sfType = type, sfLabel = key, sfGroup = [], sfDefault = ANil,
     sfRequired = True, sfHelp = [], sfPlaceholder = [], sfOptions = [], sfMin = None, sfMax = None, sfDependsOn = None\<rparr>"

text \<open>A schema whose defaults are complete: the second field is required only when the first is set.\<close>

theorem schema_defaults_valid_witness:
  "\<exists>f g. validateSchema [f, g] = None \<and> ValidateConfig [f, g] (default_document [f, g]) = Some [] \<and>
     sfRequired f \<and> sfRequired g \<and> sfDefault g = ANil"
proof -
  let ?f = "(sample_field ''Raid'' FieldBool)\<lparr>sfDefault := ABool False\<rparr>"
  let ?g = "(sample_field ''Disk'' FieldString)\<lparr>sfDependsOn := Some (''Raid'', ABool True)\<rparr>"
  have s: "validateSchema [?f, ?g] = None"
    by (simp add: validateSchema_None field_ok_def sample_field_def field_types_def fieldKeyRe_def is_upper_def is_lower_def
        checkFieldValue_def)
  have u: "unfilled [?f, ?g] = [?g]" by (simp add: unfilled_def sample_field_def isEmptyValue_def)
  have d: "dependencySatisfied ?g (default_document [?f, ?g]) = Some False"
    by (simp add: dependencySatisfied_def sample_field_def default_document_def doc_get_def looseEqual_def)
  have "ValidateConfig [?f, ?g] (default_document [?f, ?g]) = Some []"
    using schema_defaults_valid [OF s] by (simp add: u d del: ValidateConfig.simps)
  with s show ?thesis by (intro exI [of _ ?f] exI [of _ ?g]) (simp add: sample_field_def)
qed

text \<open>Validation can crash.  There is a schema that loads without an error, with a dependency on a
  list value, and a document on which validating it compares two lists with \<open>==\<close>, which is a run
  time panic in Go.\<close>

theorem ValidateConfig_can_panic:
  "\<exists>fs doc. validateSchema fs = None \<and> ValidateConfig fs doc = None \<and>
     doc_get doc ''Packages'' = AAnys [AStr ''vim'']"
proof -
  let ?p = "(sample_field ''Packages'' FieldList)\<lparr>sfRequired := False\<rparr>"
  let ?f = "(sample_field ''Editor'' FieldString)\<lparr>sfDependsOn := Some (''Packages'', AAnys [AStr ''vim''])\<rparr>"
  let ?doc = "[''Packages'' \<mapsto> AAnys [AStr ''vim'']]"
  have "validateSchema [?p, ?f] = None"
    by (simp add: validateSchema_None field_ok_def sample_field_def field_types_def fieldKeyRe_def is_upper_def is_lower_def)
  moreover have "field_problem ?doc ?f = None"
    by (simp add: field_problem_def sample_field_def dependencySatisfied_def doc_get_def looseEqual_def)
  then have "ValidateConfig [?p, ?f] ?doc = None" unfolding ValidateConfig_None by (intro bexI [of _ ?f]) simp_all
  ultimately show ?thesis by (intro exI [of _ "[?p, ?f]"] exI [of _ ?doc]) (simp add: doc_get_def)
qed

end
