(* ===== verification/Provider.thy ===== *)
theory Provider
  imports Schema Go_Path "HOL-Library.AList" "HOL-Library.Multiset" "HOL-Library.List_Lexorder" "HOL-Library.Char_ord"
begin

text \<open>
  \<open>backend/internal/provider/provider.go\<close> and \<open>registry.go\<close>: provider manifests and the registry
  that loads them from the shipped and the user's directories.  Reading a directory and parsing
  a YAML file are parameters (the file system and the YAML package); everything the code
  decides from their results is modelled.
\<close>

declare Join.simps [simp del]

section \<open>Manifests\<close>

record BootMethod =
  bmKernel :: string
  bmInitrd :: "string list"
  bmCmdline :: string
  bmRequires :: "string list"

record Manifest =
  mfName :: string
  mfDisplayName :: string
  mfFamily :: string
  mfCapabilities :: "(string \<times> bool) list"
  mfAnswerFormat :: string
  mfAnswerTemplate :: string
  mfSettingsSchema :: "SettingsField list"
  mfVolumeIDPatterns :: "string list"
  mfDetectFiles :: "string list"
  mfBoot :: "(string \<times> BootMethod) list"
  mfNotes :: string
  mfDir :: string

definition Has :: "Manifest \<Rightarrow> string \<Rightarrow> bool" where
  "Has m capability = (map_of (mfCapabilities m) capability = Some True)"

text \<open>The pattern \<open>[a-z0-9][a-z0-9-]*\<close>.\<close>

definition nameRe :: "string \<Rightarrow> bool" where
  "nameRe s =
     (case s of [] \<Rightarrow> False
      | c # r \<Rightarrow> (is_lower c \<or> is_digit c) \<and> list_all (\<lambda>c. is_lower c \<or> is_digit c \<or> c = CHR ''-'') r)"

datatype manifest_error =
  BadName string | NoDisplayName | NoFamily | NoCapabilities | UnknownBootMethod string
| BadSchema schema_error

definition Validate :: "Manifest \<Rightarrow> manifest_error option" where
  "Validate m =
     (if \<not> nameRe (mfName m) then Some (BadName (mfName m))
      else if mfDisplayName m = '''' then Some NoDisplayName
      else if mfFamily m = '''' then Some NoFamily
      else if mfCapabilities m = [] then Some NoCapabilities
      else case List.find (\<lambda>(method, _). method \<notin> {''pxe'', ''http_boot'', ''usb_boot''}) (mfBoot m) of
             Some (method, _) \<Rightarrow> Some (UnknownBootMethod method)
           | None \<Rightarrow> (case validateSchema (mfSettingsSchema m) of
                        Some e \<Rightarrow> Some (BadSchema e) | None \<Rightarrow> None))"

section \<open>Loading\<close>

text \<open>What the file system and the YAML decoder answer.\<close>

datatype dir_listing = DirMissing | DirUnreadable | DirEntries "(string \<times> bool) list"
datatype manifest_file = FileMissing | FileUnreadable | FileMalformed | FileManifest Manifest

record files =
  fsReadDir :: "string \<Rightarrow> dir_listing"
  fsManifest :: "string \<Rightarrow> manifest_file"

definition loadManifest :: "files \<Rightarrow> string \<Rightarrow> Manifest option" where
  "loadManifest fs path =
     (case fsManifest fs path of
        FileManifest m \<Rightarrow> (case Validate m of None \<Rightarrow> Some m | Some _ \<Rightarrow> None)
      | _ \<Rightarrow> None)"

type_synonym registry = "(string \<times> Manifest) list"

text \<open>One entry of a directory: not a directory, not loadable and misnamed are skipped.\<close>

definition loadEntry :: "files \<Rightarrow> string \<Rightarrow> string \<times> bool \<Rightarrow> registry \<Rightarrow> registry" where
  "loadEntry fs dir entry reg =
     (case entry of (name, isDir) \<Rightarrow>
        if \<not> isDir then reg
        else case loadManifest fs (Join [dir, name, ''provider.yaml'']) of
               None \<Rightarrow> reg
             | Some m \<Rightarrow>
                 if mfName m \<noteq> name then reg
                 else AList.update (mfName m) (m\<lparr>mfDir := Join [dir, name]\<rparr>) reg)"

definition loadDir :: "files \<Rightarrow> string \<Rightarrow> registry \<Rightarrow> registry option" where
  "loadDir fs dir reg =
     (case fsReadDir fs dir of
        DirMissing \<Rightarrow> Some reg
      | DirUnreadable \<Rightarrow> None
      | DirEntries es \<Rightarrow> Some (fold (loadEntry fs dir) es reg))"

fun loadDirs :: "files \<Rightarrow> string list \<Rightarrow> registry \<Rightarrow> registry option" where
  "loadDirs fs [] reg = Some reg"
| "loadDirs fs (d # ds) reg = (case loadDir fs d reg of None \<Rightarrow> None | Some r \<Rightarrow> loadDirs fs ds r)"

definition LoadDirs :: "files \<Rightarrow> string list \<Rightarrow> registry option" where
  "LoadDirs fs dirs = loadDirs fs dirs []"

definition LoadDir :: "files \<Rightarrow> string \<Rightarrow> registry option" where
  "LoadDir fs dir = LoadDirs fs [dir]"

definition All :: "registry \<Rightarrow> Manifest list" where
  "All reg = sort_key mfName (map snd reg)"

definition Get :: "registry \<Rightarrow> string \<Rightarrow> Manifest option" where
  "Get reg name = map_of reg name"

section \<open>The registry invariant\<close>

definition registry_inv :: "registry \<Rightarrow> bool" where
  "registry_inv reg \<longleftrightarrow> distinct (map fst reg) \<and>
     (\<forall>(n, m)\<in>set reg. mfName m = n \<and> Validate m = None)"

lemma Validate_dir [simp]: "Validate (m\<lparr>mfDir := d\<rparr>) = Validate m"
  by (simp add: Validate_def cong: option.case_cong)

lemma loadManifest_Some: "loadManifest fs p = Some m \<Longrightarrow> Validate m = None"
  by (auto simp: loadManifest_def split: manifest_file.splits option.splits)

lemma update_in_set:
  "x \<in> set (AList.update k v al) \<Longrightarrow> x = (k, v) \<or> x \<in> set al"
  by (induction al) (auto split: if_splits)

lemma update_inv:
  assumes "registry_inv reg" and "Validate m = None"
  shows "registry_inv (AList.update (mfName m) m reg)"
  unfolding registry_inv_def
proof (intro conjI ballI)
  show "distinct (map fst (AList.update (mfName m) m reg))"
    using assms(1) by (intro distinct_update) (simp add: registry_inv_def)
  fix x assume "x \<in> set (AList.update (mfName m) m reg)"
  then show "case x of (n, m) \<Rightarrow> mfName m = n \<and> Validate m = None"
    using update_in_set [of x "mfName m" m reg] assms by (auto simp: registry_inv_def)
qed

lemma loadEntry_inv:
  assumes "registry_inv reg"
  shows "registry_inv (loadEntry fs dir e reg)"
proof -
  consider "loadEntry fs dir e reg = reg" | m where "loadEntry fs dir e reg = AList.update (mfName m) m reg" "Validate m = None"
  proof (cases e)
    case (Pair name isDir)
    show thesis
    proof (cases "loadManifest fs (Join [dir, name, ''provider.yaml''])")
      case None
      then show thesis using that(1) Pair by (simp add: loadEntry_def)
    next
      case (Some m)
      have "Validate (m\<lparr>mfDir := Join [dir, name]\<rparr>) = None" using loadManifest_Some [OF Some] by simp
      then show thesis
        using that(1) that(2) [of "m\<lparr>mfDir := Join [dir, name]\<rparr>"] Pair Some
        by (cases "isDir \<and> mfName m = name") (auto simp: loadEntry_def split: if_splits)
    qed
  qed
  then show ?thesis by cases (simp_all add: assms update_inv)
qed

lemma fold_loadEntry_inv: "registry_inv reg \<Longrightarrow> registry_inv (fold (loadEntry fs dir) es reg)"
  by (induction es arbitrary: reg) (simp_all add: loadEntry_inv)

lemma loadDirs_inv: "loadDirs fs dirs reg = Some r \<Longrightarrow> registry_inv reg \<Longrightarrow> registry_inv r"
proof (induction dirs arbitrary: reg)
  case (Cons d ds)
  then show ?case
    by (auto simp: loadDir_def fold_loadEntry_inv split: option.splits dir_listing.splits)
qed simp

lemma All_names:
  assumes "registry_inv reg"
  shows "sorted (map mfName (All reg)) \<and> distinct (map mfName (All reg)) \<and> set (All reg) = snd ` set reg"
proof -
  have "map mfName (map snd reg) = map fst reg"
    using assms by (auto simp: registry_inv_def)
  then have "distinct (map mfName (map snd reg))" using assms by (simp only: registry_inv_def)
  moreover have "mset (map mfName (All reg)) = mset (map mfName (map snd reg))"
    by (simp add: All_def mset_map multiset.map_comp)
  ultimately have "distinct (map mfName (All reg))" by (metis mset_eq_imp_distinct_iff)
  then show ?thesis by (simp add: All_def)
qed

section \<open>Overriding\<close>

text \<open>What a directory offers under a name.\<close>

definition offered :: "files \<Rightarrow> string \<Rightarrow> string \<Rightarrow> Manifest option" where
  "offered fs dir name =
     (case fsReadDir fs dir of
        DirEntries es \<Rightarrow>
          if (name, True) \<in> set es
          then (case loadManifest fs (Join [dir, name, ''provider.yaml'']) of
                  Some m \<Rightarrow> if mfName m = name then Some (m\<lparr>mfDir := Join [dir, name]\<rparr>) else None
                | None \<Rightarrow> None)
          else None
      | _ \<Rightarrow> None)"

lemma Get_update: "Get (AList.update k v al) n = (if n = k then Some v else Get al n)"
  by (simp add: Get_def update_conv)

lemma fold_loadEntry_Get:
  "Get (fold (loadEntry fs dir) es reg) name =
     (if (name, True) \<in> set es
      then (case loadManifest fs (Join [dir, name, ''provider.yaml'']) of
              Some m \<Rightarrow> if mfName m = name then Some (m\<lparr>mfDir := Join [dir, name]\<rparr>) else Get reg name
            | None \<Rightarrow> Get reg name)
      else Get reg name)"
proof (induction es arbitrary: reg)
  case (Cons e es)
  obtain n isDir where e: "e = (n, isDir)" by (cases e)
  have one: "Get (loadEntry fs dir e reg) name =
      (if n = name \<and> isDir
       then (case loadManifest fs (Join [dir, name, ''provider.yaml'']) of
              Some m \<Rightarrow> if mfName m = name then Some (m\<lparr>mfDir := Join [dir, name]\<rparr>) else Get reg name
            | None \<Rightarrow> Get reg name)
       else Get reg name)"
    by (auto simp: loadEntry_def e Get_update split: option.splits)
  show ?case
    unfolding fold_simps Cons.IH one by (auto simp: e split: option.splits)
qed simp

lemma loadDir_Get:
  "loadDir fs dir reg = Some r \<Longrightarrow>
     Get r name = (case offered fs dir name of Some m \<Rightarrow> Some m | None \<Rightarrow> Get reg name)"
  by (auto simp: loadDir_def offered_def fold_loadEntry_Get split: dir_listing.splits option.splits if_splits)

lemma loadDirs_Get:
  "loadDirs fs dirs reg = Some r \<Longrightarrow>
     Get r name = (case List.map_filter (\<lambda>d. offered fs d name) (rev dirs) of m # _ \<Rightarrow> Some m | [] \<Rightarrow> Get reg name)"
proof (induction dirs arbitrary: reg)
  case (Cons d ds)
  then obtain r1 where r1: "loadDir fs d reg = Some r1" "loadDirs fs ds r1 = Some r" by (auto split: option.splits)
  have app: "List.map_filter f (xs @ [y]) = List.map_filter f xs @ (case f y of None \<Rightarrow> [] | Some z \<Rightarrow> [z])"
    for f :: "string \<Rightarrow> Manifest option" and xs y
    by (induction xs) (simp_all add: List.map_filter_simps split: option.splits)
  show ?case
  proof (cases "List.map_filter (\<lambda>d. offered fs d name) (rev ds)")
    case Nil
    then show ?thesis
      using Cons.IH [OF r1(2)] loadDir_Get [OF r1(1), of name]
      by (cases "offered fs d name") (simp_all add: app)
  next
    case (Cons m ms)
    then show ?thesis using Cons.IH [OF r1(2)] by (simp add: app)
  qed
qed (simp add: List.map_filter_def)

section \<open>Properties\<close>

text \<open>C37: The registry.  Loading several provider directories keeps exactly the manifests that are
  valid and named like their directory; a later directory overrides an earlier one, a broken
  manifest disables only itself in its own directory, and the list of all providers is sorted by
  name without duplicates.\<close>

theorem LoadDirs_exact:
  assumes "LoadDirs fs dirs = Some reg"
  shows "Get reg name = (case List.map_filter (\<lambda>d. offered fs d name) (rev dirs) of m # _ \<Rightarrow> Some m | [] \<Rightarrow> None) \<and>
    sorted (map mfName (All reg)) \<and> distinct (map mfName (All reg)) \<and>
    list_all (\<lambda>m. Validate m = None \<and> Get reg (mfName m) = Some m) (All reg)"
proof -
  have L: "loadDirs fs dirs [] = Some reg" using assms by (simp add: LoadDirs_def)
  have inv: "registry_inv reg" by (rule loadDirs_inv [OF L]) (simp add: registry_inv_def)
  have "Validate m = None \<and> Get reg (mfName m) = Some m" if "m \<in> set (All reg)" for m
  proof -
    have "m \<in> snd ` set reg" using that All_names [OF inv] by blast
    then obtain n where "(n, m) \<in> set reg" by (metis imageE prod.collapse)
    then show ?thesis using inv by (auto simp: registry_inv_def Get_def)
  qed
  then show ?thesis
    using loadDirs_Get [OF L, of name] All_names [OF inv] by (simp add: Get_def list_all_iff cong: list.case_cong)
qed

definition sample_manifest :: Manifest where
  "sample_manifest = \<lparr>mfName = ''debian'', mfDisplayName = ''Debian'', mfFamily = ''debian'',
     mfCapabilities = [(''pxe'', True)], mfAnswerFormat = ''preseed'', mfAnswerTemplate = ''preseed.tmpl'',
     mfSettingsSchema = [], mfVolumeIDPatterns = [''Debian *''], mfDetectFiles = [],
     mfBoot = [(''pxe'', \<lparr>bmKernel = ''install/vmlinuz'', bmInitrd = [''install/initrd.gz''],
        bmCmdline = ''auto=true'', bmRequires = []\<rparr>)], mfNotes = [], mfDir = []\<rparr>"

lemma sample_manifest_valid: "Validate sample_manifest = None"
  using validateSchema_None [of "[]"]
  by (simp add: Validate_def sample_manifest_def nameRe_def is_lower_def)

theorem LoadDirs_exact_witness:
  "\<exists>reg. LoadDirs \<lparr>fsReadDir = (\<lambda>d. if d = ''b'' then DirEntries [(''debian'', True)] else DirMissing),
      fsManifest = (\<lambda>p. FileManifest sample_manifest)\<rparr> [''a'', ''b''] = Some reg \<and>
    Get reg ''debian'' = Some (sample_manifest\<lparr>mfDir := Join [''b'', ''debian'']\<rparr>)"
proof -
  let ?fs = "\<lparr>fsReadDir = (\<lambda>d. if d = ''b'' then DirEntries [(''debian'', True)] else DirMissing),
      fsManifest = (\<lambda>p. FileManifest sample_manifest)\<rparr>"
  obtain reg where r: "LoadDirs ?fs [''a'', ''b''] = Some reg" by (simp add: LoadDirs_def loadDir_def)
  have "offered ?fs ''b'' ''debian'' = Some (sample_manifest\<lparr>mfDir := Join [''b'', ''debian'']\<rparr>)"
    "offered ?fs ''a'' ''debian'' = None"
    using sample_manifest_valid by (simp_all add: offered_def loadManifest_def) (simp add: sample_manifest_def)
  then show ?thesis
    using LoadDirs_exact [OF r, of "''debian''"] r by (simp add: List.map_filter_simps)
qed

end
