(* ===== verification/Answer.thy ===== *)
theory Answer
  imports Schema Netutil
begin

text \<open>
  \<open>backend/internal/answer/answer.go\<close>: rendering answer files and kernel command lines.
  Decoding JSON into a map and the template engine (Go's \<open>encoding/json\<close> and
  \<open>text/template\<close>) are parameters; the merge of the profile configuration with the boot
  parameters is modelled, with the run-time panic it can end in.
\<close>

record Params =
  paAnswerFileURL :: string
  paISOURL :: string
  paISOContentURL :: string
  paCloudInitURL :: string
  paReportURL :: string
  paHostname :: string
  paMAC :: string

text \<open>What \<open>json.Unmarshal\<close> makes of a \<open>map[string]any\<close>: \<open>null\<close> sets it to nil.\<close>

datatype decoded = DecodeError | DecodeNull | DecodeObject document

text \<open>\<open>engine\<close> parses and executes a template; \<open>None\<close> is an error of either step.\<close>

record render_env =
  reUnmarshal :: "string \<Rightarrow> decoded"
  reEngine :: "string \<Rightarrow> document \<Rightarrow> string option"
  reReadFile :: "string \<Rightarrow> string option"

datatype render_error = RenderFailed | RenderPanic

definition merge_params :: "Params \<Rightarrow> document \<Rightarrow> document" where
  "merge_params params data =
     (let data1 = data
          (''AnswerFileURL'' \<mapsto> AStr (paAnswerFileURL params), ''ISOURL'' \<mapsto> AStr (paISOURL params),
           ''ISOContentURL'' \<mapsto> AStr (paISOContentURL params), ''CloudInitURL'' \<mapsto> AStr (paCloudInitURL params),
           ''ReportURL'' \<mapsto> AStr (paReportURL params), ''MAC'' \<mapsto> AStr (paMAC params))
      in if data1 ''Hostname'' = None then data1(''Hostname'' \<mapsto> AStr (paHostname params)) else data1)"

text \<open>\<open>bytes.ReplaceAll\<close> with an empty replacement.\<close>

function remove_all :: "string \<Rightarrow> string \<Rightarrow> string" where
  "remove_all pat s =
     (if s = [] then []
      else if pat \<noteq> [] \<and> take (length pat) s = pat then remove_all pat (drop (length pat) s)
      else hd s # remove_all pat (tl s))"
  by pat_completeness auto
termination
  by (relation "measure (\<lambda>(pat, s). length s)") auto

declare remove_all.simps [simp del]

definition Render :: "render_env \<Rightarrow> string \<Rightarrow> string \<Rightarrow> Params \<Rightarrow> render_error + string" where
  "Render env tmpl configJSON params =
     (let decoded = (if TrimSpace configJSON \<noteq> '''' then reUnmarshal env configJSON else DecodeObject Map.empty)
      in case decoded of
           DecodeError \<Rightarrow> Inl RenderFailed
         | DecodeNull \<Rightarrow> Inl RenderPanic
         | DecodeObject data \<Rightarrow>
             (case reEngine env tmpl (merge_params params data) of
                None \<Rightarrow> Inl RenderFailed
              | Some out \<Rightarrow> Inr (remove_all ''<no value>'' out)))"

definition RenderFile :: "render_env \<Rightarrow> string \<Rightarrow> string \<Rightarrow> Params \<Rightarrow> render_error + string" where
  "RenderFile env templatePath configJSON params =
     (case reReadFile env templatePath of
        None \<Rightarrow> Inl RenderFailed
      | Some raw \<Rightarrow> Render env raw configJSON params)"

section \<open>The merge\<close>

lemma merge_params_boot:
  "merge_params params data ''AnswerFileURL'' = Some (AStr (paAnswerFileURL params))"
  "merge_params params data ''ISOURL'' = Some (AStr (paISOURL params))"
  "merge_params params data ''ISOContentURL'' = Some (AStr (paISOContentURL params))"
  "merge_params params data ''CloudInitURL'' = Some (AStr (paCloudInitURL params))"
  "merge_params params data ''ReportURL'' = Some (AStr (paReportURL params))"
  "merge_params params data ''MAC'' = Some (AStr (paMAC params))"
  by (simp_all add: merge_params_def Let_def)

lemma merge_params_hostname:
  "merge_params params data ''Hostname'' =
     Some (case data ''Hostname'' of Some v \<Rightarrow> v | None \<Rightarrow> AStr (paHostname params))"
  by (simp add: merge_params_def Let_def split: option.splits)

definition boot_keys :: "string list" where
  "boot_keys = [''AnswerFileURL'', ''ISOURL'', ''ISOContentURL'', ''CloudInitURL'', ''ReportURL'', ''MAC'', ''Hostname'']"

lemma merge_params_other: "k \<notin> set boot_keys \<Longrightarrow> merge_params params data k = data k"
  by (simp add: merge_params_def boot_keys_def Let_def)

section \<open>Properties\<close>

text \<open>C38: Boot parameters win.  A rendered file comes from the template engine run on a document in
  which the boot addresses and the MAC are the ones of this installation whatever the profile
  says, the host name is the profile's if it sets one, and everything else is the profile's.\<close>

theorem Render_parameters:
  assumes "Render env tmpl configJSON params = Inr out"
  obtains data doc where
    "TrimSpace configJSON = '''' \<and> doc = Map.empty \<or> reUnmarshal env configJSON = DecodeObject doc"
    and "reEngine env tmpl data \<noteq> None" and "out = remove_all ''<no value>'' (the (reEngine env tmpl data))"
    and "data ''AnswerFileURL'' = Some (AStr (paAnswerFileURL params))"
    and "data ''ReportURL'' = Some (AStr (paReportURL params))"
    and "data ''CloudInitURL'' = Some (AStr (paCloudInitURL params))"
    and "data ''ISOURL'' = Some (AStr (paISOURL params))"
    and "data ''ISOContentURL'' = Some (AStr (paISOContentURL params))"
    and "data ''MAC'' = Some (AStr (paMAC params))"
    and "data ''Hostname'' = Some (case doc ''Hostname'' of Some v \<Rightarrow> v | None \<Rightarrow> AStr (paHostname params))"
    and "\<forall>k. k \<notin> set boot_keys \<longrightarrow> data k = doc k"
proof -
  obtain doc raw where doc: "TrimSpace configJSON = '''' \<and> doc = Map.empty \<or> reUnmarshal env configJSON = DecodeObject doc"
    and raw: "reEngine env tmpl (merge_params params doc) = Some raw" "out = remove_all ''<no value>'' raw"
  proof (cases "TrimSpace configJSON = ''''")
    case True
    then show thesis using that [of Map.empty] assms by (auto simp: Render_def split: option.splits)
  next
    case False
    then show thesis
      using that assms by (auto simp: Render_def split: decoded.splits option.splits)
  qed
  have out: "reEngine env tmpl (merge_params params doc) \<noteq> None"
      "out = remove_all ''<no value>'' (the (reEngine env tmpl (merge_params params doc)))"
    using raw by simp_all
  show thesis
    by (rule that [OF doc out merge_params_boot(1,5,4,2,3,6) merge_params_hostname])
       (simp add: merge_params_other)
qed

theorem Render_parameters_witness:
  "\<exists>data. data ''MAC'' = Some (AStr ''aa'') \<and>
     Render \<lparr>reUnmarshal = (\<lambda>s. DecodeObject [''MAC'' \<mapsto> AStr ''evil'']),
        reEngine = (\<lambda>t d. if d ''MAC'' = Some (AStr ''aa'') then Some ''ok'' else None), reReadFile = (\<lambda>p. None)\<rparr>
      ''{{.MAC}}'' ''{}'' \<lparr>paAnswerFileURL = [], paISOURL = [], paISOContentURL = [], paCloudInitURL = [],
        paReportURL = [], paHostname = [], paMAC = ''aa''\<rparr> = Inr ''ok''"
  (is "\<exists>data. _ \<and> Render ?env ?t ?c ?p = _")
proof -
  have ok: "remove_all ''<no value>'' ''ok'' = ''ok''" by (simp add: remove_all.simps)
  have R: "Render ?env ?t ?c ?p = Inr ''ok''"
    by (cases "TrimSpace ?c = []") (simp_all only: Render_def Let_def ok decoded.case not_True_eq_False
        not_False_eq_True if_True if_False render_env.select_convs merge_params_boot(6) Params.select_convs option.case refl)
  from Render_parameters [OF R] obtain data where "data ''MAC'' = Some (AStr (paMAC ?p))" by metis
  with R show ?thesis by auto
qed

text \<open>A profile whose configuration is the JSON document \<open>null\<close> crashes the renderer: decoding
  sets the map to nil and storing the first boot parameter in it is a run-time panic, for every
  template and every host.\<close>

theorem Render_null_panics:
  assumes "TrimSpace configJSON \<noteq> ''''" and "reUnmarshal env configJSON = DecodeNull"
  shows "Render env tmpl configJSON params = Inl RenderPanic"
  using assms by (simp add: Render_def)

theorem Render_null_panics_witness:
  "Render \<lparr>reUnmarshal = (\<lambda>s. if s = ''null'' then DecodeNull else DecodeError), reEngine = (\<lambda>t d. Some t),
     reReadFile = (\<lambda>p. None)\<rparr> ''x'' ''null'' \<lparr>paAnswerFileURL = [], paISOURL = [], paISOContentURL = [],
       paCloudInitURL = [], paReportURL = [], paHostname = [], paMAC = ''aa''\<rparr> = Inl RenderPanic"
proof -
  have "TrimSpace ''null'' = ''null''"
    by (rule TrimSpace_id) (simp_all add: blank_byte_def)
  then show ?thesis by (intro Render_null_panics) simp_all
qed
end
