(* ===== verification/Iso.thy ===== *)
theory Iso
  imports Provider Store_Facts Netutil
begin

text \<open>
  \<open>backend/internal/iso/iso.go\<close>: the ISO library.  The directory of images is a map from file
  names to contents, next to the database rows.  Reading an ISO 9660 image (the package
  \<open>kdomanski/iso9660\<close>) is a parameter that gives the label and the directory tree of a content;
  SHA-256 is a parameter too.  Matching providers, looking up files, importing, scanning and
  deleting are modelled.
\<close>

section \<open>Images\<close>

text \<open>\<open>None\<close> children: the directory could not be read.\<close>

datatype iso_node = IsoDir (node_name: string) "iso_node list option" | IsoFile (node_name: string) string

record iso_image =
  imLabel :: "string option"
  imRoot :: "iso_node option"

fun walk :: "iso_node \<Rightarrow> string list \<Rightarrow> iso_node option" where
  "walk node [] = Some node"
| "walk node (seg # segs) =
     (case node of
        IsoFile _ _ \<Rightarrow> None
      | IsoDir _ None \<Rightarrow> None
      | IsoDir _ (Some children) \<Rightarrow>
          (case List.find (\<lambda>c. EqualFold (trim_suffix (node_name c) '';1'') seg) children of
             None \<Rightarrow> None
           | Some c \<Rightarrow> walk c segs))"

definition trim_slashes :: "string \<Rightarrow> string" where
  "trim_slashes s = rev (dropWhile (\<lambda>c. c = CHR ''/'') (rev (dropWhile (\<lambda>c. c = CHR ''/'') s)))"

definition findFile :: "iso_image \<Rightarrow> string \<Rightarrow> iso_node option" where
  "findFile img p =
     (case imRoot img of
        None \<Rightarrow> None
      | Some r0 \<Rightarrow> walk r0 (split_on (CHR ''/'') (trim_slashes p)))"

definition fileExists :: "iso_image \<Rightarrow> string \<Rightarrow> bool" where
  "fileExists img p \<longleftrightarrow> findFile img p \<noteq> None"

definition detectBootloader :: "iso_image \<Rightarrow> string" where
  "detectBootloader img =
     (let efi = fileExists img ''EFI'' \<or> fileExists img ''efi'';
          bios = fileExists img ''isolinux'' \<or> fileExists img ''boot/syslinux'' \<or> fileExists img ''boot/grub''
      in if efi \<and> bios then ''hybrid'' else if efi then ''uefi'' else if bios then ''bios'' else '''')"

section \<open>Glob patterns\<close>

text \<open>
  \<open>path.Match\<close> (on bytes; exact for ASCII): \<open>*\<close> and \<open>?\<close> do not match a slash, a class may.
  A malformed pattern matches nothing, as its caller treats the error.
\<close>

definition class_char :: "string \<Rightarrow> (char \<times> string) option" where
  "class_char p =
     (case p of
        [] \<Rightarrow> None
      | c # r \<Rightarrow>
          if c = CHR ''-'' \<or> c = CHR '']'' then None
          else if c = CHR 0x5C then (case r of [] \<Rightarrow> None | [_] \<Rightarrow> None | e # r' \<Rightarrow> Some (e, r'))
          else if r = [] then None else Some (c, r))"

lemma class_char_length: "class_char p = Some (c, r) \<Longrightarrow> length r < length p"
  by (auto simp: class_char_def split: list.splits if_splits)

text \<open>The ranges of a class up to its closing bracket, and the rest of the pattern.\<close>

function class_ranges :: "bool \<Rightarrow> string \<Rightarrow> ((char \<times> char) list \<times> string) option" where
  "class_ranges first p =
     (if \<not> first \<and> p \<noteq> [] \<and> hd p = CHR '']'' then Some ([], tl p)
      else case class_char p of
             None \<Rightarrow> None
           | Some (lo, r) \<Rightarrow>
               if r \<noteq> [] \<and> hd r = CHR ''-'' then
                 (case class_char (tl r) of
                    None \<Rightarrow> None
                  | Some (hi, r') \<Rightarrow>
                      map_option (\<lambda>(rs, rest). ((lo, hi) # rs, rest)) (class_ranges False r'))
               else map_option (\<lambda>(rs, rest). ((lo, lo) # rs, rest)) (class_ranges False r))"
  by pat_completeness auto
termination
proof (relation "measure (\<lambda>(first, p). length p)", goal_cases)
  case (2 first p a lo r b hi r')
  then have "class_char p = Some (lo, r)" "class_char (tl r) = Some (hi, r')" by simp_all
  from this [THEN class_char_length] show ?case by simp
next
  case (3 first p a lo r)
  then have "class_char p = Some (lo, r)" by simp
  from class_char_length [OF this] show ?case by simp
qed simp

declare class_ranges.simps [simp del]

lemma class_ranges_length: "class_ranges first p = Some (rs, rest) \<Longrightarrow> length rest < length p"
proof (induction first p arbitrary: rs rest rule: class_ranges.induct)
  case (1 first p)
  show ?case
  proof (cases "\<not> first \<and> p \<noteq> [] \<and> hd p = CHR '']''")
    case True
    then have "class_ranges first p = Some ([], tl p)" by (subst class_ranges.simps) simp
    then show ?thesis using "1.prems" True by (cases p) simp_all
  next
    case False
    then obtain lo r where c: "class_char p = Some (lo, r)"
      using "1.prems" by (auto simp: class_ranges.simps [of first p] split: option.splits if_splits)
    have len: "length r < length p" by (rule class_char_length [OF c])
    show ?thesis
    proof (cases "r \<noteq> [] \<and> hd r = CHR ''-''")
      case True
      then obtain hi r' where c': "class_char (tl r) = Some (hi, r')"
        using "1.prems" False c by (auto simp: class_ranges.simps [of first p] split: option.splits)
      have "length r' < length (tl r)" by (rule class_char_length [OF c'])
      moreover obtain rs' where "class_ranges False r' = Some (rs', rest)"
        using "1.prems" False c c' True by (auto simp: class_ranges.simps [of first p])
      from "1.IH"(1) [OF False c refl True c' refl this] have "length rest < length r'" .
      ultimately show ?thesis using len by simp
    next
      case no: False
      then obtain rs' where "class_ranges False r = Some (rs', rest)"
        using "1.prems" False c by (auto simp: class_ranges.simps [of first p] split: if_splits)
      from "1.IH"(2) [OF False c refl no this] show ?thesis using len by simp
    qed
  qed
qed

definition in_ranges :: "char \<Rightarrow> (char \<times> char) list \<Rightarrow> bool" where
  "in_ranges c rs \<longleftrightarrow> list_ex (\<lambda>(lo, hi). (of_char lo :: nat) \<le> of_char c \<and> of_char c \<le> (of_char hi :: nat)) rs"

function glob :: "string \<Rightarrow> string \<Rightarrow> bool" where
  "glob [] s = (s = [])"
| "glob (p # ps) s =
     (if p = CHR ''*'' then glob ps s \<or> (if s = [] \<or> hd s = CHR ''/'' then False else glob (p # ps) (tl s))
      else if p = CHR ''?'' then s \<noteq> [] \<and> hd s \<noteq> CHR ''/'' \<and> glob ps (tl s)
      else if p = CHR ''['' then
        (let neg = (ps \<noteq> [] \<and> hd ps = CHR ''^'') in
         case class_ranges True (if neg then tl ps else ps) of
           None \<Rightarrow> False
         | Some (rs, rest) \<Rightarrow> s \<noteq> [] \<and> in_ranges (hd s) rs \<noteq> neg \<and> glob rest (tl s))
      else if p = CHR 0x5C then
        ps \<noteq> [] \<and> s \<noteq> [] \<and> hd s = hd ps \<and> glob (tl ps) (tl s)
      else s \<noteq> [] \<and> hd s = p \<and> glob ps (tl s))"
  by pat_completeness auto
termination
proof (relation "measure (\<lambda>(p, s). length p + length s)", goal_cases)
  case (5 p ps s neg x rs rest)
  then have "length rest < length (if neg then tl ps else ps)" using class_ranges_length by metis
  then have "length rest < length ps + 1" by (auto split: if_splits)
  then show ?case by simp
qed (auto simp: neq_Nil_conv)

declare glob.simps [simp del]

section \<open>Matching providers\<close>

definition all_files :: "iso_image \<Rightarrow> Manifest \<Rightarrow> bool" where
  "all_files img m \<longleftrightarrow> mfDetectFiles m \<noteq> [] \<and> list_all (fileExists img) (mfDetectFiles m)"

definition better_match :: "iso_image \<Rightarrow> Manifest \<Rightarrow> Manifest option \<Rightarrow> Manifest option" where
  "better_match img c best =
     (if all_files img c \<and>
         (case best of None \<Rightarrow> True | Some b \<Rightarrow> length (mfDetectFiles c) > length (mfDetectFiles b))
      then Some c else best)"

definition mostSpecificFileMatch :: "iso_image \<Rightarrow> Manifest list \<Rightarrow> Manifest option" where
  "mostSpecificFileMatch img candidates = fold (better_match img) candidates None"

definition volume_match :: "string \<Rightarrow> Manifest \<Rightarrow> bool" where
  "volume_match volumeID m \<longleftrightarrow> list_ex (\<lambda>pattern. glob pattern volumeID) (mfVolumeIDPatterns m)"

definition match_provider :: "registry \<Rightarrow> iso_image \<Rightarrow> string \<Rightarrow> Manifest option" where
  "match_provider reg img volumeID =
     (case filter (volume_match volumeID) (All reg) of
        [] \<Rightarrow> List.find (all_files img) (All reg)
      | [c] \<Rightarrow> Some c
      | c # cs \<Rightarrow> (case mostSpecificFileMatch img (c # cs) of Some best \<Rightarrow> Some best | None \<Rightarrow> Some c))"

section \<open>The library\<close>

text \<open>\<open>open_image\<close>: the reader of ISO 9660 contents; \<open>sha\<close>: the hash of a content in hexadecimal.\<close>

record iso_env =
  ieOpenImage :: "string \<Rightarrow> iso_image option"
  ieSHA :: "string \<Rightarrow> string"
  ieRegistry :: registry

type_synonym library = "string \<rightharpoonup> string"

datatype iso_error = ErrInvalidFilename | ErrExists | ErrUpload | IsoStore store_error

text \<open>The pattern \<open>[A-Za-z0-9][A-Za-z0-9._+-]*\<close> followed by \<open>.iso\<close> or \<open>.img\<close>.\<close>

definition is_alnum :: "char \<Rightarrow> bool" where
  "is_alnum c \<longleftrightarrow> is_upper c \<or> is_lower c \<or> is_digit c"

definition filenameRe :: "string \<Rightarrow> bool" where
  "filenameRe s \<longleftrightarrow> length s > 4 \<and> (has_suffix s ''.iso'' \<or> has_suffix s ''.img'') \<and>
     is_alnum (hd s) \<and>
     list_all (\<lambda>c. is_alnum c \<or> c \<in> {CHR ''.'', CHR ''_'', CHR ''+'', CHR ''-''}) (take (length s - 4) s)"

record analysis =
  anVolumeID :: string
  anBootloader :: string
  anProvider :: "Manifest option"

definition analyze :: "iso_env \<Rightarrow> string \<Rightarrow> analysis option" where
  "analyze env content =
     (case ieOpenImage env content of
        None \<Rightarrow> None
      | Some img \<Rightarrow>
          (case imLabel img of
             None \<Rightarrow> None
           | Some label \<Rightarrow>
               let volumeID = TrimSpace label
               in Some \<lparr>anVolumeID = volumeID, anBootloader = detectBootloader img,
                        anProvider = match_provider (ieRegistry env) img volumeID\<rparr>))"

definition blank_image :: "string \<Rightarrow> int \<Rightarrow> string \<Rightarrow> ISOImage" where
  "blank_image filename bytes sha =
     \<lparr>isID = 0, isFilename = filename, isProvider = '''', isOSName = '''', isVersion = '''', isArch = '''',
      isBootloader = '''', isInstallMethod = '''', isSizeBytes = bytes, isSHA256 = sha,
      isStatus = ''unsupported'', isCreatedAt = 0\<rparr>"

definition record_image :: "iso_env \<Rightarrow> string \<Rightarrow> string \<Rightarrow> ISOImage" where
  "record_image env filename content =
     (let img = blank_image filename (int (length content)) (ieSHA env content) in
      case analyze env content of
        None \<Rightarrow> img
      | Some a \<Rightarrow>
          (case anProvider a of
             None \<Rightarrow> img\<lparr>isOSName := anVolumeID a, isBootloader := anBootloader a\<rparr>
           | Some m \<Rightarrow> img\<lparr>isBootloader := anBootloader a, isProvider := mfName m,
               isOSName := mfDisplayName m, isInstallMethod := mfAnswerFormat m, isStatus := ''ready''\<rparr>))"

text \<open>\<open>upload\<close>: the bytes of the body, \<open>None\<close> when reading it fails.\<close>

definition Import ::
    "iso_env \<Rightarrow> instant \<Rightarrow> db \<times> library \<Rightarrow> string \<Rightarrow> string option
     \<Rightarrow> (db \<times> library) \<times> (iso_error + ISOImage)" where
  "Import env now s filename upload =
     (case s of (d, files) \<Rightarrow>
        if \<not> filenameRe filename then (s, Inl ErrInvalidFilename)
        else if files filename \<noteq> None then (s, Inl ErrExists)
        else (case ISOByFilename d filename of
                Inr _ \<Rightarrow> (s, Inl ErrExists)
              | Inl _ \<Rightarrow>
                  (case upload of
                     None \<Rightarrow> (s, Inl ErrUpload)
                   | Some content \<Rightarrow>
                       let files' = files(filename \<mapsto> content) in
                       (case CreateISO now d (record_image env filename content) of
                          Inl e \<Rightarrow> ((d, files'), Inl (IsoStore e))
                        | Inr (d', img) \<Rightarrow> ((d', files'), Inr img)))))"

text \<open>The entries of the directory in order, each with whether it is a directory.\<close>

fun scan_entries ::
    "iso_env \<Rightarrow> instant \<Rightarrow> library \<Rightarrow> db \<Rightarrow> (string \<times> bool) list \<Rightarrow> db \<times> (iso_error + ISOImage list)" where
  "scan_entries env now files d [] = (d, Inr [])"
| "scan_entries env now files d ((name, isDir) # es) =
     (if isDir \<or> \<not> filenameRe name then scan_entries env now files d es
      else case ISOByFilename d name of
             Inr _ \<Rightarrow> scan_entries env now files d es
           | Inl _ \<Rightarrow>
               (case files name of
                  None \<Rightarrow> scan_entries env now files d es
                | Some content \<Rightarrow>
                    (case CreateISO now d (record_image env name content) of
                       Inl e \<Rightarrow> (d, Inl (IsoStore e))
                     | Inr (d', img) \<Rightarrow>
                         (case scan_entries env now files d' es of
                            (d'', Inl e) \<Rightarrow> (d'', Inl e)
                          | (d'', Inr imgs) \<Rightarrow> (d'', Inr (img # imgs))))))"

definition ScanDir ::
    "iso_env \<Rightarrow> instant \<Rightarrow> db \<times> library \<Rightarrow> (string \<times> bool) list \<Rightarrow> (db \<times> library) \<times> (iso_error + ISOImage list)" where
  "ScanDir env now s entries =
     (case scan_entries env now (snd s) (fst s) entries of (d, r) \<Rightarrow> ((d, snd s), r))"

definition iso_Delete :: "db \<times> library \<Rightarrow> int \<Rightarrow> (db \<times> library) \<times> (iso_error + unit)" where
  "iso_Delete s i =
     (case s of (d, files) \<Rightarrow>
        (case ISOByID d i of
           Inl e \<Rightarrow> (s, Inl (IsoStore e))
         | Inr img \<Rightarrow>
             (case DeleteISO d i of
                Inl e \<Rightarrow> (s, Inl (IsoStore e))
              | Inr (d', _) \<Rightarrow> ((d', files(Base (isFilename img) := None)), Inr ()))))"

definition iso_Path :: "string \<Rightarrow> string \<Rightarrow> string" where
  "iso_Path dir filename = Join [dir, Base filename]"

text \<open>A directory inside the image, and everything unreadable, is "not found".\<close>

definition OpenFileInISO :: "iso_env \<Rightarrow> library \<Rightarrow> string \<Rightarrow> string \<Rightarrow> string option" where
  "OpenFileInISO env files isoFilename innerPath =
     (case files (Base isoFilename) of
        None \<Rightarrow> None
      | Some content \<Rightarrow>
          (case ieOpenImage env content of
             None \<Rightarrow> None
           | Some img \<Rightarrow>
               (case findFile img innerPath of
                  Some (IsoFile _ bytes) \<Rightarrow> Some bytes
                | _ \<Rightarrow> None)))"

section \<open>File names\<close>

lemma alnum_plain: "is_alnum c \<Longrightarrow> c \<noteq> CHR ''/'' \<and> c \<noteq> CHR ''.''"
  by (auto simp: is_alnum_def is_upper_def is_lower_def is_digit_def)

lemma filenameRe_plain:
  assumes "filenameRe s"
  shows "CHR ''/'' \<notin> set s" and "proper_seg s" and "Base s = s"
proof -
  have suf: "drop (length s - 4) s = ''.iso'' \<or> drop (length s - 4) s = ''.img''"
    using assms by (auto simp: filenameRe_def has_suffix_def numeral_eq_Suc)
  have "CHR ''/'' \<notin> set (take (length s - 4) s)"
    using assms alnum_plain by (auto simp: filenameRe_def list_all_iff)
  moreover have "CHR ''/'' \<notin> set (drop (length s - 4) s)" using suf by auto
  ultimately show no: "CHR ''/'' \<notin> set s" by (metis UnE append_take_drop_id set_append)
  have ne: "s \<noteq> []" and hd: "hd s \<noteq> CHR ''.''" using assms alnum_plain by (auto simp: filenameRe_def)
  then show "proper_seg s" using no by (auto simp: proper_seg_def)
  have "last s \<noteq> CHR ''/''" using no ne by (metis last_in_set)
  then have "dropWhile (\<lambda>c. c = CHR ''/'') (rev s) = rev s"
    using ne by (cases "rev s") (auto simp: hd_rev [symmetric])
  then show "Base s = s" using ne no by (simp add: Base_def split_on_id)
qed

section \<open>Matching\<close>

text \<open>The best of the candidates whose files all exist: the most files, the first among equals.\<close>

definition best_of :: "iso_image \<Rightarrow> Manifest list \<Rightarrow> Manifest option \<Rightarrow> bool" where
  "best_of img cs r \<longleftrightarrow>
     (case r of
        None \<Rightarrow> \<forall>c\<in>set cs. \<not> all_files img c
      | Some b \<Rightarrow> b \<in> set cs \<and> all_files img b \<and>
          (\<forall>c\<in>set cs. all_files img c \<longrightarrow> length (mfDetectFiles c) \<le> length (mfDetectFiles b)))"

lemma best_of_step:
  assumes "best_of img cs r"
  shows "best_of img (cs @ [c]) (better_match img c r)"
proof (cases r)
  case None
  then show ?thesis using assms by (auto simp: best_of_def better_match_def)
next
  case (Some b)
  then show ?thesis
    using assms by (auto simp: best_of_def better_match_def)
qed

lemma mostSpecific_best: "best_of img cs (mostSpecificFileMatch img cs)"
proof -
  have "best_of img done r \<Longrightarrow> best_of img (done @ cs) (fold (better_match img) cs r)" for "done" r
  proof (induction cs arbitrary: "done" r)
    case (Cons c cs)
    then show ?case using Cons.IH [OF best_of_step [OF Cons.prems, of c]] by simp
  qed simp
  from this [of "[]" None] show ?thesis by (simp add: mostSpecificFileMatch_def best_of_def)
qed

section \<open>Properties\<close>

text \<open>Provider detection.  The analyzer names a provider exactly when some provider's volume-ID
  pattern or complete file list matches; a volume-ID match beats a file match; and among several
  volume-ID matches the one whose complete file list is the longest wins, if any list is
  complete.\<close>

theorem match_provider_exact:
  "case match_provider reg img vid of
     None \<Rightarrow> list_all (\<lambda>m. \<not> volume_match vid m \<and> \<not> all_files img m) (All reg)
   | Some m \<Rightarrow> m \<in> set (All reg) \<and>
       (if list_ex (volume_match vid) (All reg)
        then volume_match vid m \<and>
          (if list_ex (all_files img) (filter (volume_match vid) (All reg))
           then best_of img (filter (volume_match vid) (All reg)) (Some m) else True)
        else all_files img m)"
proof -
  define cs where "cs = filter (volume_match vid) (All reg)"
  have ex: "list_ex (volume_match vid) (All reg) \<longleftrightarrow> cs \<noteq> []"
    by (auto simp: cs_def filter_empty_conv list_ex_iff)
  consider (none) "cs = []" | (one) c where "cs = [c]" | (many) c d es where "cs = c # d # es"
    by (metis list.exhaust)
  then show ?thesis
  proof cases
    case none
    then have "m \<in> set (All reg) \<Longrightarrow> \<not> volume_match vid m" for m by (auto simp: cs_def filter_empty_conv)
    then show ?thesis
      using none ex by (auto simp: match_provider_def cs_def [symmetric] list_all_iff find_None_iff find_Some_iff split: option.splits)
  next
    case one
    then have "c \<in> set (All reg)" "volume_match vid c" by (auto simp: cs_def dest!: arg_cong [of _ _ set])
    then show ?thesis using one ex by (simp add: match_provider_def cs_def [symmetric] best_of_def)
  next
    case many
    then have in_cs: "m \<in> set cs \<Longrightarrow> m \<in> set (All reg) \<and> volume_match vid m" for m by (simp add: cs_def)
    have b: "best_of img cs (mostSpecificFileMatch img cs)" by (rule mostSpecific_best)
    have r: "match_provider reg img vid = (case mostSpecificFileMatch img cs of Some m \<Rightarrow> Some m | None \<Rightarrow> Some c)"
      using many by (simp add: match_provider_def cs_def [symmetric])
    show ?thesis
    proof (cases "mostSpecificFileMatch img cs")
      case None
      then have "\<not> list_ex (all_files img) cs"
        using b many by (auto simp: best_of_def list_ex_iff)
      then show ?thesis using r None ex many in_cs [of c] by (simp add: cs_def [symmetric])
    next
      case (Some m)
      then have "m \<in> set cs" using b by (simp add: best_of_def)
      then show ?thesis using r Some b ex many in_cs [of m] by (simp add: cs_def [symmetric])
    qed
  qed
qed

text \<open>Importing an image is exact and never touches another one.  An accepted name is a plain
  file name (no separator, no leading dot); on success the stored file is the uploaded bytes,
  every other file is as it was, and the database row of that name carries the hash and the size
  of those bytes; on any error neither the files nor the database change.\<close>

theorem Import_exact:
  assumes "Import env now (d, files) filename upload = ((d', files'), r)"
  shows "case r of
      Inr img \<Rightarrow> proper_seg filename \<and> files filename = None \<and>
        (\<exists>content. upload = Some content \<and> files' = files(filename \<mapsto> content) \<and>
           isSHA256 img = ieSHA env content \<and> isSizeBytes img = int (length content)) \<and>
        ISOByFilename d' filename = Inr img
    | Inl e \<Rightarrow> d' = d \<and> files' = files"
proof -
  have rec: "isFilename (record_image env filename c) = filename" "isSHA256 (record_image env filename c) = ieSHA env c"
    "isSizeBytes (record_image env filename c) = int (length c)" "iso_status_ok (isStatus (record_image env filename c))" for c
    by (auto simp: record_image_def blank_image_def Let_def iso_status_ok_def split: option.splits)
  show ?thesis
  proof (cases "filenameRe filename \<and> files filename = None \<and> (\<exists>e. ISOByFilename d filename = Inl e) \<and> upload \<noteq> None")
    case False
    then have "d' = d \<and> files' = files \<and> (\<exists>e. r = Inl e)"
      using assms by (auto simp: Import_def split: if_splits sum.splits option.splits)
    then show ?thesis by auto
  next
    case True
    then obtain content where up: "upload = Some content" by blast
    define img where "img = (record_image env filename content)\<lparr>isID := next_iso d, isCreatedAt := stored_time now\<rparr>"
    have fresh: "row_by isFilename filename (isos d) = None"
      using True by (auto simp: ISOByFilename_def found_def split: option.splits)
    then have "CreateISO now d (record_image env filename content) =
        Inr (d\<lparr>isos := isos d @ [img], next_iso := next_iso d + 1\<rparr>, img)"
      by (simp add: CreateISO_def rec Let_def img_def row_by_None)
    then have res: "d' = d\<lparr>isos := isos d @ [img], next_iso := next_iso d + 1\<rparr>" "files' = files(filename \<mapsto> content)" "r = Inr img"
      using assms True up by (auto simp: Import_def)
    have "ISOByFilename d' filename = Inr img"
      using fresh by (simp add: res ISOByFilename_def found_def row_by_append img_def rec)
    then show ?thesis
      using True filenameRe_plain(2) by (auto simp: res up img_def rec)
  qed
qed

definition sample_iso_env :: iso_env where
  "sample_iso_env = \<lparr>ieOpenImage = (\<lambda>c. None), ieSHA = (\<lambda>c. ''hash''), ieRegistry = []\<rparr>"

lemma sample_filename: "filenameRe ''debian.iso''"
  by (simp add: filenameRe_def has_suffix_def is_alnum_def is_lower_def is_upper_def is_digit_def numeral_eq_Suc)

theorem Import_exact_witness:
  "\<exists>d' files' img. Import sample_iso_env 0 (empty_db, Map.empty) ''debian.iso'' (Some ''data'') = ((d', files'), Inr img) \<and>
     files' ''debian.iso'' = Some ''data'' \<and> isSHA256 img = ''hash''"
proof -
  obtain d' files' r where I: "Import sample_iso_env 0 (empty_db, Map.empty) ''debian.iso'' (Some ''data'') = ((d', files'), r)"
    by (metis prod.exhaust)
  moreover have "\<exists>img. r = Inr img"
    using I sample_filename
    by (auto simp: Import_def ISOByFilename_def found_def empty_db_def row_by_def CreateISO_def record_image_def
        blank_image_def analyze_def sample_iso_env_def iso_status_ok_def Let_def)
  ultimately show ?thesis using Import_exact [OF I] by (auto simp: sample_iso_env_def)
qed

lemma scan_entries_step:
  "\<exists>d' imgs. scan_entries env now files d es = (d', Inr imgs) \<and>
     (\<forall>f img. ISOByFilename d f = Inr img \<longrightarrow> ISOByFilename d' f = Inr img) \<and>
     (\<forall>name. (name, False) \<in> set es \<and> filenameRe name \<and> files name \<noteq> None \<longrightarrow> (\<exists>img. ISOByFilename d' name = Inr img))"
proof (induction es arbitrary: d)
  case (Cons e es)
  obtain name isDir where e: "e = (name, isDir)" by (cases e)
  show ?case
  proof (cases "isDir \<or> \<not> filenameRe name \<or> (\<exists>img. ISOByFilename d name = Inr img) \<or> files name = None")
    case True
    then have step: "scan_entries env now files d (e # es) = scan_entries env now files d es"
      by (auto simp: e split: sum.splits)
    show ?thesis unfolding step using Cons.IH [of d] True e by (metis Pair_inject list.set_intros(2) set_ConsD)
  next
    case False
    then obtain content where c: "files name = Some content" by blast
    define img where "img = (record_image env name content)\<lparr>isID := next_iso d, isCreatedAt := stored_time now\<rparr>"
    have fn: "isFilename (record_image env name content) = name" "iso_status_ok (isStatus (record_image env name content))"
      by (auto simp: record_image_def blank_image_def Let_def iso_status_ok_def split: option.splits)
    have fresh: "row_by isFilename name (isos d) = None"
      using False by (auto simp: ISOByFilename_def found_def split: option.splits)
    define d1 where "d1 = d\<lparr>isos := isos d @ [img], next_iso := next_iso d + 1\<rparr>"
    have cr: "CreateISO now d (record_image env name content) = Inr (d1, img)"
      using fresh by (simp add: CreateISO_def fn Let_def img_def d1_def row_by_None)
    have old: "ISOByFilename d1 f = Inr i" if "ISOByFilename d f = Inr i" for f i
      using that by (auto simp: ISOByFilename_def found_def d1_def row_by_append split: option.splits)
    have new: "ISOByFilename d1 name = Inr img"
      using fresh by (simp add: ISOByFilename_def found_def d1_def row_by_append img_def fn)
    obtain d' imgs where IH: "scan_entries env now files d1 es = (d', Inr imgs)"
      "\<forall>f i. ISOByFilename d1 f = Inr i \<longrightarrow> ISOByFilename d' f = Inr i"
      "\<forall>n. (n, False) \<in> set es \<and> filenameRe n \<and> files n \<noteq> None \<longrightarrow> (\<exists>i. ISOByFilename d' n = Inr i)"
      using Cons.IH [of d1] by blast
    obtain err where "ISOByFilename d name = Inl err" using False by (cases "ISOByFilename d name") auto
    then have "scan_entries env now files d (e # es) = (d', Inr (img # imgs))"
      using False IH(1) c cr by (simp add: e)
    then show ?thesis using IH(2,3) old new e by (intro exI [of _ d'] exI [of _ "img # imgs"]) auto
  qed
qed simp

lemma scan_entries_again:
  assumes "\<And>name. (name, False) \<in> set es \<Longrightarrow> filenameRe name \<Longrightarrow> files name \<noteq> None \<Longrightarrow> \<exists>img. ISOByFilename d name = Inr img"
  shows "scan_entries env now files d es = (d, Inr [])"
  using assms
proof (induction es)
  case (Cons e es)
  obtain name isDir where e: "e = (name, isDir)" by (cases e)
  have IH: "scan_entries env now files d es = (d, Inr [])" using Cons by simp
  show ?case
  proof (cases "\<not> isDir \<and> filenameRe name \<and> files name \<noteq> None")
    case True
    then obtain img where "ISOByFilename d name = Inr img" using Cons.prems [of name] by (auto simp: e)
    then show ?thesis using IH by (simp add: e)
  next
    case False
    then show ?thesis using IH by (auto simp: e split: sum.splits option.splits)
  qed
qed simp

text \<open>Scanning is complete and idempotent.  A scan never fails half-way, changes no file, leaves a
  row for every image file of the directory, and a second scan of the same directory finds
  nothing new and changes nothing.\<close>

theorem ScanDir_complete:
  "\<exists>d' imgs. ScanDir env now (d, files) es = ((d', files), Inr imgs) \<and>
     ScanDir env later (d', files) es = ((d', files), Inr []) \<and>
     list_all (\<lambda>(name, isDir). if \<not> isDir \<and> filenameRe name \<and> files name \<noteq> None
       then (\<exists>img. ISOByFilename d' name = Inr img) else True) es"
proof -
  obtain d' imgs where s: "scan_entries env now files d es = (d', Inr imgs)"
    "\<forall>name. (name, False) \<in> set es \<and> filenameRe name \<and> files name \<noteq> None \<longrightarrow> (\<exists>img. ISOByFilename d' name = Inr img)"
    using scan_entries_step [of env now files d es] by blast
  have "scan_entries env later files d' es = (d', Inr [])" by (rule scan_entries_again) (use s(2) in blast)
  with s show ?thesis
    by (intro exI [of _ d'] exI [of _ imgs]) (auto simp: ScanDir_def list_all_iff)
qed

end
