(* ===== verification/Http.thy ===== *)
theory Http
  imports Store Netutil Logging Provider
begin

text \<open>
  What the HTTP handlers of \<open>backend/internal/api\<close> and \<open>backend/internal/boot\<close> share: requests,
  replies, the decoding of JSON bodies into request structs by the rules of \<open>encoding/json\<close>,
  and the error envelope of \<open>api/respond.go\<close>.  The text of the error messages, an English
  fallback beside the stable code, is left out, and so are constant headers.
\<close>

section \<open>JSON bodies\<close>

text \<open>
  A parsed JSON text.  \<open>JInt\<close> is a number literal without fraction and exponent; a member of
  an object carries the raw text of its value, which \<open>json.RawMessage\<close> keeps.
\<close>

datatype json =
  JNull | JBool bool | JInt int | JNum string | JStr string | JArr "json list"
| JObj "(string \<times> string \<times> json) list"

type_synonym 'r json_field = "string \<times> (string \<Rightarrow> json \<Rightarrow> 'r \<Rightarrow> 'r option)"

text \<open>A key names the field with this tag, or else one with the same tag up to letter case.\<close>

definition find_field :: "'r json_field list \<Rightarrow> string \<Rightarrow> 'r json_field option" where
  "find_field fs key =
     (case List.find (\<lambda>(n, _). n = key) fs of
        Some f \<Rightarrow> Some f
      | None \<Rightarrow> List.find (\<lambda>(n, _). EqualFold n key) fs)"

text \<open>\<open>DisallowUnknownFields\<close>: an unknown key is an error.\<close>

fun decode_members :: "'r json_field list \<Rightarrow> (string \<times> string \<times> json) list \<Rightarrow> 'r \<Rightarrow> 'r option" where
  "decode_members fs [] r = Some r"
| "decode_members fs ((k, raw, v) # ms) r =
     (case find_field fs k of
        None \<Rightarrow> None
      | Some (_, upd) \<Rightarrow> (case upd raw v r of None \<Rightarrow> None | Some r' \<Rightarrow> decode_members fs ms r'))"

definition decode_struct :: "'r json_field list \<Rightarrow> 'r \<Rightarrow> json \<Rightarrow> 'r option" where
  "decode_struct fs zero v =
     (case v of JNull \<Rightarrow> Some zero | JObj ms \<Rightarrow> decode_members fs ms zero | _ \<Rightarrow> None)"

definition json_string :: "(string \<Rightarrow> 'r \<Rightarrow> 'r) \<Rightarrow> string \<Rightarrow> json \<Rightarrow> 'r \<Rightarrow> 'r option" where
  "json_string upd raw v r = (case v of JNull \<Rightarrow> Some r | JStr s \<Rightarrow> Some (upd s r) | _ \<Rightarrow> None)"

definition json_bool :: "(bool \<Rightarrow> 'r \<Rightarrow> 'r) \<Rightarrow> string \<Rightarrow> json \<Rightarrow> 'r \<Rightarrow> 'r option" where
  "json_bool upd raw v r = (case v of JNull \<Rightarrow> Some r | JBool b \<Rightarrow> Some (upd b r) | _ \<Rightarrow> None)"

definition json_int :: "(int \<Rightarrow> 'r \<Rightarrow> 'r) \<Rightarrow> string \<Rightarrow> json \<Rightarrow> 'r \<Rightarrow> 'r option" where
  "json_int upd raw v r =
     (case v of
        JNull \<Rightarrow> Some r
      | JInt i \<Rightarrow> if min_int64 \<le> i \<and> i \<le> max_int64 then Some (upd i r) else None
      | _ \<Rightarrow> None)"

definition json_int_ptr :: "(int option \<Rightarrow> 'r \<Rightarrow> 'r) \<Rightarrow> string \<Rightarrow> json \<Rightarrow> 'r \<Rightarrow> 'r option" where
  "json_int_ptr upd raw v r =
     (case v of
        JNull \<Rightarrow> Some (upd None r)
      | JInt i \<Rightarrow> if min_int64 \<le> i \<and> i \<le> max_int64 then Some (upd (Some i) r) else None
      | _ \<Rightarrow> None)"

definition json_raw :: "(string \<Rightarrow> 'r \<Rightarrow> 'r) \<Rightarrow> string \<Rightarrow> json \<Rightarrow> 'r \<Rightarrow> 'r option" where
  "json_raw upd raw v r = Some (upd raw r)"

fun json_texts :: "json list \<Rightarrow> string list option" where
  "json_texts [] = Some []"
| "json_texts (v # vs) =
     (case v of
        JNull \<Rightarrow> map_option ((#) []) (json_texts vs)
      | JStr s \<Rightarrow> map_option ((#) s) (json_texts vs)
      | _ \<Rightarrow> None)"

definition json_strings :: "(string list \<Rightarrow> 'r \<Rightarrow> 'r) \<Rightarrow> string \<Rightarrow> json \<Rightarrow> 'r \<Rightarrow> 'r option" where
  "json_strings upd raw v r =
     (case v of
        JNull \<Rightarrow> Some (upd [] r)
      | JArr vs \<Rightarrow> map_option (\<lambda>ss. upd ss r) (json_texts vs)
      | _ \<Rightarrow> None)"

definition json_struct :: "'r json_field list \<Rightarrow> string \<Rightarrow> json \<Rightarrow> 'r \<Rightarrow> 'r option" where
  "json_struct fs raw v r = decode_struct fs r v"

section \<open>Numbers in text\<close>

text \<open>\<open>fmt.Sscanf\<close> with \<open>%d\<close>: leading space (but no line break), a sign and digits; what follows is ignored.\<close>

definition sscanf_d :: "string \<Rightarrow> int option" where
  "sscanf_d s =
     (let t = trim_left s;
          neg = (case t of c # _ \<Rightarrow> c = CHR ''-'' | [] \<Rightarrow> False);
          u = (case t of c # r \<Rightarrow> if c = CHR ''-'' \<or> c = CHR ''+'' then r else t | [] \<Rightarrow> []);
          ds = takeWhile is_digit u;
          v = (if neg then - int (digits_val ds) else int (digits_val ds))
      in if CHR 0x0A \<in> set (take (length s - length t) s) \<or> ds = [] then None
         else if min_int64 \<le> v \<and> v \<le> max_int64 then Some v else None)"

section \<open>Requests\<close>

text \<open>
  The first part of a multipart body: its form name, file name and content; the content is
  \<open>None\<close> when reading it fails.
\<close>

datatype upload = NotMultipart | NoPart | FirstPart string string "string option"

text \<open>
  \<open>rqBody\<close> is the first JSON value of the body, \<open>None\<close> when the body has none within the limit
  of 1 MiB; \<open>rqQuery\<close> gives the first value of a query parameter or the empty string.
\<close>

record request =
  rqMethod :: string
  rqPath :: "string list"
  rqQuery :: "string \<Rightarrow> string"
  rqHost :: string
  rqRemoteAddr :: string
  rqCookie :: "string option"
  rqCSRFHeader :: string
  rqBody :: "json option"
  rqUpload :: upload

definition decodeJSON :: "(json \<Rightarrow> 'a option) \<Rightarrow> request \<Rightarrow> 'a option" where
  "decodeJSON dec r = (case rqBody r of None \<Rightarrow> None | Some v \<Rightarrow> dec v)"

definition baseURL :: "request \<Rightarrow> string" where
  "baseURL r = ''http://'' @ rqHost r"

text \<open>The path segment \<open>{id}\<close>.\<close>

definition pathID :: "string \<Rightarrow> int option" where
  "pathID seg = (case Atoi seg of (i, err) \<Rightarrow> if err \<or> i < 1 then None else Some i)"

section \<open>Replies\<close>

text \<open>The JSON forms of the rows: a user without the password hash, an installation without its token.\<close>

datatype user_json = UserJSON (ujID: int) (ujUsername: string) (ujRole: Role) (ujLocale: string) (ujCreatedAt: instant)

datatype installation_json =
  InstallationJSON (ijID: int) (ijHostID: int) (ijProfileVersionID: int) (ijStatus: InstallationStatus)
    (ijStartedAt: "instant option") (ijFinishedAt: "instant option") (ijLog: string) (ijCreatedAt: instant)

definition user_json :: "User \<Rightarrow> user_json" where
  "user_json u = UserJSON (uID u) (uUsername u) (uRole u) (uLocale u) (uCreatedAt u)"

definition installation_json :: "Installation \<Rightarrow> installation_json" where
  "installation_json i = InstallationJSON (inID i) (inHostID i) (inProfileVersionID i) (inStatus i)
     (inStartedAt i) (inFinishedAt i) (inLog i) (inCreatedAt i)"

text \<open>A value of a JSON object the handlers build themselves.\<close>

datatype jvalue =
  VBool bool | VInt int | VStr string | VRaw string | VTime instant | VUser user_json
| VList "jvalue list" | VObject "(string \<times> jvalue) list"

datatype payload =
  NoBody
| PlainText string
| Bytes string
| ErrorCode string
| Object "(string \<times> jvalue) list"
| UserBody user_json | UsersBody "user_json list"
| HostBody Host | HostsBody "Host list"
| InstallationBody installation_json | InstallationsBody "installation_json list"
| ProfileBody Profile | ProfilesBody "Profile list" | VersionsBody "ProfileVersion list"
| ISOBody ISOImage | ISOsBody "ISOImage list"
| LogsBody "Entry list" | ProviderBody Manifest | ProvidersBody "Manifest list"

text \<open>A reply with its status and the session cookie it sets (value and maximal age), or a panic.\<close>

datatype outcome = Reply (status: int) (body: payload) (cookie: "(string \<times> int) option") | Panic

definition writeJSON :: "int \<Rightarrow> payload \<Rightarrow> outcome" where
  "writeJSON code p = Reply code p None"

definition writeError :: "int \<Rightarrow> string \<Rightarrow> outcome" where
  "writeError code err = writeJSON code (ErrorCode err)"

definition internalError :: outcome where
  "internalError = writeError 500 ''internal''"

definition storeError :: "store_error \<Rightarrow> outcome" where
  "storeError e = (if e = ErrNotFound then writeError 404 ''not_found'' else internalError)"

definition invalid_json :: outcome where
  "invalid_json = writeError 400 ''validation.invalid_json''"

definition invalid_id :: outcome where
  "invalid_id = writeError 400 ''validation.invalid_id''"

text \<open>\<open>http.Error\<close> and \<open>http.NotFound\<close> of the boot surface write plain text.\<close>

definition http_Error :: "string \<Rightarrow> int \<Rightarrow> outcome" where
  "http_Error msg code = Reply code (PlainText msg) None"

definition http_NotFound :: outcome where
  "http_NotFound = http_Error ''404 page not found'' 404"

definition http_OK :: "string \<Rightarrow> outcome" where
  "http_OK txt = Reply 200 (PlainText txt) None"

definition no_content :: outcome where
  "no_content = Reply 204 NoBody None"

lemmas reply_defs = writeJSON_def writeError_def internalError_def storeError_def invalid_json_def invalid_id_def
  http_Error_def http_NotFound_def http_OK_def no_content_def

text \<open>An audit entry; a failure is logged and dropped.\<close>

definition audit_as :: "instant \<Rightarrow> db \<Rightarrow> User \<Rightarrow> string \<Rightarrow> string \<Rightarrow> int \<Rightarrow> db" where
  "audit_as now d user action entity entityID =
     db_after d (AddAudit now d (Some (uID user)) action entity (int_str entityID))"

section \<open>Facts\<close>

lemma pathID_pos: "pathID seg = Some i \<Longrightarrow> 1 \<le> i \<and> i \<le> max_int64"
  using Atoi_range [of seg] by (auto simp: pathID_def split: prod.splits if_splits)

text \<open>An audit entry touches no other table.\<close>

lemma AddAudit_tables:
  "AddAudit now d u a e i = Inr (d', x) \<Longrightarrow> d' = d\<lparr>audit := audit d'\<rparr>"
  by (auto simp: AddAudit_def split: if_splits)

lemma audit_as_tables: "audit_as now d u a e i = d\<lparr>audit := audit (audit_as now d u a e i)\<rparr>"
  using AddAudit_tables [of now d "Some (uID u)" a e "int_str i"]
  by (auto simp: audit_as_def db_after_def split: sum.splits)

lemma audit_as_simps [simp]:
  "users (audit_as now d u a e i) = users d" "sessions (audit_as now d u a e i) = sessions d"
  "settings (audit_as now d u a e i) = settings d" "isos (audit_as now d u a e i) = isos d"
  "profiles (audit_as now d u a e i) = profiles d" "versions (audit_as now d u a e i) = versions d"
  "hosts (audit_as now d u a e i) = hosts d" "installs (audit_as now d u a e i) = installs d"
  "leases (audit_as now d u a e i) = leases d" "next_host (audit_as now d u a e i) = next_host d"
  "next_install (audit_as now d u a e i) = next_install d" "next_user (audit_as now d u a e i) = next_user d"
  by (subst audit_as_tables, simp)+

end
