(* ===== verification/Boot.thy ===== *)
theory Boot
  imports Http Answer Iso
begin

text \<open>
  The unauthenticated boot surface, \<open>backend/internal/boot/boot.go\<close> and \<open>install.go\<close>: the iPXE
  script of a machine, the answer file and cloud-init seed of an installation, the status report
  of the installer, and the files of an image.  A handler maps the database to the database after
  the request and the reply.  The static assets under \<open>/boot/assets/\<close> are \<open>net/http\<close>'s file
  server; the RFC 3339 text of a time is a parameter.
\<close>

section \<open>Environment\<close>

record boot_env =
  beRegistry :: registry
  beRender :: render_env
  beISO :: iso_env
  beProvidersDir :: string
  beTimestamp :: "instant \<Rightarrow> string"

definition line :: "string \<Rightarrow> string" where
  "line s = s @ [CHR 0x0A]"

section \<open>Request parameters\<close>

definition sanitizeParam :: "string \<Rightarrow> string" where
  "sanitizeParam s = take 32 (filter (\<lambda>c. 0x20 \<le> (of_char c :: nat) \<and> of_char c \<le> (0x7e :: nat)) s)"

definition firmwareParam :: "string \<Rightarrow> string" where
  "firmwareParam s =
     (if ToLower s = ''efi'' then ''uefi'' else if ToLower s = ''pcbios'' then ''bios'' else '''')"

section \<open>The installation context\<close>

record installContext =
  icHost :: Host
  icInstall :: Installation
  icVersion :: ProfileVersion
  icProfile :: Profile
  icISO :: ISOImage
  icManifest :: Manifest

datatype context_lookup = NothingQueued | NotBootable string | Bootable installContext

definition loadInstallContext :: "registry \<Rightarrow> db \<Rightarrow> Host \<Rightarrow> context_lookup" where
  "loadInstallContext reg d host =
     (case ActiveInstallationForHost d (hID host) of
        Inl _ \<Rightarrow> NothingQueued
      | Inr inst \<Rightarrow>
     (case ProfileVersionByID d (inProfileVersionID inst) of
        Inl _ \<Rightarrow> NotBootable ''profile version missing''
      | Inr ver \<Rightarrow>
     (case ProfileByID d (pvProfileID ver) of
        Inl _ \<Rightarrow> NotBootable ''profile missing''
      | Inr prof \<Rightarrow>
     (case Get reg (pfProvider prof) of
        None \<Rightarrow> NotBootable (''provider '' @ pfProvider prof @ '' is not installed'')
      | Some m \<Rightarrow>
     (case pfISOID prof of
        None \<Rightarrow> NotBootable ''profile has no ISO assigned''
      | Some isoID \<Rightarrow>
     (case ISOByID d isoID of
        Inl _ \<Rightarrow> NotBootable ''assigned ISO is missing''
      | Inr img \<Rightarrow>
          Bootable \<lparr>icHost = host, icInstall = inst, icVersion = ver, icProfile = prof, icISO = img,
                    icManifest = m\<rparr>))))))"

definition answerParams :: "string \<Rightarrow> installContext \<Rightarrow> Params" where
  "answerParams base ic =
     (let token = inToken (icInstall ic); isoID = int_str (isID (icISO ic)) in
      \<lparr>paAnswerFileURL = base @ ''/boot/answer/'' @ token,
       paISOURL = base @ ''/boot/isofile/'' @ isoID,
       paISOContentURL = base @ ''/boot/iso/'' @ isoID,
       paCloudInitURL = base @ ''/boot/cloudinit/'' @ token @ ''/'',
       paReportURL = base @ ''/boot/report/'' @ token,
       paHostname = hHostname (icHost ic),
       paMAC = hMAC (icHost ic)\<rparr>)"

section \<open>Scripts\<close>

definition messageScript :: "string \<Rightarrow> string" where
  "messageScript msg = line ''#!ipxe'' @ line (''echo HELBOOT: '' @ msg) @ line ''sleep 5'' @ line ''exit''"

text \<open>A path with a slash is inside the image, a bare name is a boot asset.\<close>

definition resolve_path :: "string \<Rightarrow> installContext \<Rightarrow> string \<Rightarrow> string" where
  "resolve_path base ic p =
     (if CHR ''/'' \<in> set p
      then base @ ''/boot/iso/'' @ int_str (isID (icISO ic)) @ ''/'' @ trim_prefix p ''/''
      else base @ ''/boot/assets/'' @ p)"

text \<open>\<open>source=localname\<close>, split at the last equals sign.\<close>

definition split_initrd :: "string \<Rightarrow> string \<times> string" where
  "split_initrd s =
     (if CHR ''='' \<in> set s
      then let name = rev (takeWhile (\<lambda>c. c \<noteq> CHR ''='') (rev s))
           in (take (length s - length name - 1) s, name)
      else (s, ''''))"

definition initrd_line :: "string \<Rightarrow> installContext \<Rightarrow> string \<Rightarrow> string" where
  "initrd_line base ic initrd =
     (case split_initrd initrd of (src, name) \<Rightarrow>
        if name \<noteq> '''' then line (''initrd '' @ resolve_path base ic src @ '' '' @ name)
        else line (''initrd '' @ resolve_path base ic src))"

definition boot_method :: "Manifest \<Rightarrow> BootMethod option" where
  "boot_method m =
     (case map_of (mfBoot m) ''pxe'' of Some b \<Rightarrow> Some b | None \<Rightarrow> map_of (mfBoot m) ''http_boot'')"

text \<open>\<open>None\<close>: rendering the command line panics.\<close>

definition installScript :: "boot_env \<Rightarrow> string \<Rightarrow> installContext \<Rightarrow> string option" where
  "installScript env base ic =
     (case boot_method (icManifest ic) of
        None \<Rightarrow> Some (messageScript (''provider '' @ mfName (icManifest ic) @ '' does not support network boot''))
      | Some b \<Rightarrow>
          (case Render (beRender env) (bmCmdline b) (pvConfig (icVersion ic)) (answerParams base ic) of
             Inl RenderPanic \<Rightarrow> None
           | Inl RenderFailed \<Rightarrow> Some (messageScript ''boot configuration error, check the HELBOOT logs'')
           | Inr cmdline \<Rightarrow>
               Some (line ''#!ipxe''
                 @ line (''echo HELBOOT: installing '' @ pfName (icProfile ic) @ '' on '' @ hMAC (icHost ic))
                 @ line (''kernel '' @ resolve_path base ic (bmKernel b) @ '' '' @ TrimSpace cmdline)
                 @ concat (map (initrd_line base ic) (bmInitrd b))
                 @ line ''boot'')))"

text \<open>The line on which the script hands over to the installer.\<close>

definition boots :: "string \<Rightarrow> bool" where
  "boots script \<longleftrightarrow> contains script (CHR 0x0A # line ''boot'')"

definition markInstalling :: "instant \<Rightarrow> db \<Rightarrow> installContext \<Rightarrow> db" where
  "markInstalling now d ic =
     (if inStatus (icInstall ic) \<noteq> InstallWaiting then d
      else case MarkInstallationStarted d (inID (icInstall ic)) now of
             Inl _ \<Rightarrow> d
           | Inr (d1, _) \<Rightarrow> db_after d1 (UpdateHost now d1 ((icHost ic)\<lparr>hStatus := HostInstalling\<rparr>)))"

definition scriptFor :: "boot_env \<Rightarrow> instant \<Rightarrow> db \<Rightarrow> string \<Rightarrow> Host \<Rightarrow> db \<times> string option" where
  "scriptFor env now d base host =
     (case loadInstallContext (beRegistry env) d host of
        Bootable ic \<Rightarrow>
          (case installScript env base ic of
             None \<Rightarrow> (d, None)
           | Some script \<Rightarrow> (if boots script then markInstalling now d ic else d, Some script))
      | NotBootable reason \<Rightarrow>
          (d, Some (messageScript (''installation for '' @ hMAC host @ '' is not bootable: '' @ reason)))
      | NothingQueued \<Rightarrow>
          (d, Some (line ''#!ipxe'' @
             (case hStatus host of
                HostDiscovered \<Rightarrow>
                  line (''echo HELBOOT: host '' @ hMAC host @ '' discovered - assign a profile in the web UI'')
                  @ line ''sleep 5'' @ line ''exit''
              | _ \<Rightarrow>
                  line (''echo HELBOOT: host '' @ hMAC host @ '' has no pending installation, booting local disk'')
                  @ line ''exit''))))"

definition discover :: "instant \<Rightarrow> db \<Rightarrow> string \<Rightarrow> request \<Rightarrow> db \<times> Host" where
  "discover now d mac r =
     (let host = \<lparr>hID = 0, hMAC = mac, hHostname = '''', hVendor = '''', hModel = '''', hSerial = '''',
                  hAssetID = '''', hTags = [], hFirmware = firmwareParam (rqQuery r ''firmware''),
                  hArch = sanitizeParam (rqQuery r ''arch''), hProfileID = None, hProfileVersion = 0,
                  hStatus = HostDiscovered, hCreatedAt = 0, hUpdatedAt = 0\<rparr>
      in case CreateHost now d host of Inl _ \<Rightarrow> (d, host) | Inr (d', created) \<Rightarrow> (d', created))"

definition retry_script :: string where
  "retry_script = line ''#!ipxe'' @
     line ''chain /boot/ipxe?mac=${net0/mac}&arch=${buildarch}&firmware=${platform}''"

definition handleScript :: "boot_env \<Rightarrow> instant \<Rightarrow> db \<Rightarrow> request \<Rightarrow> db \<times> outcome" where
  "handleScript env now d r =
     (case NormalizeMAC (rqQuery r ''mac'') of
        Inl _ \<Rightarrow> (d, http_OK retry_script)
      | Inr mac \<Rightarrow>
          (case (case HostByMAC d mac of Inr host \<Rightarrow> (d, host) | Inl _ \<Rightarrow> discover now d mac r) of
             (d1, host) \<Rightarrow>
               (case scriptFor env now d1 (baseURL r) host of
                  (d2, None) \<Rightarrow> (d2, Panic)
                | (d2, Some script) \<Rightarrow> (d2, http_OK script))))"

section \<open>Token-scoped endpoints\<close>

definition contextByToken :: "boot_env \<Rightarrow> db \<Rightarrow> string \<Rightarrow> installContext option" where
  "contextByToken env d token =
     (case InstallationByToken d token of
        Inl _ \<Rightarrow> None
      | Inr inst \<Rightarrow>
          (case HostByID d (inHostID inst) of
             Inl _ \<Rightarrow> None
           | Inr host \<Rightarrow>
               (case loadInstallContext (beRegistry env) d host of Bootable ic \<Rightarrow> Some ic | _ \<Rightarrow> None)))"

definition template_path :: "boot_env \<Rightarrow> Manifest \<Rightarrow> string" where
  "template_path env m =
     Join [if mfDir m = '''' then Join [beProvidersDir env, mfName m] else mfDir m,
           Clean (''/'' @ mfAnswerTemplate m)]"

definition handleAnswerFile :: "boot_env \<Rightarrow> db \<Rightarrow> string \<Rightarrow> request \<Rightarrow> outcome" where
  "handleAnswerFile env d token r =
     (case contextByToken env d token of
        None \<Rightarrow> http_NotFound
      | Some ic \<Rightarrow>
          (let params = answerParams (baseURL r) ic; ver = icVersion ic; m = icManifest ic in
           if pvAnswerOverride ver = '''' \<and> mfAnswerTemplate m = ''''
           then http_Error ''provider has no answer file'' 404
           else case (if pvAnswerOverride ver \<noteq> ''''
                      then Render (beRender env) (pvAnswerOverride ver) (pvConfig ver) params
                      else RenderFile (beRender env) (template_path env m) (pvConfig ver) params) of
                  Inl RenderPanic \<Rightarrow> Panic
                | Inl RenderFailed \<Rightarrow> http_Error ''answer file rendering failed'' 500
                | Inr out \<Rightarrow> http_OK out))"

definition handleCloudInit :: "boot_env \<Rightarrow> db \<Rightarrow> string \<Rightarrow> string \<Rightarrow> request \<Rightarrow> outcome" where
  "handleCloudInit env d token file r =
     (case contextByToken env d token of
        None \<Rightarrow> http_NotFound
      | Some ic \<Rightarrow>
          if file = ''user-data'' then handleAnswerFile env d token r
          else if file = ''meta-data'' then
            http_OK (line (''instance-id: helboot-'' @ int_str (inID (icInstall ic)))
                     @ line (''local-hostname: '' @ hHostname (icHost ic)))
          else if file = ''vendor-data'' then Reply 200 NoBody None
          else http_NotFound)"

definition report_status :: "string \<Rightarrow> InstallationStatus option" where
  "report_status s = (if s = ''success'' then Some InstallSuccess
                      else if s = ''error'' then Some InstallError else None)"

definition handleReport :: "boot_env \<Rightarrow> instant \<Rightarrow> db \<Rightarrow> string \<Rightarrow> request \<Rightarrow> db \<times> outcome" where
  "handleReport env now d token r =
     (case contextByToken env d token of
        None \<Rightarrow> (d, http_NotFound)
      | Some ic \<Rightarrow>
          (case report_status (rqQuery r ''status'') of
             None \<Rightarrow> (d, http_Error ''status must be success or error'' 400)
           | Some st \<Rightarrow>
               (case MarkInstallationFinished d (inID (icInstall ic)) st
                       (line (''['' @ beTimestamp env now @ ''] installer reported '' @ rqQuery r ''status'')) now of
                  Inl _ \<Rightarrow> (d, http_Error ''internal error'' 500)
                | Inr (d1, _) \<Rightarrow>
                    (db_after d1 (UpdateHost now d1
                       ((icHost ic)\<lparr>hStatus := if st = InstallSuccess then HostReady else HostError\<rparr>)),
                     no_content))))"

section \<open>Images\<close>

definition isoByPathID :: "db \<Rightarrow> string \<Rightarrow> ISOImage option" where
  "isoByPathID d seg =
     (case sscanf_d seg of
        None \<Rightarrow> None
      | Some i \<Rightarrow> if i < 1 then None else (case ISOByID d i of Inl _ \<Rightarrow> None | Inr img \<Rightarrow> Some img))"

definition handleISOFile :: "db \<Rightarrow> library \<Rightarrow> string \<Rightarrow> outcome" where
  "handleISOFile d lib seg =
     (case isoByPathID d seg of
        None \<Rightarrow> http_NotFound
      | Some img \<Rightarrow>
          (case lib (Base (isFilename img)) of
             None \<Rightarrow> http_NotFound
           | Some content \<Rightarrow> Reply 200 (Bytes content) None))"

definition handleISOContent :: "boot_env \<Rightarrow> db \<Rightarrow> library \<Rightarrow> string \<Rightarrow> string \<Rightarrow> outcome" where
  "handleISOContent env d lib seg inner =
     (case isoByPathID d seg of
        None \<Rightarrow> http_NotFound
      | Some img \<Rightarrow>
          (case OpenFileInISO (beISO env) lib (isFilename img) inner of
             None \<Rightarrow> http_NotFound
           | Some content \<Rightarrow> Reply 200 (Bytes content) None))"

end
