(* ===== verification/Boot_Facts.thy ===== *)
theory Boot_Facts
  imports Boot
begin

text \<open>
  What the boot surface guarantees: the two handlers that write are described by closed forms of
  the database after them, from which follow that a machine reaches only its own rows, that
  installations only move forward, that discovery records a machine once, and which installation a
  token reaches.
\<close>

section \<open>Hosts\<close>

definition set_host :: "instant \<Rightarrow> HostStatus \<Rightarrow> int \<Rightarrow> Host list \<Rightarrow> Host list" where
  "set_host now st i hs =
     update_rows (\<lambda>r. hID r = i) (\<lambda>r. r\<lparr>hStatus := st, hUpdatedAt := stored_time now\<rparr>) hs"

lemma set_host_cols [simp]:
  "map hID (set_host now st i hs) = map hID hs" "map hMAC (set_host now st i hs) = map hMAC hs"
  by (simp_all add: set_host_def map_update_rows)

definition host_key :: "Host \<Rightarrow> int \<times> string" where
  "host_key r = (hID r, hMAC r)"

lemma set_host_keys [simp]: "map host_key (set_host now st i hs) = map host_key hs"
  by (simp add: set_host_def map_update_rows host_key_def)

lemma HostByID_row:
  assumes "HostByID d i = Inr h"
  shows "h \<in> set (hosts d)" and "hID h = i"
  using assms by (auto simp: HostByID_def found_def dest: row_by_Some split: option.splits)

lemma HostByMAC_row:
  assumes "HostByMAC d m = Inr h"
  shows "h \<in> set (hosts d)" and "hMAC h = m"
  using assms by (auto simp: HostByMAC_def found_def dest: row_by_Some split: option.splits)

lemma host_keys:
  assumes "db_inv d"
  shows "keyed hID (next_host d) (hosts d)" and "distinct (map hMAC (hosts d))"
  using assms by (simp_all add: db_inv_def hosts_inv_def)

lemma host_unique: "db_inv d \<Longrightarrow> h \<in> set (hosts d) \<Longrightarrow> h' \<in> set (hosts d) \<Longrightarrow> hID h = hID h' \<Longrightarrow> h = h'"
  by (rule keyed_unique [OF host_keys(1)])

lemma host_of_mac:
  assumes "db_inv d" and "h \<in> set (hosts d)" and "h' \<in> set (hosts d)" and "hMAC h = hMAC h'"
  shows "h = h'"
  using assms by (auto dest!: host_keys(2) simp: distinct_map inj_on_def)

lemma HostByMAC_of_row: "db_inv d \<Longrightarrow> h \<in> set (hosts d) \<Longrightarrow> HostByMAC d (hMAC h) = Inr h"
  by (simp add: HostByMAC_def found_def row_by_distinct [OF host_keys(2)])

lemma HostByID_of_row: "db_inv d \<Longrightarrow> h \<in> set (hosts d) \<Longrightarrow> HostByID d (hID h) = Inr h"
  by (simp add: HostByID_def found_def row_by_distinct host_keys(1) [unfolded keyed_def])

text \<open>Writing back a row with another status succeeds and changes only the status and its time.\<close>

lemma UpdateHost_status:
  assumes inv: "db_inv d" and h: "h \<in> set (hosts d)"
  shows "\<exists>r. UpdateHost now d (h\<lparr>hStatus := st\<rparr>) = Inr (d\<lparr>hosts := set_host now st (hID h) (hosts d)\<rparr>, r)"
proof -
  let ?f = "\<lambda>r. h\<lparr>hStatus := st, hID := hID r, hCreatedAt := hCreatedAt r, hUpdatedAt := stored_time now\<rparr>"
  have upd: "update_rows (\<lambda>r. hID r = hID h) ?f (hosts d) = set_host now st (hID h) (hosts d)"
    unfolding set_host_def update_rows_def
  proof (rule map_cong [OF refl])
    fix r assume "r \<in> set (hosts d)"
    then show "(if hID r = hID h then ?f r else r) =
        (if hID r = hID h then r\<lparr>hStatus := st, hUpdatedAt := stored_time now\<rparr> else r)"
      using host_unique [OF inv _ h, of r] by (cases "hID r = hID h") simp_all
  qed
  have free: "\<not> taken_by_other hID hMAC (hID h) (hMAC h) (hosts d)"
    using host_of_mac [OF inv _ h] by (auto simp: taken_by_other_def list_ex_iff)
  have ok: "firmware_ok (hFirmware h)" "profile_ref_ok d (hProfileID h)"
    using inv h by (auto simp: db_inv_def hosts_inv_def list_all_iff fk_null_def profile_ref_ok_def split: option.splits)
  let ?d = "d\<lparr>hosts := set_host now st (hID h) (hosts d)\<rparr>"
  have "hID ` set (hosts ?d) = hID ` set (hosts d)"
    unfolding set_map [symmetric] by simp
  with h have "hID h \<in> hID ` set (hosts ?d)" by blast
  then have "row_by hID (hID h) (hosts ?d) \<noteq> None" unfolding row_by_None by simp
  then obtain r where r: "HostByID ?d (hID h) = Inr r" by (auto simp: HostByID_def found_def)
  have "UpdateHost now d (h\<lparr>hStatus := st\<rparr>) = Inr (?d, r)"
    using h free ok r by (simp add: UpdateHost_def Let_def upd)
  then show ?thesis by blast
qed

section \<open>The context\<close>

lemma ActiveInstallation_row:
  assumes "ActiveInstallationForHost d i = Inr n"
  shows "n \<in> set (installs d)" and "inHostID n = i" and "install_active n"
  using assms by (auto simp: ActiveInstallationForHost_def found_def find_Some_iff split: option.splits)
    (metis nth_mem set_rev length_rev)

lemma loadInstallContext_row:
  assumes "loadInstallContext reg d host = Bootable ic"
  shows "ActiveInstallationForHost d (hID host) = Inr (icInstall ic)" and "icHost ic = host"
  using assms by (auto simp: loadInstallContext_def split: sum.splits option.splits)

lemmas context_install = ActiveInstallation_row [OF loadInstallContext_row(1)]

lemma contextByToken_row:
  assumes "contextByToken env d token = Some ic"
  obtains old where "InstallationByToken d token = Inr old" and "HostByID d (inHostID old) = Inr (icHost ic)"
    and "loadInstallContext (beRegistry env) d (icHost ic) = Bootable ic"
proof -
  obtain old host where "InstallationByToken d token = Inr old" "HostByID d (inHostID old) = Inr host"
      "loadInstallContext (beRegistry env) d host = Bootable ic"
    using assms by (auto simp: contextByToken_def split: sum.splits context_lookup.splits)
  then show thesis using that loadInstallContext_row(2) by metis
qed

section \<open>The database after a request\<close>

definition start_install :: "instant \<Rightarrow> int \<Rightarrow> Installation list \<Rightarrow> Installation list" where
  "start_install now i ns = update_rows (\<lambda>n. inID n = i \<and> inStatus n = InstallWaiting)
     (\<lambda>n. n\<lparr>inStatus := InstallRunning, inStartedAt := Some (stored_time now)\<rparr>) ns"

definition finish_install ::
    "instant \<Rightarrow> InstallationStatus \<Rightarrow> string \<Rightarrow> int \<Rightarrow> Installation list \<Rightarrow> Installation list" where
  "finish_install now st l i ns = update_rows (\<lambda>n. inID n = i)
     (\<lambda>n. n\<lparr>inStatus := st, inFinishedAt := Some (stored_time now), inLog := inLog n @ l\<rparr>) ns"

lemma markInstalling_db:
  assumes "db_inv d" and "icHost ic \<in> set (hosts d)"
  shows "markInstalling now d ic =
    (if inStatus (icInstall ic) = InstallWaiting
     then d\<lparr>installs := start_install now (inID (icInstall ic)) (installs d),
            hosts := set_host now HostInstalling (hID (icHost ic)) (hosts d)\<rparr> else d)"
proof -
  let ?d1 = "d\<lparr>installs := start_install now (inID (icInstall ic)) (installs d)\<rparr>"
  have started: "MarkInstallationStarted d (inID (icInstall ic)) now = Inr (?d1, ())"
    by (simp add: MarkInstallationStarted_def start_install_def)
  obtain r where "UpdateHost now ?d1 ((icHost ic)\<lparr>hStatus := HostInstalling\<rparr>) =
      Inr (?d1\<lparr>hosts := set_host now HostInstalling (hID (icHost ic)) (hosts ?d1)\<rparr>, r)"
    using UpdateHost_status [OF MarkInstallationStarted_inv [OF assms(1) started], of "icHost ic"] assms(2)
    by auto
  then show ?thesis by (simp add: markInstalling_def started db_after_def)
qed

definition report_line :: "boot_env \<Rightarrow> instant \<Rightarrow> string \<Rightarrow> string" where
  "report_line env now q = line (''['' @ beTimestamp env now @ ''] installer reported '' @ q)"

lemma handleReport_cases:
  assumes "db_inv d"
  shows "handleReport env now d token r =
    (case contextByToken env d token of
       None \<Rightarrow> (d, http_NotFound)
     | Some ic \<Rightarrow>
         (case report_status (rqQuery r ''status'') of
            None \<Rightarrow> (d, http_Error ''status must be success or error'' 400)
          | Some st \<Rightarrow>
              (d\<lparr>installs := finish_install now st (report_line env now (rqQuery r ''status''))
                   (inID (icInstall ic)) (installs d),
                 hosts := set_host now (if st = InstallSuccess then HostReady else HostError)
                   (hID (icHost ic)) (hosts d)\<rparr>, no_content)))"
proof (cases "contextByToken env d token")
  case None
  then show ?thesis by (simp add: handleReport_def)
next
  case (Some ic)
  show ?thesis
  proof (cases "report_status (rqQuery r ''status'')")
    case None
    with Some show ?thesis by (simp add: handleReport_def)
  next
    case (Some st)
    let ?l = "report_line env now (rqQuery r ''status'')"
    let ?hs = "if st = InstallSuccess then HostReady else HostError"
    let ?d1 = "d\<lparr>installs := finish_install now st ?l (inID (icInstall ic)) (installs d)\<rparr>"
    have "st = InstallSuccess \<or> st = InstallError"
      using Some by (auto simp: report_status_def split: if_splits)
    then have fin: "MarkInstallationFinished d (inID (icInstall ic)) st ?l now = Inr (?d1, ())"
      by (auto simp: MarkInstallationFinished_def finish_install_def)
    have h: "icHost ic \<in> set (hosts d)"
      using contextByToken_row [OF \<open>contextByToken env d token = Some ic\<close>] HostByID_row(1) by metis
    obtain x where "UpdateHost now ?d1 ((icHost ic)\<lparr>hStatus := ?hs\<rparr>) =
        Inr (?d1\<lparr>hosts := set_host now ?hs (hID (icHost ic)) (hosts ?d1)\<rparr>, x)"
      using UpdateHost_status [OF MarkInstallationFinished_inv [OF assms fin], of "icHost ic" now ?hs] h by auto
    then show ?thesis
      using Some \<open>contextByToken env d token = Some ic\<close> fin
      by (simp add: handleReport_def db_after_def report_line_def)
  qed
qed

section \<open>What a request may write\<close>

definition install_forward :: "Installation \<Rightarrow> Installation \<Rightarrow> bool" where
  "install_forward n n' \<longleftrightarrow> n' = n \<or>
     (install_active n \<and> same_install n n' \<and> inStatus n' \<in> {InstallRunning, InstallSuccess, InstallError})"

definition only_host :: "int \<Rightarrow> db \<Rightarrow> db \<Rightarrow> bool" where
  "only_host i d d' \<longleftrightarrow>
     d' = d\<lparr>hosts := hosts d', next_host := next_host d', installs := installs d'\<rparr> \<and>
     filter (\<lambda>r. hID r \<noteq> i) (hosts d') = filter (\<lambda>r. hID r \<noteq> i) (hosts d) \<and>
     filter (\<lambda>n. inHostID n \<noteq> i) (installs d') = filter (\<lambda>n. inHostID n \<noteq> i) (installs d)"

lemma install_forward_refl [simp]: "install_forward n n"
  by (simp add: install_forward_def)

lemma install_forward_trans: "install_forward a b \<Longrightarrow> install_forward b c \<Longrightarrow> install_forward a c"
  by (auto simp: install_forward_def same_install_def)

lemma forward_refl [simp]: "list_all2 install_forward ns ns"
  by (simp add: list_all2_same)

lemma forward_update:
  assumes "\<And>n. n \<in> set ns \<Longrightarrow> P n \<Longrightarrow> install_forward n (f n)"
  shows "list_all2 install_forward ns (update_rows P f ns)"
  using assms by (induction ns) (auto simp: update_rows_def)

lemma filter_update_other:
  assumes "\<And>x. x \<in> set xs \<Longrightarrow> P x \<Longrightarrow> \<not> Q x \<and> \<not> Q (f x)"
  shows "filter Q (update_rows P f xs) = filter Q xs"
  using assms by (induction xs) (auto simp: update_rows_def)

lemma start_install_forward: "list_all2 install_forward ns (start_install now i ns)"
  unfolding start_install_def
  by (rule forward_update) (auto simp: install_forward_def install_active_def same_install_def)

lemma finish_install_forward:
  assumes "n \<in> set ns" and "install_active n" and "st = InstallSuccess \<or> st = InstallError"
    and "distinct (map inID ns)"
  shows "list_all2 install_forward ns (finish_install now st l (inID n) ns)"
  unfolding finish_install_def
proof (rule forward_update)
  fix m assume "m \<in> set ns" "inID m = inID n"
  then have "m = n" using assms(1,4) by (auto simp: distinct_map inj_on_def)
  then show "install_forward m (m\<lparr>inStatus := st, inFinishedAt := Some (stored_time now), inLog := inLog m @ l\<rparr>)"
    using assms(2,3) by (auto simp: install_forward_def same_install_def)
qed

lemma other_installs:
  assumes "n \<in> set ns" and "distinct (map inID ns)"
  shows "filter (\<lambda>m. inHostID m \<noteq> inHostID n) (start_install now (inID n) ns) = filter (\<lambda>m. inHostID m \<noteq> inHostID n) ns"
    and "filter (\<lambda>m. inHostID m \<noteq> inHostID n) (finish_install now st l (inID n) ns) = filter (\<lambda>m. inHostID m \<noteq> inHostID n) ns"
proof -
  have "m \<in> set ns \<Longrightarrow> inID m = inID n \<Longrightarrow> inHostID m = inHostID n" for m
    using assms by (auto simp: distinct_map inj_on_def)
  then show "filter (\<lambda>m. inHostID m \<noteq> inHostID n) (start_install now (inID n) ns) = filter (\<lambda>m. inHostID m \<noteq> inHostID n) ns"
    and "filter (\<lambda>m. inHostID m \<noteq> inHostID n) (finish_install now st l (inID n) ns) = filter (\<lambda>m. inHostID m \<noteq> inHostID n) ns"
    unfolding start_install_def finish_install_def by (auto intro!: filter_update_other)
qed

lemma other_hosts: "filter (\<lambda>r. hID r \<noteq> i) (set_host now st i hs) = filter (\<lambda>r. hID r \<noteq> i) hs"
  unfolding set_host_def by (rule filter_update_other) simp

lemma only_host_refl [simp]: "only_host i d d"
  by (simp add: only_host_def)

lemma installs_distinct: "db_inv d \<Longrightarrow> distinct (map inID (installs d))"
  by (simp add: db_inv_def installs_inv_def keyed_def)

lemma only_host_trans:
  assumes "only_host i a b" and "only_host i b c"
  shows "only_host i a c"
  unfolding only_host_def
proof (intro conjI)
  have b: "b = a\<lparr>hosts := hosts b, next_host := next_host b, installs := installs b\<rparr>"
    and c: "c = b\<lparr>hosts := hosts c, next_host := next_host c, installs := installs c\<rparr>"
    using assms by (simp_all add: only_host_def)
  show "c = a\<lparr>hosts := hosts c, next_host := next_host c, installs := installs c\<rparr>"
    by (subst c, subst b) simp
qed (use assms in \<open>simp_all add: only_host_def\<close>)

section \<open>One request\<close>

lemma markInstalling_effect:
  assumes inv: "db_inv d" and ctx: "loadInstallContext reg d h = Bootable ic" and h: "h \<in> set (hosts d)"
  shows "only_host (hID h) d (markInstalling now d ic)"
    and "list_all2 install_forward (installs d) (installs (markInstalling now d ic))"
    and "db_inv (markInstalling now d ic)"
    and "map host_key (hosts (markInstalling now d ic)) = map host_key (hosts d)"
proof -
  have ic: "icInstall ic \<in> set (installs d)" "inHostID (icInstall ic) = hID h" "icHost ic = h"
    using context_install [OF ctx] loadInstallContext_row(2) [OF ctx] by simp_all
  note eq = markInstalling_db [OF inv, of ic now, unfolded ic(3), OF h]
  show "only_host (hID h) d (markInstalling now d ic)"
    using other_installs(1) [OF ic(1) installs_distinct [OF inv]]
    by (simp add: eq only_host_def other_hosts ic(2))
  show "list_all2 install_forward (installs d) (installs (markInstalling now d ic))"
    by (simp add: eq start_install_forward)
  show "map host_key (hosts (markInstalling now d ic)) = map host_key (hosts d)"
    by (simp add: eq)
  show "db_inv (markInstalling now d ic)"
    unfolding markInstalling_def using inv
    by (auto simp: db_after_def split: sum.splits intro: MarkInstallationStarted_inv UpdateHost_inv)
qed

lemma scriptFor_effect:
  assumes inv: "db_inv d" and h: "h \<in> set (hosts d)" and s: "scriptFor env now d base h = (d', s)"
  shows "only_host (hID h) d d' \<and> list_all2 install_forward (installs d) (installs d') \<and> db_inv d' \<and>
    map host_key (hosts d') = map host_key (hosts d)"
proof (cases "loadInstallContext (beRegistry env) d h")
  case (Bootable ic)
  then show ?thesis
    using s inv markInstalling_effect [OF inv Bootable h, of now]
    by (auto simp: scriptFor_def split: option.splits if_splits)
qed (use s inv in \<open>auto simp: scriptFor_def split: HostStatus.splits\<close>)

lemma discover_effect:
  assumes inv: "db_inv d" and free: "HostByMAC d mac = Inl e"
  shows "\<exists>h. discover now d mac r = (d\<lparr>hosts := hosts d @ [h], next_host := next_host d + 1\<rparr>, h) \<and>
    hID h = next_host d \<and> hMAC h = mac \<and> hStatus h = HostDiscovered \<and> hProfileID h = None \<and>
    hArch h = sanitizeParam (rqQuery r ''arch'') \<and> hFirmware h = firmwareParam (rqQuery r ''firmware'') \<and>
    db_inv (d\<lparr>hosts := hosts d @ [h], next_host := next_host d + 1\<rparr>)"
proof -
  define h0 where "h0 = \<lparr>hID = 0, hMAC = mac, hHostname = '''', hVendor = '''', hModel = '''', hSerial = '''',
     hAssetID = '''', hTags = [], hFirmware = firmwareParam (rqQuery r ''firmware''),
     hArch = sanitizeParam (rqQuery r ''arch''), hProfileID = None, hProfileVersion = 0,
     hStatus = HostDiscovered, hCreatedAt = 0, hUpdatedAt = 0\<rparr>"
  define h where "h = h0\<lparr>hID := next_host d, hCreatedAt := stored_time now, hUpdatedAt := stored_time now\<rparr>"
  have "mac \<notin> hMAC ` set (hosts d)"
    using free by (auto simp: HostByMAC_def found_def row_by_None [symmetric] split: option.splits)
  then have create: "CreateHost now d h0 = Inr (d\<lparr>hosts := hosts d @ [h], next_host := next_host d + 1\<rparr>, h)"
    by (auto simp: CreateHost_def h0_def h_def firmware_ok_def firmwareParam_def profile_ref_ok_def Let_def)
  then have "discover now d mac r = (d\<lparr>hosts := hosts d @ [h], next_host := next_host d + 1\<rparr>, h)"
    by (simp add: discover_def h0_def [symmetric])
  then show ?thesis using CreateHost_inv [OF inv create] by (auto simp: h_def h0_def)
qed

lemma host_key_row:
  assumes "map host_key (hosts d') = map host_key (hosts d)" and "h \<in> set (hosts d)"
  obtains h' where "h' \<in> set (hosts d')" and "hID h' = hID h" and "hMAC h' = hMAC h"
proof -
  have "host_key h \<in> set (map host_key (hosts d'))" unfolding assms(1) using assms(2) by simp
  then show thesis using that by (auto simp: host_key_def)
qed

lemma handleScript_effect:
  assumes inv: "db_inv d" and mac: "NormalizeMAC (rqQuery r ''mac'') = Inr mac"
    and s: "handleScript env now d r = (d', out)"
  obtains h where "h \<in> set (hosts d')" and "hMAC h = mac" and "only_host (hID h) d d'"
    and "list_all2 install_forward (installs d) (installs d')" and "db_inv d'"
proof (cases "HostByMAC d mac")
  case (Inr h)
  note h = HostByMAC_row [OF Inr]
  obtain x where x: "scriptFor env now d (baseURL r) h = (d', x)"
    using s Inr mac by (auto simp: handleScript_def split: prod.splits option.splits)
  note eff = scriptFor_effect [OF inv h(1) x]
  obtain h' where "h' \<in> set (hosts d')" "hID h' = hID h" "hMAC h' = hMAC h"
    using host_key_row [OF conjunct2 [OF conjunct2 [OF conjunct2 [OF eff]]] h(1)] by blast
  with eff h(2) show thesis using that [of h'] by simp
next
  case (Inl e)
  obtain h where disc: "discover now d mac r = (d\<lparr>hosts := hosts d @ [h], next_host := next_host d + 1\<rparr>, h)"
      "hID h = next_host d" "hMAC h = mac" "db_inv (d\<lparr>hosts := hosts d @ [h], next_host := next_host d + 1\<rparr>)"
    using discover_effect [OF inv Inl, of now r] by blast
  let ?d1 = "d\<lparr>hosts := hosts d @ [h], next_host := next_host d + 1\<rparr>"
  obtain x where x: "scriptFor env now ?d1 (baseURL r) h = (d', x)"
    using s Inl mac disc(1) by (auto simp: handleScript_def split: prod.splits option.splits)
  note eff = scriptFor_effect [OF disc(4) _ x, simplified]
  obtain h' where h': "h' \<in> set (hosts d')" "hID h' = hID h" "hMAC h' = hMAC h"
    using host_key_row [of d' ?d1 h] eff by auto
  have "only_host (hID h) d ?d1" using disc(2) by (simp add: only_host_def)
  then have "only_host (hID h') d d'" using only_host_trans eff h'(2) by auto
  with eff h' disc(3) show thesis using that [of h'] by auto
qed

lemma handleReport_effect:
  assumes inv: "db_inv d" and s: "handleReport env now d token r = (d', out)" and ne: "d' \<noteq> d"
  obtains ic old where "contextByToken env d token = Some ic" and "InstallationByToken d token = Inr old"
    and "icHost ic \<in> set (hosts d)" and "inHostID old = hID (icHost ic)" and "only_host (hID (icHost ic)) d d'"
    and "list_all2 install_forward (installs d) (installs d')"
    and "map host_key (hosts d') = map host_key (hosts d)"
proof -
  obtain ic st where ic: "contextByToken env d token = Some ic" and st: "report_status (rqQuery r ''status'') = Some st"
    and d': "d' = d\<lparr>installs := finish_install now st (report_line env now (rqQuery r ''status''))
                   (inID (icInstall ic)) (installs d),
                 hosts := set_host now (if st = InstallSuccess then HostReady else HostError)
                   (hID (icHost ic)) (hosts d)\<rparr>"
    using s ne unfolding handleReport_cases [OF inv] by (auto split: option.splits)
  obtain old where old: "InstallationByToken d token = Inr old" "HostByID d (inHostID old) = Inr (icHost ic)"
      "loadInstallContext (beRegistry env) d (icHost ic) = Bootable ic"
    using contextByToken_row [OF ic] by metis
  note n = context_install [OF old(3)] and dist = installs_distinct [OF inv]
  have fin: "st = InstallSuccess \<or> st = InstallError" using st by (auto simp: report_status_def split: if_splits)
  show thesis
  proof (rule that [OF ic old(1) HostByID_row(1) [OF old(2)] HostByID_row(2) [OF old(2), symmetric]])
    show "only_host (hID (icHost ic)) d d'"
      using other_installs(2) [OF n(1) dist] by (simp add: d' only_host_def other_hosts n(2))
    show "list_all2 install_forward (installs d) (installs d')"
      using finish_install_forward [OF n(1,3) fin dist] by (simp add: d')
    show "map host_key (hosts d') = map host_key (hosts d)" by (simp add: d')
  qed
qed

section \<open>Sequences of requests\<close>

datatype boot_request = AskScript request | SendReport string request

fun boot_serve :: "boot_env \<Rightarrow> instant \<Rightarrow> db \<Rightarrow> boot_request \<Rightarrow> db \<times> outcome" where
  "boot_serve env now d (AskScript r) = handleScript env now d r"
| "boot_serve env now d (SendReport token r) = handleReport env now d token r"

fun boot_run :: "boot_env \<Rightarrow> db \<Rightarrow> (instant \<times> boot_request) list \<Rightarrow> db" where
  "boot_run env d [] = d"
| "boot_run env d ((now, q) # qs) = boot_run env (fst (boot_serve env now d q)) qs"

text \<open>The machine a request speaks for: by its MAC, or by an installation that carries the token.\<close>

fun speaks_for :: "db \<Rightarrow> boot_request \<Rightarrow> Host \<Rightarrow> bool" where
  "speaks_for d (AskScript r) h \<longleftrightarrow> NormalizeMAC (rqQuery r ''mac'') = Inr (hMAC h)"
| "speaks_for d (SendReport token r) h \<longleftrightarrow>
     token \<noteq> '''' \<and> list_ex (\<lambda>n. inToken n = token \<and> inHostID n = hID h) (installs d)"

lemma InstallationByToken_row:
  assumes "InstallationByToken d t = Inr n"
  shows "n \<in> set (installs d)" and "inToken n = t" and "t \<noteq> ''''"
  using assms by (auto simp: InstallationByToken_def found_def dest: row_by_Some split: option.splits if_splits)

lemma UpdateHost_after: "db_inv d \<Longrightarrow> db_inv (db_after d (UpdateHost now d h))"
  using UpdateHost_inv [of d now h] by (auto simp: db_after_def split: sum.splits)

lemma handleReport_inv:
  assumes "db_inv d" and "handleReport env now d token r = (d', out)"
  shows "db_inv d'"
  using assms unfolding handleReport_def
  by (auto split: option.splits sum.splits simp del: append.simps
      intro!: UpdateHost_after intro: MarkInstallationFinished_inv)

lemma boot_serve_effect:
  assumes inv: "db_inv d" and s: "boot_serve env now d q = (d', out)"
  shows "list_all2 install_forward (installs d) (installs d') \<and> db_inv d'"
proof (cases q)
  case (AskScript r)
  show ?thesis
  proof (cases "NormalizeMAC (rqQuery r ''mac'')")
    case (Inl e)
    with s AskScript inv show ?thesis by (simp add: handleScript_def)
  next
    case (Inr mac)
    from s AskScript have "handleScript env now d r = (d', out)" by simp
    then show ?thesis using handleScript_effect [OF inv Inr] by metis
  qed
next
  case (SendReport token r)
  with s have s: "handleReport env now d token r = (d', out)" by simp
  have "list_all2 install_forward (installs d) (installs d')"
  proof (cases "d' = d")
    case False
    from handleReport_effect [OF inv s this] show ?thesis by assumption
  qed simp
  with handleReport_inv [OF inv s] show ?thesis by simp
qed

section \<open>Properties\<close>

text \<open>C12: The boot surface is scoped.  Whatever an unauthenticated boot request asks, the database
  stays as it was, or only the rows of one machine changed: the one whose MAC the request names,
  or the one that owns the installation the token belongs to.  No account, session, setting,
  profile, version, image, lease or audit entry and no other machine is touched.\<close>

theorem boot_scoped:
  assumes inv: "db_inv d" and s: "boot_serve env now d q = (d', out)"
  shows "d' = d \<or> (\<exists>h. h \<in> set (hosts d') \<and> speaks_for d q h \<and> only_host (hID h) d d')"
proof (cases q)
  case (AskScript r)
  show ?thesis
  proof (cases "NormalizeMAC (rqQuery r ''mac'')")
    case (Inl e)
    with s AskScript show ?thesis by (simp add: handleScript_def)
  next
    case (Inr mac)
    from s AskScript have "handleScript env now d r = (d', out)" by simp
    then obtain h where "h \<in> set (hosts d')" "hMAC h = mac" "only_host (hID h) d d'"
      using handleScript_effect [OF inv Inr] by metis
    with AskScript Inr show ?thesis by (intro disjI2 exI [of _ h]) simp
  qed
next
  case (SendReport token r)
  with s have s: "handleReport env now d token r = (d', out)" by simp
  show ?thesis
  proof (cases "d' = d")
    case False
    obtain ic old where "contextByToken env d token = Some ic" and r: "InstallationByToken d token = Inr old"
        "icHost ic \<in> set (hosts d)" "inHostID old = hID (icHost ic)" "only_host (hID (icHost ic)) d d'"
        and "list_all2 install_forward (installs d) (installs d')" and k: "map host_key (hosts d') = map host_key (hosts d)"
      by (rule handleReport_effect [OF inv s False])
    obtain h where h: "h \<in> set (hosts d')" "hID h = hID (icHost ic)" using host_key_row [OF k r(2)] by metis
    have "speaks_for d q h"
      using InstallationByToken_row [OF r(1)] r(3) h(2) SendReport by (auto simp: list_ex_iff)
    with h r(4) show ?thesis by auto
  qed simp
qed

text \<open>C13: Installations only move forward.  Through any sequence of boot requests every installation
  keeps its id, host, version and token; one that succeeded or failed never changes again, and one
  that waits or runs can only go on to running, success or error.\<close>

theorem boot_run_forward:
  assumes "db_inv d"
  shows "list_all2 install_forward (installs d) (installs (boot_run env d qs))"
  using assms
proof (induction qs arbitrary: d)
  case (Cons a qs)
  obtain now q where a: "a = (now, q)" by (cases a)
  obtain d1 out where d1: "boot_serve env now d q = (d1, out)" by (cases "boot_serve env now d q")
  have step: "list_all2 install_forward (installs d) (installs d1)" "db_inv d1"
    using boot_serve_effect [OF Cons.prems d1] by simp_all
  have "list_all2 install_forward (installs d) (installs (boot_run env d1 qs))"
    by (rule list_all2_trans [of install_forward install_forward install_forward, OF _ step(1) Cons.IH [OF step(2)]])
       (rule install_forward_trans)
  then show ?case by (simp add: a d1)
qed simp

text \<open>A script that hands over to the installer has a line with just that command.\<close>

lemma boots_line: "boots s \<Longrightarrow> ''boot'' \<in> set (split_on (CHR 0x0A) s)"
proof -
  assume "boots s"
  then obtain a b where "s = a @ CHR 0x0A # (''boot'' @ CHR 0x0A # b)"
    by (auto simp: boots_def contains_iff line_def)
  then show ?thesis by (simp only: split_on_append) (simp add: split_on_append)
qed

lemma split_line: "CHR 0x0A \<notin> set x \<Longrightarrow> split_on (CHR 0x0A) (line x @ y) = x # split_on (CHR 0x0A) y"
  "CHR 0x0A \<notin> set x \<Longrightarrow> split_on (CHR 0x0A) (line x) = [x, []]"
  using split_on_append [of "CHR 0x0A" x y] split_on_append [of "CHR 0x0A" x "[]"]
  by (simp_all add: line_def split_on_id)

lemma hex_digit_no_newline: "n < 16 \<Longrightarrow> hex_digit n \<noteq> CHR 0x0A"
  using hex_digit_not_blank [of n] by (auto simp: blank_byte_def)

lemma String_no_newline: "CHR 0x0A \<notin> set (HardwareAddr_String hw)"
  by (induction hw rule: HardwareAddr_String.induct)
     (simp_all add: hex_byte_def hex_digit_no_newline [symmetric] u8_nibbles)

lemma canonical_mac_no_newline: "NormalizeMAC q = Inr mac \<Longrightarrow> CHR 0x0A \<notin> set mac"
  using String_no_newline by (auto simp: NormalizeMAC_iff)

text \<open>Which request starts an installation.\<close>

lemma idle_script_no_boot:
  assumes "loadInstallContext (beRegistry env) d h = NothingQueued" and "CHR 0x0A \<notin> set (hMAC h)"
  shows "\<exists>s. scriptFor env now d base h = (d, Some s) \<and> \<not> boots s \<and> has_suffix s (line ''exit'')"
proof -
  let ?s = "the (snd (scriptFor env now d base h))"
  have s: "scriptFor env now d base h = (d, Some ?s)" using assms(1) by (simp add: scriptFor_def)
  have "''boot'' \<notin> set (split_on (CHR 0x0A) ?s)"
    using assms by (cases "hStatus h") (simp_all add: scriptFor_def split_line)
  moreover have "has_suffix ?s (line ''exit'')"
    using assms(1) by (cases "hStatus h") (simp_all add: scriptFor_def has_suffix_def line_def)
  ultimately show ?thesis using s boots_line by blast
qed

lemma messageScript_boots:
  assumes "CHR 0x0A \<notin> set reason"
  shows "\<not> boots (messageScript reason)"
proof
  assume "boots (messageScript reason)"
  then have "''boot'' \<in> set (split_on (CHR 0x0A) (messageScript reason))" by (rule boots_line)
  with assms show False by (simp add: messageScript_def split_line)
qed

lemma nameRe_no_newline: "nameRe s \<Longrightarrow> CHR 0x0A \<notin> set s"
  by (auto simp: nameRe_def list_all_iff is_lower_def is_digit_def split: list.splits)

lemma loadInstallContext_manifest:
  assumes "loadInstallContext reg d host = Bootable ic" and "registry_inv reg"
  shows "CHR 0x0A \<notin> set (mfName (icManifest ic))"
proof -
  obtain n where "Get reg n = Some (icManifest ic)"
    using assms(1) by (auto simp: loadInstallContext_def split: sum.splits option.splits)
  then have "(n, icManifest ic) \<in> set reg" by (simp add: Get_def map_of_SomeD)
  with assms(2) have "Validate (icManifest ic) = None" by (auto simp: registry_inv_def)
  then show ?thesis by (auto simp: Validate_def nameRe_no_newline split: if_splits)
qed

lemma initrds_end_lines: "line ''x'' = a @ [CHR 0x0A] \<Longrightarrow> \<exists>b. line k @ concat (map (initrd_line base ic) is) = b @ [CHR 0x0A]"
  by (induction "is" rule: rev_induct) (auto simp: line_def initrd_line_def split: prod.split)

text \<open>What the script of a bootable installation says.\<close>

lemma installScript_spec:
  assumes "CHR 0x0A \<notin> set (mfName (icManifest ic))"
  shows "case boot_method (icManifest ic) of
      None \<Rightarrow> \<exists>reason. installScript env base ic = Some (messageScript reason) \<and> \<not> boots (messageScript reason)
    | Some b \<Rightarrow>
       (case Render (beRender env) (bmCmdline b) (pvConfig (icVersion ic)) (answerParams base ic) of
          Inl RenderPanic \<Rightarrow> installScript env base ic = None
        | Inl RenderFailed \<Rightarrow> \<exists>reason. installScript env base ic = Some (messageScript reason) \<and> \<not> boots (messageScript reason)
        | Inr cmdline \<Rightarrow> \<exists>s. installScript env base ic = Some s \<and> boots s \<and> has_prefix s (line ''#!ipxe'') \<and>
            has_suffix s (line (''kernel '' @ resolve_path base ic (bmKernel b) @ '' '' @ TrimSpace cmdline) @
              concat (map (initrd_line base ic) (bmInitrd b)) @ line ''boot''))"
proof -
  have "\<not> boots (messageScript (''provider '' @ mfName (icManifest ic) @ '' does not support network boot''))"
    "\<not> boots (messageScript ''boot configuration error, check the HELBOOT logs'')"
    using assms by (simp_all add: messageScript_boots)
  moreover have "boots (a @ line k @ concat (map (initrd_line base ic) xs) @ line ''boot'')" for a k xs
  proof -
    obtain b where b: "line k @ concat (map (initrd_line base ic) xs) = b @ [CHR 0x0A]"
      using initrds_end_lines [OF line_def] by blast
    have "a @ line k @ concat (map (initrd_line base ic) xs) @ line ''boot'' = (a @ b) @ (CHR 0x0A # line ''boot'') @ []"
      using arg_cong [OF b, of "\<lambda>x. a @ x @ line ''boot''"] by simp
    then show ?thesis unfolding boots_def contains_iff by blast
  qed
  note this [of "line ''#!ipxe'' @ line (''echo HELBOOT: installing '' @ pfName (icProfile ic) @ '' on '' @ hMAC (icHost ic))"]
  ultimately show ?thesis
    by (auto simp: installScript_def has_suffix_iff has_prefix_iff split: option.splits sum.splits render_error.splits)
qed

text \<open>C14: What the script of a known machine does.  With nothing queued it boots the disk; when a part of
  the installation is missing, its provider does not boot over the network or the command line does
  not render, it says so; nothing is written then.  Otherwise the script boots: it names the kernel
  with the rendered command line and every initrd of the provider's boot method and hands over, and
  the installation, if it was waiting, becomes running and the machine installing.  The registry is
  any that satisfies the invariant of those \<open>LoadDirs\<close> builds.\<close>

theorem boot_script_decides:
  assumes inv: "db_inv d" and reg: "registry_inv (beRegistry env)"
    and mac: "NormalizeMAC (rqQuery r ''mac'') = Inr mac" and h: "HostByMAC d mac = Inr h"
  shows "case loadInstallContext (beRegistry env) d h of
      NothingQueued \<Rightarrow> \<exists>s. handleScript env now d r = (d, http_OK s) \<and> \<not> boots s \<and> has_suffix s (line ''exit'')
    | NotBootable reason \<Rightarrow> handleScript env now d r =
        (d, http_OK (messageScript (''installation for '' @ mac @ '' is not bootable: '' @ reason)))
    | Bootable ic \<Rightarrow>
       (case boot_method (icManifest ic) of
          None \<Rightarrow> \<exists>reason. handleScript env now d r = (d, http_OK (messageScript reason)) \<and> \<not> boots (messageScript reason)
        | Some b \<Rightarrow>
           (case Render (beRender env) (bmCmdline b) (pvConfig (icVersion ic)) (answerParams (baseURL r) ic) of
              Inl RenderPanic \<Rightarrow> handleScript env now d r = (d, Panic)
            | Inl RenderFailed \<Rightarrow> \<exists>reason. handleScript env now d r = (d, http_OK (messageScript reason)) \<and> \<not> boots (messageScript reason)
            | Inr cmdline \<Rightarrow> \<exists>s. boots s \<and> has_prefix s (line ''#!ipxe'') \<and>
                has_suffix s (line (''kernel '' @ resolve_path (baseURL r) ic (bmKernel b) @ '' '' @ TrimSpace cmdline) @
                  concat (map (initrd_line (baseURL r) ic) (bmInitrd b)) @ line ''boot'') \<and>
                handleScript env now d r =
                  (if inStatus (icInstall ic) = InstallWaiting
                   then d\<lparr>installs := start_install now (inID (icInstall ic)) (installs d),
                          hosts := set_host now HostInstalling (hID h) (hosts d)\<rparr>
                   else d, http_OK s)))"
proof (cases "loadInstallContext (beRegistry env) d h")
  case NothingQueued
  then show ?thesis
    using idle_script_no_boot [OF NothingQueued, where now = now and base = "baseURL r"]
      canonical_mac_no_newline [OF mac] HostByMAC_row [OF h] mac h by (auto simp: handleScript_def)
next
  case (NotBootable reason)
  then show ?thesis using mac h HostByMAC_row [OF h] by (simp add: handleScript_def scriptFor_def)
next
  case (Bootable ic)
  then have script: "handleScript env now d r = (case installScript env (baseURL r) ic of None \<Rightarrow> (d, Panic)
      | Some s \<Rightarrow> (if boots s then markInstalling now d ic else d, http_OK s))"
    using mac h by (simp add: handleScript_def scriptFor_def split: option.split)
  show ?thesis
    unfolding Bootable context_lookup.case script
    using installScript_spec [of ic env "baseURL r"] loadInstallContext_manifest [OF Bootable reg]
      markInstalling_db [OF inv, of ic now] HostByMAC_row [OF h] loadInstallContext_row(2) [OF Bootable]
    by (auto split: option.splits sum.splits render_error.splits)
qed

text \<open>Discovery.  An unknown machine is recorded once, under its canonical MAC, as discovered,
  with sanitised parameters and without touching anything else; asking again changes nothing and
  gives the same script.\<close>

theorem discovery_once:
  assumes inv: "db_inv d" and mac: "NormalizeMAC (rqQuery r ''mac'') = Inr mac" and new: "HostByMAC d mac = Inl e"
    and s: "handleScript env now d r = (d', out)"
  obtains h where "d' = d\<lparr>hosts := hosts d @ [h], next_host := next_host d + 1\<rparr>" and "hMAC h = mac"
    and "hStatus h = HostDiscovered" and "length (hArch h) \<le> 32" and "hFirmware h \<in> {'''', ''bios'', ''uefi''}"
    and "handleScript env later d' r = (d', out)"
proof -
  obtain h where disc: "discover now d mac r = (d\<lparr>hosts := hosts d @ [h], next_host := next_host d + 1\<rparr>, h)"
      "hID h = next_host d" "hMAC h = mac" "hStatus h = HostDiscovered" "hArch h = sanitizeParam (rqQuery r ''arch'')"
      "hFirmware h = firmwareParam (rqQuery r ''firmware'')"
      "db_inv (d\<lparr>hosts := hosts d @ [h], next_host := next_host d + 1\<rparr>)"
    using discover_effect [OF inv new, of now r] by blast
  let ?d = "d\<lparr>hosts := hosts d @ [h], next_host := next_host d + 1\<rparr>"
  have older: "n \<in> set (installs d) \<Longrightarrow> inHostID n < next_host d" for n
    using inv by (fastforce simp: db_inv_def installs_inv_def hosts_inv_def fk_def keyed_def)
  then have "n \<in> set (installs d) \<Longrightarrow> inHostID n \<noteq> hID h" for n using disc(2) by force
  then have idle: "loadInstallContext (beRegistry env) ?d h = NothingQueued"
    by (auto simp: loadInstallContext_def ActiveInstallationForHost_def found_def find_Some_iff split: option.splits)
       (metis nth_mem set_rev length_rev)
  have script: "scriptFor env t ?d (baseURL r) h = (?d, snd (scriptFor env now ?d (baseURL r) h))" for t
    using idle by (simp add: scriptFor_def)
  have "HostByMAC ?d mac = Inr h" using HostByMAC_of_row [OF disc(7), of h] disc(3) by simp
  then have "handleScript env t ?d r = (?d, out)" for t
    using s mac new disc(1) script [of t] script [of now]
    by (auto simp: handleScript_def split: option.splits prod.splits)
  moreover have "d' = ?d" using s mac new disc(1) script [of now] by (auto simp: handleScript_def split: option.splits prod.splits)
  ultimately show thesis
    using that [of h] disc by (auto simp: sanitizeParam_def firmwareParam_def)
qed

text \<open>A token reaches the installation its machine has active now, not only the one it was made
  for: a success report with the token of an old installation marks the active one of the same
  machine as successful and leaves the old one as it was.  The model says a token scopes the
  endpoints to one installation.\<close>

theorem token_reaches_active_installation:
  assumes inv: "db_inv d" and old: "InstallationByToken d token = Inr old"
    and ctx: "contextByToken env d token = Some ic" and q: "rqQuery r ''status'' = ''success''"
    and other: "inID (icInstall ic) \<noteq> inID old" and s: "handleReport env now d token r = (d', out)"
  obtains new where "InstallationByID d' (inID (icInstall ic)) = Inr new" and "inStatus new = InstallSuccess"
    and "inToken new = inToken (icInstall ic)" and "InstallationByID d' (inID old) = Inr old"
proof -
  have d': "installs d' = finish_install now InstallSuccess (report_line env now ''success'') (inID (icInstall ic)) (installs d)"
    using s q unfolding handleReport_cases [OF inv] by (auto simp: ctx report_status_def)
  have "loadInstallContext (beRegistry env) d (icHost ic) = Bootable ic" using contextByToken_row [OF ctx] by metis
  note n = context_install(1) [OF this]
  note dist = installs_distinct [OF inv]
  have look: "row_by inID i (installs d') = map_option (\<lambda>n. if inID n = inID (icInstall ic)
      then n\<lparr>inStatus := InstallSuccess, inFinishedAt := Some (stored_time now),
             inLog := inLog n @ report_line env now ''success''\<rparr> else n) (row_by inID i (installs d))" for i
    unfolding d' finish_install_def by (rule row_by_update) simp
  show thesis
  proof (rule that [of "icInstall ic\<lparr>inStatus := InstallSuccess, inFinishedAt := Some (stored_time now),
             inLog := inLog (icInstall ic) @ report_line env now ''success''\<rparr>"])
    show "InstallationByID d' (inID old) = Inr old"
      using other row_by_distinct [OF dist InstallationByToken_row(1) [OF old]]
      by (simp add: InstallationByID_def found_def look)
  qed (use row_by_distinct [OF dist n] in \<open>simp_all add: InstallationByID_def found_def look\<close>)
qed

section \<open>Witnesses\<close>

definition sample_iso_row :: ISOImage where
  "sample_iso_row = \<lparr>isID = 1, isFilename = ''debian.iso'', isProvider = ''debian'', isOSName = ''Debian'',
     isVersion = [], isArch = [], isBootloader = ''uefi'', isInstallMethod = ''preseed'', isSizeBytes = 4,
     isSHA256 = ''hash'', isStatus = ''ready'', isCreatedAt = 0\<rparr>"

text \<open>One machine with a finished installation (token \<open>tok\<close>) and a waiting one (token \<open>new\<close>).\<close>

definition sample_boot_db :: db where
  "sample_boot_db = sample_db\<lparr>isos := [sample_iso_row], next_iso := 2,
     profiles := [sample_profile\<lparr>pfISOID := Some 1\<rparr>],
     installs := [sample_install\<lparr>inStatus := InstallSuccess\<rparr>, sample_install\<lparr>inID := 2, inToken := ''new''\<rparr>],
     next_install := 3\<rparr>"

definition sample_boot_env :: boot_env where
  "sample_boot_env = \<lparr>beRegistry = [(''debian'', sample_manifest)],
     beRender = \<lparr>reUnmarshal = (\<lambda>s. DecodeObject Map.empty), reEngine = (\<lambda>t doc. Some t), reReadFile = (\<lambda>p. None)\<rparr>,
     beISO = sample_iso_env, beProvidersDir = ''/providers'', beTimestamp = (\<lambda>t. ''now'')\<rparr>"

definition sample_request :: request where
  "sample_request = \<lparr>rqMethod = ''GET'', rqPath = [], rqQuery = (\<lambda>k. if k = ''mac'' then ''AA-BB-CC-DD-EE-FF''
       else if k = ''status'' then ''success'' else ''''), rqHost = ''helboot'', rqRemoteAddr = ''10.0.0.9:1234'',
     rqCookie = None, rqCSRFHeader = '''', rqBody = None, rqUpload = NotMultipart\<rparr>"

lemmas sample_boot_defs = sample_boot_db_def sample_iso_row_def sample_defs

lemma sample_boot_inv: "db_inv sample_boot_db"
  by (simp add: db_inv_def sample_boot_defs table_invs keyed_def fk_def fk_null_def newest_heads_def pf_head_def
      pv_key_def Role_Valid_def firmware_ok_def stored_time_def iso_status_ok_def)

lemma sample_mac: "NormalizeMAC (rqQuery sample_request ''mac'') = Inr (hMAC sample_host)"
  by code_simp

lemma sample_context:
  assumes "token = ''tok'' \<or> token = ''new''"
  shows "\<exists>ic. contextByToken sample_boot_env sample_boot_db token = Some ic \<and>
    icInstall ic = sample_install\<lparr>inID := 2, inToken := ''new''\<rparr> \<and> icHost ic = sample_host"
  using assms
  by (auto simp: contextByToken_def InstallationByToken_def HostByID_def loadInstallContext_def found_def row_by_def
      ActiveInstallationForHost_def ProfileVersionByID_def ProfileByID_def ISOByID_def Get_def install_active_def
      sample_boot_defs sample_boot_env_def)

lemma sample_report:
  assumes "token = ''tok'' \<or> token = ''new''"
  shows "\<exists>d'. handleReport sample_boot_env 7 sample_boot_db token sample_request = (d', no_content) \<and>
    inStatus (installs d' ! 1) = InstallSuccess"
proof -
  obtain ic where ic: "contextByToken sample_boot_env sample_boot_db token = Some ic"
      "icInstall ic = sample_install\<lparr>inID := 2, inToken := ''new''\<rparr>" using sample_context [OF assms] by blast
  have q: "report_status (rqQuery sample_request ''status'') = Some InstallSuccess"
    by (simp add: report_status_def sample_request_def)
  have "inStatus (finish_install 7 InstallSuccess l 2 (installs sample_boot_db) ! 1) = InstallSuccess" for l
    by (simp add: finish_install_def update_rows_def sample_boot_db_def sample_install_def)
  then show ?thesis
    by (simp add: handleReport_cases [OF sample_boot_inv] ic(1) q) (simp add: ic(2))
qed

theorem boot_scoped_witness:
  "\<exists>d' h. boot_serve sample_boot_env 7 sample_boot_db (SendReport ''new'' sample_request) = (d', no_content) \<and>
     d' \<noteq> sample_boot_db \<and> h \<in> set (hosts d') \<and> only_host (hID h) sample_boot_db d'"
proof -
  obtain d' where d': "handleReport sample_boot_env 7 sample_boot_db ''new'' sample_request = (d', no_content)"
      "inStatus (installs d' ! 1) = InstallSuccess" using sample_report by blast
  then have "d' \<noteq> sample_boot_db" by (auto simp: sample_boot_defs)
  with boot_scoped [OF sample_boot_inv, of sample_boot_env 7 "SendReport ''new'' sample_request"] d' show ?thesis by auto
qed

theorem boot_run_forward_witness:
  "list_all2 install_forward (installs sample_boot_db)
     (installs (boot_run sample_boot_env sample_boot_db [(7, SendReport ''new'' sample_request), (8, AskScript sample_request)])) \<and>
   length (installs sample_boot_db) = 2"
proof
  show "length (installs sample_boot_db) = 2" by (simp add: sample_boot_db_def)
qed (rule boot_run_forward [OF sample_boot_inv])

theorem boot_script_decides_witness:
  "\<exists>d' s. handleScript sample_boot_env 7 sample_boot_db sample_request = (d', http_OK s) \<and> boots s \<and>
     map inStatus (installs d') = [InstallSuccess, InstallRunning] \<and> map hStatus (hosts d') = [HostInstalling]"
proof -
  have h: "HostByMAC sample_boot_db (hMAC sample_host) = Inr sample_host"
    by (simp add: HostByMAC_def found_def row_by_def sample_boot_defs)
  obtain ic where ic: "loadInstallContext (beRegistry sample_boot_env) sample_boot_db sample_host = Bootable ic"
      "icInstall ic = sample_install\<lparr>inID := 2, inToken := ''new''\<rparr>" "icManifest ic = sample_manifest"
      "icVersion ic = sample_version"
    by (auto simp: loadInstallContext_def found_def row_by_def
      ActiveInstallationForHost_def ProfileVersionByID_def ProfileByID_def ISOByID_def Get_def install_active_def
      sample_boot_defs sample_boot_env_def)
  obtain b where b: "boot_method sample_manifest = Some b" "bmCmdline b = ''auto=true''"
    by (auto simp: boot_method_def sample_manifest_def)
  have render: "Render (beRender sample_boot_env) ''auto=true'' (pvConfig sample_version) ps = Inr (remove_all ''<no value>'' ''auto=true'')" for ps
    by (simp add: Render_def Let_def sample_boot_env_def)
  have reg: "registry_inv (beRegistry sample_boot_env)"
    using sample_manifest_valid by (simp add: registry_inv_def sample_boot_env_def sample_manifest_def)
  from boot_script_decides [OF sample_boot_inv reg sample_mac h, of 7] show ?thesis
    by (auto simp: ic b render) (auto simp: start_install_def set_host_def update_rows_def sample_boot_defs)
qed

theorem discovery_once_witness:
  "\<exists>h. handleScript sample_boot_env 7 empty_db sample_request =
       (empty_db\<lparr>hosts := [h], next_host := 2\<rparr>, snd (handleScript sample_boot_env 7 empty_db sample_request)) \<and>
     hMAC h = ''aa:bb:cc:dd:ee:ff'' \<and> hStatus h = HostDiscovered"
proof -
  have e: "HostByMAC empty_db (hMAC sample_host) = Inl ErrNotFound"
    by (simp add: HostByMAC_def found_def row_by_def empty_db_def)
  obtain d' out where s: "handleScript sample_boot_env 7 empty_db sample_request = (d', out)"
    by (cases "handleScript sample_boot_env 7 empty_db sample_request")
  obtain h where "d' = empty_db\<lparr>hosts := hosts empty_db @ [h], next_host := next_host empty_db + 1\<rparr>"
      "hMAC h = hMAC sample_host" "hStatus h = HostDiscovered"
    using discovery_once [OF empty_db_inv sample_mac e s] by metis
  with s show ?thesis by (auto simp: empty_db_def sample_host_def)
qed

theorem token_reaches_active_installation_witness:
  "\<exists>d' out n. handleReport sample_boot_env 7 sample_boot_db ''tok'' sample_request = (d', out) \<and>
     InstallationByID d' 2 = Inr n \<and> inToken n = ''new'' \<and> inStatus n = InstallSuccess"
proof -
  have old: "InstallationByToken sample_boot_db ''tok'' = Inr (sample_install\<lparr>inStatus := InstallSuccess\<rparr>)"
    by (simp add: InstallationByToken_def found_def row_by_def sample_boot_defs)
  obtain ic where ic: "contextByToken sample_boot_env sample_boot_db ''tok'' = Some ic"
      "icInstall ic = sample_install\<lparr>inID := 2, inToken := ''new''\<rparr>" using sample_context by blast
  obtain d' out where s: "handleReport sample_boot_env 7 sample_boot_db ''tok'' sample_request = (d', out)"
    by (cases "handleReport sample_boot_env 7 sample_boot_db ''tok'' sample_request")
  have "rqQuery sample_request ''status'' = ''success''" by (simp add: sample_request_def)
  from token_reaches_active_installation [OF sample_boot_inv old ic(1) this _ s] ic(2) s show ?thesis
    by (auto simp: sample_install_def)
qed

end
