(* ===== verification/Password.thy ===== *)
theory Password
  imports Http Go_Path
begin

text \<open>
  \<open>backend/internal/auth/password.go\<close>: password hashes in the PHC string format and random tokens.
  The Argon2id key derivation (\<open>golang.org/x/crypto/argon2\<close>) is a parameter, \<open>None\<close> where it
  panics; the random bytes are arguments, \<open>None\<close> where reading them fails.  Base64 and the
  scanning of the parameters are modelled.
\<close>

section \<open>Base64 without padding\<close>

text \<open>The last two letters of the alphabet are \<open>+/\<close> in the standard and \<open>-_\<close> in the URL encoding.\<close>

definition b64_std :: string where
  "b64_std = ''ABCDEFGHIJKLMNOPQRSTUVWXYZabcdefghijklmnopqrstuvwxyz0123456789+/''"

definition b64_url :: string where
  "b64_url = ''ABCDEFGHIJKLMNOPQRSTUVWXYZabcdefghijklmnopqrstuvwxyz0123456789-_''"

definition b64_val :: "string \<Rightarrow> char \<Rightarrow> nat option" where
  "b64_val al c = (let i = length (takeWhile (\<lambda>x. x \<noteq> c) al) in if i < length al then Some i else None)"

fun b64_encode :: "string \<Rightarrow> string \<Rightarrow> string" where
  "b64_encode al [] = []"
| "b64_encode al [a] =
     (let n = of_char a * 16 in [al ! (n div 64), al ! (n mod 64)])"
| "b64_encode al [a, b] =
     (let n = (of_char a * 256 + of_char b) * 4 in [al ! (n div 64 div 64), al ! (n div 64 mod 64), al ! (n mod 64)])"
| "b64_encode al (a # b # c # s) =
     (let n = (of_char a * 256 + of_char b) * 256 + of_char c
      in al ! (n div 64 div 64 div 64) # al ! (n div 64 div 64 mod 64) # al ! (n div 64 mod 64) # al ! (n mod 64)
         # b64_encode al s)"

text \<open>One byte, two or three bytes of a group of two, three or four letters; spare bits are ignored.\<close>

fun b64_group :: "nat option list \<Rightarrow> string option" where
  "b64_group [Some p, Some q] = Some [char_of ((p * 64 + q) div 16)]"
| "b64_group [Some p, Some q, Some r] =
     (let n = ((p * 64 + q) * 64 + r) div 4 in Some [char_of (n div 256), char_of (n mod 256)])"
| "b64_group [Some p, Some q, Some r, Some s] =
     (let n = ((p * 64 + q) * 64 + r) * 64 + s
      in Some [char_of (n div 256 div 256), char_of (n div 256 mod 256), char_of (n mod 256)])"
| "b64_group _ = None"

fun b64_decode_groups :: "nat option list \<Rightarrow> string option" where
  "b64_decode_groups (p # q # r # s # t) =
     (case b64_group [p, q, r, s] of
        None \<Rightarrow> None
      | Some bs \<Rightarrow> map_option (\<lambda>rest. bs @ rest) (b64_decode_groups t))"
| "b64_decode_groups [] = Some []"
| "b64_decode_groups vs = b64_group vs"

text \<open>The decoder skips line breaks.\<close>

definition b64_decode :: "string \<Rightarrow> string \<Rightarrow> string option" where
  "b64_decode al s =
     b64_decode_groups (map (b64_val al) (filter (\<lambda>c. c \<noteq> CHR 0x0A \<and> c \<noteq> CHR 0x0D) s))"

section \<open>Hashes\<close>

type_synonym idkey = "string \<Rightarrow> string \<Rightarrow> nat \<Rightarrow> nat \<Rightarrow> nat \<Rightarrow> nat \<Rightarrow> string option"

text \<open>Password, salt, rounds, memory in KiB, threads, key length.\<close>

abbreviation argonMemoryKiB :: nat where "argonMemoryKiB \<equiv> 65536"
abbreviation argonTime :: nat where "argonTime \<equiv> 3"
abbreviation argonThreads :: nat where "argonThreads \<equiv> 4"
abbreviation argonKeyLen :: nat where "argonKeyLen \<equiv> 32"
abbreviation argonVersion :: nat where "argonVersion \<equiv> 19"

definition HashPassword :: "idkey \<Rightarrow> string option \<Rightarrow> string \<Rightarrow> string option" where
  "HashPassword idkey random password =
     (case random of
        None \<Rightarrow> None
      | Some salt \<Rightarrow>
          (case idkey password salt argonTime argonMemoryKiB argonThreads argonKeyLen of
             None \<Rightarrow> None
           | Some key \<Rightarrow>
               Some (''$argon2id$v='' @ nat_str argonVersion @ ''$m='' @ nat_str argonMemoryKiB
                     @ '',t='' @ nat_str argonTime @ '',p='' @ nat_str argonThreads
                     @ ''$'' @ b64_encode b64_std salt @ ''$'' @ b64_encode b64_std key)))"

text \<open>\<open>fmt.Sscanf\<close> of a literal and of an unsigned number of the given width.\<close>

definition scan_lit :: "string \<Rightarrow> string \<Rightarrow> string option" where
  "scan_lit p s = (if has_prefix s p then Some (drop (length p) s) else None)"

definition scan_uint :: "nat \<Rightarrow> string \<Rightarrow> (nat \<times> string) option" where
  "scan_uint bits s =
     (let t = trim_left s; ds = takeWhile is_digit t; v = digits_val ds
      in if CHR 0x0A \<in> set (take (length s - length t) s) \<or> ds = [] \<or> v \<ge> 2 ^ bits then None
         else Some (v, dropWhile is_digit t))"

definition scan_params :: "string \<Rightarrow> (nat \<times> nat \<times> nat) option" where
  "scan_params s =
     Option.bind (scan_lit ''m='' s) (\<lambda>s1.
     Option.bind (scan_uint 32 s1) (\<lambda>(m, s2).
     Option.bind (scan_lit '',t='' s2) (\<lambda>s3.
     Option.bind (scan_uint 32 s3) (\<lambda>(t, s4).
     Option.bind (scan_lit '',p='' s4) (\<lambda>s5.
     Option.bind (scan_uint 8 s5) (\<lambda>(p, _). Some (m, t, p)))))))"

datatype verdict = ErrInvalidHash | Verified bool | ArgonPanic

definition VerifyPassword :: "idkey \<Rightarrow> string \<Rightarrow> string \<Rightarrow> verdict" where
  "VerifyPassword idkey password encoded =
     (let parts = split_on (CHR ''$'') encoded in
      if length parts \<noteq> 6 \<or> parts ! 1 \<noteq> ''argon2id'' then ErrInvalidHash
      else if Option.bind (scan_lit ''v='' (parts ! 2)) sscanf_d = None then ErrInvalidHash
      else case scan_params (parts ! 3) of
             None \<Rightarrow> ErrInvalidHash
           | Some (memory, rounds, threads) \<Rightarrow>
               (case (b64_decode b64_std (parts ! 4), b64_decode b64_std (parts ! 5)) of
                  (Some salt, Some want) \<Rightarrow>
                    (case idkey password salt rounds memory threads (length want) of
                       None \<Rightarrow> ArgonPanic
                     | Some got \<Rightarrow> Verified (got = want))
                | _ \<Rightarrow> ErrInvalidHash))"

definition NewToken :: "string option \<Rightarrow> string option" where
  "NewToken random = map_option (b64_encode b64_url) random"

section \<open>Base64 round trip\<close>

lemma b64_val_nth:
  assumes "distinct al" and "i < length al"
  shows "b64_val al (al ! i) = Some i"
proof -
  have "takeWhile (\<lambda>x. x \<noteq> al ! i) al = take i al"
  proof (rule takeWhile_eq_take_P_nth)
    show "\<And>j. j < i \<Longrightarrow> j < length al \<Longrightarrow> al ! j \<noteq> al ! i" using assms by (auto simp: nth_eq_iff_index_eq)
  qed simp
  then show ?thesis using assms(2) by (simp add: b64_val_def)
qed

lemma b64_alphabets:
  "distinct b64_std" "length b64_std = 64" "distinct b64_url" "length b64_url = 64"
  "CHR ''$'' \<notin> set b64_std" "CHR 0x0A \<notin> set b64_std" "CHR 0x0D \<notin> set b64_std"
  "CHR 0x0A \<notin> set b64_url" "CHR 0x0D \<notin> set b64_url"
  by code_simp+

lemma char_less: "of_char (c :: char) < (256 :: nat)"
  by simp

lemma three_bytes: "a < 256 \<Longrightarrow> b < 256 \<Longrightarrow> c < 256 \<Longrightarrow> (a * 256 + b) * 256 + c < (64 * 64 * 64 * 64 :: nat)"
  by simp

lemma byte_split: "c < 256 \<Longrightarrow> (x * 256 + c) div 256 = (x :: nat)" "c < 256 \<Longrightarrow> (x * 256 + c) mod 256 = (c :: nat)"
  by simp_all

lemma three_bytes_back:
  "b < 256 \<Longrightarrow> c < 256 \<Longrightarrow> ((a * 256 + b) * 256 + c) div 256 div 256 = (a :: nat)"
  "b < 256 \<Longrightarrow> c < 256 \<Longrightarrow> ((a * 256 + b) * 256 + c) div 256 mod 256 = (b :: nat)"
  "c < 256 \<Longrightarrow> (x * 256 + c) mod 256 = (c :: nat)"
  by (simp_all only: byte_split)

lemma two_bytes: "a < 256 \<Longrightarrow> b < 256 \<Longrightarrow> (a * 256 + b) * 4 < (64 * 64 * 64 :: nat)"
  by simp

text \<open>The values of the letters of a group.\<close>

lemma b64_letter:
  "distinct al \<Longrightarrow> length al = 64 \<Longrightarrow> b64_val al (al ! (n mod 64)) = Some (n mod 64)"
  "distinct al \<Longrightarrow> length al = 64 \<Longrightarrow> n < 64 * 64 \<Longrightarrow> b64_val al (al ! (n div 64)) = Some (n div 64)"
  "distinct al \<Longrightarrow> length al = 64 \<Longrightarrow> n < 64 * 64 * 64 \<Longrightarrow>
     b64_val al (al ! (n div 64 div 64)) = Some (n div 64 div 64)"
  "distinct al \<Longrightarrow> length al = 64 \<Longrightarrow> n < 64 * 64 * 64 * 64 \<Longrightarrow>
     b64_val al (al ! (n div 64 div 64 div 64)) = Some (n div 64 div 64 div 64)"
  by (rule b64_val_nth, assumption, simp)+

lemma b64_group_1: "b64_group [Some (n div 64), Some (n mod 64)] = Some [char_of (n div 16)]"
  by simp

lemma b64_group_2:
  "b64_group [Some (n div 64 div 64), Some (n div 64 mod 64), Some (n mod 64)] =
     Some [char_of (n div 4 div 256), char_of (n div 4 mod 256)]"
  by (simp add: Let_def)

lemma b64_group_3:
  "b64_group [Some (n div 64 div 64 div 64), Some (n div 64 div 64 mod 64), Some (n div 64 mod 64), Some (n mod 64)] =
     Some [char_of (n div 256 div 256), char_of (n div 256 mod 256), char_of (n mod 256)]"
  by (simp add: Let_def)

lemma b64_groups_encode:
  "distinct al \<Longrightarrow> length al = 64 \<Longrightarrow> b64_decode_groups (map (b64_val al) (b64_encode al s)) = Some s"
proof (induction al s rule: b64_encode.induct)
  case (2 al a)
  let ?n = "of_char a * 16 :: nat"
  have "?n < 64 * 64" using char_less [of a] by simp
  moreover have "?n div 16 = of_char a" by simp
  ultimately show ?case using 2
    by (simp only: b64_encode.simps Let_def list.map b64_letter(1,2) b64_decode_groups.simps b64_group_1 char_of_char)
next
  case (3 al a b)
  let ?n = "(of_char a * 256 + of_char b) * 4 :: nat"
  have "?n < 64 * 64 * 64" by (rule two_bytes [OF char_less char_less])
  moreover have "?n div 4 div 256 = of_char a" "?n div 4 mod 256 = of_char b" using char_less [of b] by simp_all
  ultimately show ?case using 3
    by (simp only: b64_encode.simps Let_def list.map b64_letter(1,3) b64_decode_groups.simps b64_group_2 char_of_char)
next
  case (4 al a b c s)
  let ?n = "(of_char a * 256 + of_char b) * 256 + of_char c :: nat"
  have "?n < 64 * 64 * 64 * 64" by (rule three_bytes [OF char_less char_less char_less])
  moreover have "?n div 256 div 256 = of_char a" "?n div 256 mod 256 = of_char b" "?n mod 256 = of_char c"
    by (rule three_bytes_back, (rule char_less)+)+
  moreover have "b64_decode_groups (map (b64_val al) (b64_encode al s)) = Some s" using 4 by simp
  ultimately show ?case using 4(2,3)
    by (simp only: b64_encode.simps Let_def list.map b64_letter(1,4) b64_decode_groups.simps b64_group_3 char_of_char
        option.case option.map append.simps)
qed simp

lemma b64_in:
  "length al = 64 \<Longrightarrow> al ! (n mod 64) \<in> set al"
  "length al = 64 \<Longrightarrow> n < 64 * 64 \<Longrightarrow> al ! (n div 64) \<in> set al"
  "length al = 64 \<Longrightarrow> n < 64 * 64 * 64 \<Longrightarrow> al ! (n div 64 div 64) \<in> set al"
  "length al = 64 \<Longrightarrow> n < 64 * 64 * 64 * 64 \<Longrightarrow> al ! (n div 64 div 64 div 64) \<in> set al"
  by (rule nth_mem, simp)+

lemma b64_encode_letters: "length al = 64 \<Longrightarrow> set (b64_encode al s) \<subseteq> set al"
proof (induction al s rule: b64_encode.induct)
  case (2 al a)
  have "of_char a * 16 < (64 * 64 :: nat)" using char_less [of a] by simp
  then show ?case using 2 by (simp only: b64_encode.simps Let_def list.set insert_subset empty_subsetI b64_in simp_thms)
next
  case (3 al a b)
  have "(of_char a * 256 + of_char b) * 4 < (64 * 64 * 64 :: nat)" by (rule two_bytes [OF char_less char_less])
  then show ?case using 3 by (simp only: b64_encode.simps Let_def list.set insert_subset empty_subsetI b64_in simp_thms)
next
  case (4 al a b c s)
  have "(of_char a * 256 + of_char b) * 256 + of_char c < (64 * 64 * 64 * 64 :: nat)"
    by (rule three_bytes [OF char_less char_less char_less])
  then show ?case using 4 by (simp only: b64_encode.simps Let_def list.set insert_subset empty_subsetI b64_in simp_thms)
qed simp

lemma b64_round_trip:
  assumes "distinct al" and "length al = 64" and "CHR 0x0A \<notin> set al" and "CHR 0x0D \<notin> set al"
  shows "b64_decode al (b64_encode al s) = Some s"
proof -
  have "filter (\<lambda>c. c \<noteq> CHR 0x0A \<and> c \<noteq> CHR 0x0D) (b64_encode al s) = b64_encode al s"
    using b64_encode_letters [OF assms(2), of s] assms(3,4) by (auto simp: filter_id_conv)
  then show ?thesis using b64_groups_encode [OF assms(1,2)] by (simp only: b64_decode_def)
qed

section \<open>Properties\<close>

lemma split_hash:
  assumes "CHR ''$'' \<notin> set a" "CHR ''$'' \<notin> set b" "CHR ''$'' \<notin> set c" "CHR ''$'' \<notin> set d" "CHR ''$'' \<notin> set e"
  shows "split_on (CHR ''$'') (CHR ''$'' # a @ CHR ''$'' # b @ CHR ''$'' # c @ CHR ''$'' # d @ CHR ''$'' # e) =
    [[], a, b, c, d, e]"
  using assms by (simp add: split_on_append split_on_id)

lemma b64_no_dollar: "CHR ''$'' \<notin> set (b64_encode b64_std s)"
  using b64_encode_letters [OF b64_alphabets(2), of s] b64_alphabets(5) by blast

lemma trim_left_digit: "is_digit (hd s) \<Longrightarrow> trim_left s = s"
  using leading_space_none [of s] by (auto simp: trim_left.simps [of s] is_digit_def blank_byte_def)

lemma nat_str_digit: "c \<in> set (nat_str n) \<Longrightarrow> is_digit c"
  using nat_str_Atoi_digits [of n] by (simp add: list_all_iff)

lemma dollar_no_digit: "CHR ''$'' \<notin> set (nat_str n)"
  using nat_str_digit [of "CHR ''$''" n] by (auto simp: is_digit_def)

lemma sscanf_d_number:
  assumes "int n \<le> max_int64"
  shows "sscanf_d (nat_str n) = Some (int n)"
proof -
  have t: "trim_left (nat_str n) = nat_str n" by (rule trim_left_digit) (rule nat_str_hd_digit)
  have ds: "takeWhile is_digit (nat_str n) = nat_str n" by (rule takeWhile_eq_all_conv [THEN iffD2]) (simp add: nat_str_digit)
  obtain c r where c: "nat_str n = c # r" "is_digit c" using nat_str_hd_digit [of n] by (cases "nat_str n") auto
  show ?thesis
    using assms ds is_digit_not_sign [OF c(2)] nat_str_Atoi_digits [of n] c
    unfolding sscanf_d_def t Let_def by (simp add: takeWhile_eq_all_conv [THEN iffD2])
qed

lemma scan_uint_number:
  assumes "n < 2 ^ bits" and "r = [] \<or> \<not> is_digit (hd r)"
  shows "scan_uint bits (nat_str n @ r) = Some (n, r)"
proof -
  have t: "trim_left (nat_str n @ r) = nat_str n @ r"
    by (rule trim_left_digit) (simp add: nat_str_hd_digit)
  have all: "\<forall>c\<in>set (nat_str n). is_digit c" and val: "digits_val (nat_str n) = n"
    using nat_str_Atoi_digits [of n] by (simp_all add: list_all_iff)
  have "takeWhile is_digit (nat_str n @ r) = nat_str n" "dropWhile is_digit (nat_str n @ r) = r"
    using all assms(2) by (cases r; simp add: takeWhile_append2 dropWhile_append2)+
  then show ?thesis using assms(1) val by (simp add: scan_uint_def t)
qed

lemma scan_lit_append [simp]: "scan_lit p (p @ s) = Some s"
  by (simp add: scan_lit_def)

lemma hash_numbers:
  "scan_params (''m='' @ nat_str argonMemoryKiB @ '',t='' @ nat_str argonTime @ '',p='' @ nat_str argonThreads) =
     Some (argonMemoryKiB, argonTime, argonThreads)"
proof -
  have c: "\<not> is_digit (hd ('',t='' @ u))" "\<not> is_digit (hd ('',p='' @ u))" for u by (simp_all add: is_digit_def)
  note num = scan_uint_number [OF _ disjI2 [OF c(1)]] scan_uint_number [OF _ disjI2 [OF c(2)]]
    scan_uint_number [where r = "[]", simplified]
  show ?thesis unfolding scan_params_def by (simp add: num del: append.simps)
qed

lemma HashPassword_facts:
  assumes idkey: "\<And>pw salt t m p n. 1 \<le> t \<Longrightarrow> 1 \<le> p \<Longrightarrow> \<exists>k. idkey pw salt t m p n = Some k \<and> length k = n"
    and hash: "HashPassword idkey (Some salt) pw = Some encoded"
  shows "VerifyPassword idkey pw' encoded =
    Verified (idkey pw' salt argonTime argonMemoryKiB argonThreads argonKeyLen =
              idkey pw salt argonTime argonMemoryKiB argonThreads argonKeyLen)"
proof -
  obtain key where key: "idkey pw salt argonTime argonMemoryKiB argonThreads argonKeyLen = Some key" "length key = argonKeyLen"
    using idkey [of argonTime argonThreads pw salt argonMemoryKiB argonKeyLen] by auto
  obtain got where got: "idkey pw' salt argonTime argonMemoryKiB argonThreads argonKeyLen = Some got"
    using idkey [of argonTime argonThreads pw' salt argonMemoryKiB argonKeyLen] by auto
  let ?nums = "''m='' @ nat_str argonMemoryKiB @ '',t='' @ nat_str argonTime @ '',p='' @ nat_str argonThreads"
  let ?ver = "''v='' @ nat_str argonVersion"
  have enc: "encoded = CHR ''$'' # ''argon2id'' @ CHR ''$'' # ?ver @ CHR ''$'' # ?nums
      @ CHR ''$'' # b64_encode b64_std salt @ CHR ''$'' # b64_encode b64_std key"
    using hash key by (simp add: HashPassword_def)
  have "CHR ''$'' \<notin> set ''argon2id''" "CHR ''$'' \<notin> set ?ver" "CHR ''$'' \<notin> set ?nums"
    by (simp_all add: dollar_no_digit)
  then have parts: "split_on (CHR ''$'') encoded =
      [[], ''argon2id'', ?ver, ?nums, b64_encode b64_std salt, b64_encode b64_std key]"
    unfolding enc by (rule split_hash) (rule b64_no_dollar)+
  have dec: "b64_decode b64_std (b64_encode b64_std s) = Some s" for s
    using b64_round_trip b64_alphabets by blast
  have "VerifyPassword idkey pw' encoded = Verified (got = key)"
    unfolding VerifyPassword_def Let_def parts
    by (simp add: hash_numbers sscanf_d_number dec key got del: append.simps)
  then show ?thesis by (simp add: key got)
qed

text \<open>C28: Password round trip.  A hash made for a password verifies exactly the passwords that give
  the same key with its salt and parameters, so always the password itself, however the salt and
  the key came out; it is never rejected as malformed.\<close>

theorem HashPassword_verifies:
  assumes idkey: "\<And>pw salt t m p n. 1 \<le> t \<Longrightarrow> 1 \<le> p \<Longrightarrow> \<exists>k. idkey pw salt t m p n = Some k \<and> length k = n"
    and hash: "HashPassword idkey (Some salt) pw = Some encoded"
  shows "VerifyPassword idkey pw' encoded =
    Verified (idkey pw' salt argonTime argonMemoryKiB argonThreads argonKeyLen =
              idkey pw salt argonTime argonMemoryKiB argonThreads argonKeyLen)"
  by (rule HashPassword_facts [OF idkey hash])

text \<open>A model of the key derivation for the witness: the padded password.\<close>

definition sample_idkey :: idkey where
  "sample_idkey pw salt t m p n = (if t = 0 \<or> p = 0 then None else Some (take n (pw @ replicate n (CHR 0x00))))"

lemma sample_idkey_total: "1 \<le> t \<Longrightarrow> 1 \<le> p \<Longrightarrow> \<exists>k. sample_idkey pw salt t m p n = Some k \<and> length k = n"
  by (simp add: sample_idkey_def)

theorem HashPassword_verifies_witness:
  "\<exists>h. HashPassword sample_idkey (Some ''salt'') ''secret'' = Some h \<and>
     VerifyPassword sample_idkey ''secret'' h = Verified True \<and> VerifyPassword sample_idkey ''other'' h = Verified False"
proof -
  obtain h where h: "HashPassword sample_idkey (Some ''salt'') ''secret'' = Some h"
    by (simp add: HashPassword_def sample_idkey_def)
  from HashPassword_verifies [OF sample_idkey_total h] have v: "VerifyPassword sample_idkey pw h =
      Verified (sample_idkey pw ''salt'' argonTime argonMemoryKiB argonThreads argonKeyLen =
        sample_idkey ''secret'' ''salt'' argonTime argonMemoryKiB argonThreads argonKeyLen)" for pw .
  show ?thesis using h by (simp add: v) (simp add: sample_idkey_def)
qed

end
