(* ===== verification/Auth.thy ===== *)
theory Auth
  imports Password Services Store_Facts Complex_Main
begin

text \<open>
  \<open>backend/internal/api/middleware.go\<close> and \<open>handlers_auth.go\<close>: the login rate limiter, the guard
  \<open>require\<close> in front of every protected handler, panic recovery, login and logout.  The tokens of
  a bucket are exact rationals where the code uses \<open>float64\<close>; the clock is monotonic and read once
  per request.  \<open>rnd k\<close> is what the \<open>k\<close>-th read of random bytes in a request gives.
\<close>

section \<open>Rate limiting\<close>

record bucket =
  bkTokens :: rat
  bkLast :: instant

record rateLimiter =
  rlBuckets :: "string \<rightharpoonup> bucket"
  rlBurst :: rat
  rlRefill :: duration

definition newRateLimiter :: "nat \<Rightarrow> duration \<Rightarrow> rateLimiter" where
  "newRateLimiter burst refill = \<lparr>rlBuckets = Map.empty, rlBurst = of_nat burst, rlRefill = refill\<rparr>"

definition allow :: "instant \<Rightarrow> rateLimiter \<Rightarrow> string \<Rightarrow> rateLimiter \<times> bool" where
  "allow now l key =
     (let b = (case rlBuckets l key of None \<Rightarrow> \<lparr>bkTokens = rlBurst l, bkLast = now\<rparr> | Some b \<Rightarrow> b);
          earned = bkTokens b + of_int (now - bkLast b) / of_int (rlRefill l);
          tokens = (if earned > rlBurst l then rlBurst l else earned)
      in if tokens < 1
         then (l\<lparr>rlBuckets := (rlBuckets l)(key \<mapsto> \<lparr>bkTokens = tokens, bkLast = now\<rparr>)\<rparr>, False)
         else (l\<lparr>rlBuckets := (rlBuckets l)(key \<mapsto> \<lparr>bkTokens = tokens - 1, bkLast = now\<rparr>)\<rparr>, True))"

text \<open>\<open>net.SplitHostPort\<close>, the host; the address itself when it is malformed.\<close>

definition clientIP :: "request \<Rightarrow> string" where
  "clientIP r =
     (let addr = rqRemoteAddr r in
      case split_port addr of
        None \<Rightarrow> addr
      | Some port \<Rightarrow> if hd addr = CHR ''['' then takeWhile (\<lambda>c. c \<noteq> CHR '']'') (tl addr)
                     else take (length addr - length port - 1) addr)"

section \<open>Guards\<close>

definition recoverPanics :: "'s \<times> outcome \<Rightarrow> 's \<times> outcome" where
  "recoverPanics x = (case x of (s, Panic) \<Rightarrow> (s, writeError 500 ''internal'') | _ \<Rightarrow> x)"

definition mutating :: "string \<Rightarrow> bool" where
  "mutating m \<longleftrightarrow> m = ''POST'' \<or> m = ''PUT'' \<or> m = ''PATCH'' \<or> m = ''DELETE''"

definition require :: "instant \<Rightarrow> db \<Rightarrow> Role \<Rightarrow> request \<Rightarrow> outcome + User \<times> Session" where
  "require now d least r =
     (case rqCookie r of
        None \<Rightarrow> Inl (writeError 401 ''auth.unauthorized'')
      | Some token \<Rightarrow>
          (case SessionByToken d token now of
             Inl e \<Rightarrow> if e = ErrNotFound then Inl (writeError 401 ''auth.session_expired'') else Inl internalError
           | Inr sess \<Rightarrow>
               (case UserByID d (sUserID sess) of
                  Inl _ \<Rightarrow> Inl (writeError 401 ''auth.unauthorized'')
                | Inr user \<Rightarrow>
                    if \<not> AtLeast (uRole user) least then Inl (writeError 403 ''auth.forbidden'')
                    else if mutating (rqMethod r) \<and> rqCSRFHeader r \<noteq> sCSRFToken sess
                    then Inl (writeError 403 ''auth.csrf'')
                    else Inr (user, sess))))"

section \<open>Login and logout\<close>

record auth_env =
  aeIDKey :: idkey
  aeDummyHash :: string

abbreviation SessionTTL :: duration where "SessionTTL \<equiv> 7 * 24 * hour"

text \<open>The value of a session cookie and its \<open>MaxAge\<close>, the lifetime in whole seconds.\<close>

definition sessionCookie :: "string \<Rightarrow> duration \<Rightarrow> string \<times> int" where
  "sessionCookie val ttl = (val, sgn ttl * (\<bar>ttl\<bar> div second))"

record loginRequest =
  lrUsername :: string
  lrPassword :: string

definition decode_login :: "json \<Rightarrow> loginRequest option" where
  "decode_login = decode_struct
     [(''username'', json_string (\<lambda>s. lrUsername_update (\<lambda>_. s))),
      (''password'', json_string (\<lambda>s. lrPassword_update (\<lambda>_. s)))] \<lparr>lrUsername = '''', lrPassword = ''''\<rparr>"

definition open_session ::
    "instant \<Rightarrow> (nat \<Rightarrow> string option) \<Rightarrow> db \<Rightarrow> User \<Rightarrow> db \<times> outcome" where
  "open_session now rnd d user =
     (case (NewToken (rnd 0), NewToken (rnd 1)) of
        (Some token, Some csrf) \<Rightarrow>
          (case CreateSession d \<lparr>sToken = token, sUserID = uID user, sCSRFToken = csrf, sCreatedAt = now,
                                 sExpiresAt = now + SessionTTL\<rparr> of
             Inl _ \<Rightarrow> (d, internalError)
           | Inr (d', _) \<Rightarrow>
               (d', Reply 200 (Object [(''user'', VUser (user_json user)), (''csrfToken'', VStr csrf)])
                      (Some (sessionCookie token SessionTTL))))
      | _ \<Rightarrow> (d, internalError))"

definition handleLogin ::
    "auth_env \<Rightarrow> instant \<Rightarrow> (nat \<Rightarrow> string option) \<Rightarrow> rateLimiter \<times> db \<Rightarrow> request
     \<Rightarrow> (rateLimiter \<times> db) \<times> outcome" where
  "handleLogin env now rnd s r =
     (case allow now (fst s) (clientIP r) of
        (l, False) \<Rightarrow> ((l, snd s), writeError 429 ''auth.rate_limited'')
      | (l, True) \<Rightarrow>
          (let d = snd s in
           case decodeJSON decode_login r of
             None \<Rightarrow> ((l, d), invalid_json)
           | Some req \<Rightarrow>
               (let user = UserByUsername d (lrUsername req);
                    hash = (case user of Inl _ \<Rightarrow> aeDummyHash env | Inr u \<Rightarrow> uPasswordHash u)
                in case (VerifyPassword (aeIDKey env) (lrPassword req) hash, user) of
                     (ArgonPanic, _) \<Rightarrow> ((l, d), Panic)
                   | (Verified True, Inr u) \<Rightarrow>
                       (case open_session now rnd d u of (d', out) \<Rightarrow> ((l, d'), out))
                   | _ \<Rightarrow> ((l, db_after d (AddAudit now d None ''auth.login_failed'' ''user'' (lrUsername req))),
                           writeError 401 ''auth.invalid_credentials''))))"

definition handleLogout :: "db \<Rightarrow> Session \<Rightarrow> db \<times> outcome" where
  "handleLogout d sess =
     (case DeleteSession d (sToken sess) of
        Inl _ \<Rightarrow> (d, internalError)
      | Inr (d', _) \<Rightarrow> (d', Reply 200 (Object [(''loggedOut'', VBool True)]) (Some (sessionCookie '''' (- hour)))))"

definition handleMe :: "User \<Rightarrow> Session \<Rightarrow> outcome" where
  "handleMe user sess =
     writeJSON 200 (Object [(''user'', VUser (user_json user)), (''csrfToken'', VStr (sCSRFToken sess))])"

section \<open>The bound of the limiter\<close>

text \<open>The verdicts on a sequence of attempts, each with its time and key.\<close>

fun attempts :: "rateLimiter \<Rightarrow> (instant \<times> string) list \<Rightarrow> (string \<times> bool) list" where
  "attempts l [] = []"
| "attempts l ((t, k) # as) = (case allow t l k of (l', ok) \<Rightarrow> (k, ok) # attempts l' as)"

definition granted :: "string \<Rightarrow> (string \<times> bool) list \<Rightarrow> nat" where
  "granted k vs = length (filter (\<lambda>v. v = (k, True)) vs)"

text \<open>What a key can still get until \<open>t1\<close>, if its next attempt is not before \<open>t0\<close>.\<close>

definition allowance :: "rateLimiter \<Rightarrow> string \<Rightarrow> instant \<Rightarrow> instant \<Rightarrow> rat" where
  "allowance l k t0 t1 =
     (case rlBuckets l k of
        None \<Rightarrow> rlBurst l + of_int (t1 - t0) / of_int (rlRefill l)
      | Some b \<Rightarrow> bkTokens b + of_int (t1 - bkLast b) / of_int (rlRefill l))"

definition limiter_inv :: "rateLimiter \<Rightarrow> instant \<Rightarrow> bool" where
  "limiter_inv l t \<longleftrightarrow> rlRefill l > 0 \<and> rlBurst l \<ge> 0 \<and>
     (\<forall>k b. rlBuckets l k = Some b \<longrightarrow> bkTokens b \<ge> 0 \<and> bkLast b \<le> t)"

lemma allow_params: "allow t l k = (l', ok) \<Longrightarrow> rlBurst l' = rlBurst l \<and> rlRefill l' = rlRefill l"
  by (auto simp: allow_def Let_def split: if_splits)

lemma allow_other: "allow t l k = (l', ok) \<Longrightarrow> k' \<noteq> k \<Longrightarrow> rlBuckets l' k' = rlBuckets l k'"
  by (auto simp: allow_def Let_def split: if_splits)

lemma allow_bucket:
  assumes "allow t l k = (l', ok)" and "limiter_inv l t0" and "t0 \<le> t"
  shows "\<exists>b. rlBuckets l' k = Some b \<and> bkLast b = t \<and> bkTokens b \<ge> 0 \<and>
    bkTokens b + (if ok then 1 else 0) \<le>
      (case rlBuckets l k of None \<Rightarrow> rlBurst l
       | Some b \<Rightarrow> bkTokens b + of_int (t - bkLast b) / of_int (rlRefill l))"
proof (cases "rlBuckets l k")
  case None
  then show ?thesis using assms by (auto simp: allow_def Let_def limiter_inv_def split: if_splits)
next
  case (Some b)
  then have "bkTokens b \<ge> 0" "bkLast b \<le> t" "rlRefill l > 0" "rlBurst l \<ge> 0"
    using assms by (auto simp: limiter_inv_def intro: order_trans)
  then have "bkTokens b + of_int (t - bkLast b) / of_int (rlRefill l) \<ge> (0 :: rat)" by simp
  then show ?thesis using assms(1) Some \<open>rlBurst l \<ge> 0\<close>
    by (auto simp: allow_def Let_def split: if_splits)
qed

lemma allow_inv:
  assumes "allow t l k = (l', ok)" and "limiter_inv l t0" and "t0 \<le> t"
  shows "limiter_inv l' t"
  unfolding limiter_inv_def
proof (intro conjI allI impI)
  show "rlRefill l' > 0" "rlBurst l' \<ge> 0"
    using allow_params [OF assms(1)] assms(2) by (simp_all add: limiter_inv_def)
next
  fix k' b assume b: "rlBuckets l' k' = Some b"
  have "bkTokens b \<ge> 0 \<and> bkLast b \<le> t"
  proof (cases "k' = k")
    case True
    then show ?thesis using allow_bucket [OF assms] b by auto
  next
    case False
    then have "rlBuckets l k' = Some b" using allow_other [OF assms(1)] b by simp
    then show ?thesis using assms(2,3) by (auto simp: limiter_inv_def intro: order_trans)
  qed
  then show "bkTokens b \<ge> 0" "bkLast b \<le> t" by simp_all
qed

lemma allowance_step:
  assumes a: "allow t l k = (l', ok)" and inv: "limiter_inv l t0" and t: "t0 \<le> t" "t \<le> t1"
  shows "(if k' = k \<and> ok then 1 else 0) + allowance l' k' t t1 \<le> allowance l k' t0 t1"
proof (cases "k' = k")
  case True
  let ?r = "of_int (rlRefill l) :: rat"
  have r: "?r > 0" using inv by (simp add: limiter_inv_def)
  have later: "of_int (t1 - t) / ?r \<le> of_int (t1 - t0) / ?r" using r t by (simp add: divide_right_mono)
  obtain b where b: "rlBuckets l' k = Some b" "bkLast b = t"
    "bkTokens b + (if ok then 1 else 0) \<le>
      (case rlBuckets l k of None \<Rightarrow> rlBurst l | Some b \<Rightarrow> bkTokens b + of_int (t - bkLast b) / ?r)"
    using allow_bucket [OF a inv t(1)] by blast
  have add: "of_int (t - s) / ?r + of_int (t1 - t) / ?r = of_int (t1 - s) / ?r" for s
    by (simp add: add_divide_distrib [symmetric])
  show ?thesis
  proof (cases "rlBuckets l k")
    case None
    then show ?thesis
      using b True later allow_params [OF a] by (simp add: allowance_def split: if_splits)
  next
    case (Some c)
    then show ?thesis
      using b True add [of "bkLast c"] allow_params [OF a] by (simp add: allowance_def split: if_splits)
  qed
next
  case False
  have r: "(0 :: rat) < of_int (rlRefill l)" using inv by (simp add: limiter_inv_def)
  have "of_int (t1 - t) / of_int (rlRefill l) \<le> (of_int (t1 - t0) / of_int (rlRefill l) :: rat)"
    using r t by (simp add: divide_right_mono)
  then show ?thesis
    using False allow_other [OF a False] allow_params [OF a] by (simp add: allowance_def split: option.splits)
qed

lemma allowance_nonneg:
  assumes "limiter_inv l t0" and "t0 \<le> t1"
  shows "allowance l k t0 t1 \<ge> 0"
proof (cases "rlBuckets l k")
  case None
  then show ?thesis using assms by (simp add: allowance_def limiter_inv_def)
next
  case (Some b)
  then have "0 \<le> bkTokens b" "bkLast b \<le> t1" "0 < rlRefill l"
    using assms by (auto simp: limiter_inv_def intro: order_trans)
  then show ?thesis using Some by (simp add: allowance_def)
qed

lemma granted_bound:
  assumes "limiter_inv l t0" and "t0 \<le> t1" and "sorted (t0 # map fst as @ [t1])"
  shows "of_nat (granted k (attempts l as)) \<le> allowance l k t0 t1"
  using assms
proof (induction as arbitrary: l t0)
  case Nil
  then show ?case using allowance_nonneg by (simp add: granted_def)
next
  case (Cons a as)
  obtain t k' where a: "a = (t, k')" by (cases a)
  obtain l' ok where l': "allow t l k' = (l', ok)" by (cases "allow t l k'")
  have t: "t0 \<le> t" "t \<le> t1" using Cons.prems(3) by (auto simp: a)
  have "of_nat (granted k (attempts l' as)) \<le> allowance l' k t t1"
    using Cons.prems(3) by (intro Cons.IH allow_inv [OF l' Cons.prems(1) t(1)] t(2)) (auto simp: a)
  then show ?case
    using allowance_step [OF l' Cons.prems(1) t, of k] by (auto simp: a l' granted_def split: if_splits)
qed

section \<open>Properties\<close>

text \<open>C26: Brute-force bound.  In any sequence of login attempts between two moments, by any number of
  clients, one client gets at most the burst plus one attempt per refill period that passed.\<close>

theorem login_attempts_bounded:
  assumes "0 < refill" and "t0 \<le> t1" and "sorted (t0 # map fst as @ [t1])"
  shows "of_nat (granted k (attempts (newRateLimiter burst refill) as)) \<le>
    (of_nat burst + of_int (t1 - t0) / of_int refill :: rat)"
  using granted_bound [of "newRateLimiter burst refill" t0 t1 as k] assms
  by (simp add: newRateLimiter_def limiter_inv_def allowance_def)

theorem login_attempts_bounded_witness:
  "granted ''a'' (attempts (newRateLimiter 1 second) [(0, ''a''), (0, ''b''), (5, ''a''), (5, ''a'')]) \<le> 2"
proof -
  have "(of_nat (granted ''a'' (attempts (newRateLimiter 1 second) [(0, ''a''), (0, ''b''), (5, ''a''), (5, ''a'')])) :: rat)
      \<le> of_nat 1 + of_int (second - 0) / of_int second"
    by (rule login_attempts_bounded) simp_all
  then have "(of_nat (granted ''a'' (attempts (newRateLimiter 1 second) [(0, ''a''), (0, ''b''), (5, ''a''), (5, ''a'')])) :: rat)
      \<le> of_nat 2" by simp
  then show ?thesis unfolding of_nat_le_iff .
qed

lemma session_of_token:
  assumes "db_inv d"
  shows "SessionByToken d t now = Inr s \<longleftrightarrow> s \<in> set (sessions d) \<and> sToken s = t \<and> now < sExpiresAt s"
proof
  assume "SessionByToken d t now = Inr s"
  then show "s \<in> set (sessions d) \<and> sToken s = t \<and> now < sExpiresAt s"
    by (auto simp: SessionByToken_def dest: row_by_Some split: option.splits if_splits)
next
  assume s: "s \<in> set (sessions d) \<and> sToken s = t \<and> now < sExpiresAt s"
  have "distinct (map sToken (sessions d))" using assms by (simp add: db_inv_def sessions_inv_def)
  then show "SessionByToken d t now = Inr s"
    using s row_by_distinct [of sToken "sessions d" s] by (auto simp: SessionByToken_def)
qed

lemma UserByID_iff:
  assumes "db_inv d"
  shows "UserByID d i = Inr u \<longleftrightarrow> u \<in> set (users d) \<and> uID u = i"
  using assms row_by_Some [of uID i "users d" u] row_by_distinct [of uID "users d" u]
  by (auto simp: UserByID_def found_def db_inv_def users_inv_def keyed_def split: option.splits)

text \<open>C7: Who gets past the guard.  A request reaches a protected handler exactly when its cookie is
  the token of an unexpired session, the owner of that session has at least the required role,
  and a mutating request also carries the session's CSRF token; the handler then sees that user
  and that session.\<close>

theorem require_exact:
  assumes "db_inv d"
  shows "require now d least r = Inr (u, s) \<longleftrightarrow>
    s \<in> set (sessions d) \<and> rqCookie r = Some (sToken s) \<and> now < sExpiresAt s \<and>
    u \<in> set (users d) \<and> uID u = sUserID s \<and> roleRank (uRole u) \<ge> roleRank least \<and>
    (mutating (rqMethod r) \<longrightarrow> rqCSRFHeader r = sCSRFToken s)"
  (is "?l \<longleftrightarrow> ?r")
proof
  assume ?l
  then obtain t where "rqCookie r = Some t" "SessionByToken d t now = Inr s" "UserByID d (sUserID s) = Inr u"
      "AtLeast (uRole u) least" "mutating (rqMethod r) \<longrightarrow> rqCSRFHeader r = sCSRFToken s"
    by (auto simp: require_def split: option.splits sum.splits if_splits)
  then show ?r using session_of_token [OF assms] UserByID_iff [OF assms] by (auto simp: AtLeast_def)
next
  assume r: ?r
  then have "SessionByToken d (sToken s) now = Inr s" "UserByID d (sUserID s) = Inr u"
    using session_of_token [OF assms] UserByID_iff [OF assms] by auto
  with r show ?l by (simp add: require_def AtLeast_def)
qed

theorem require_exact_witness:
  "require 5 sample_db RoleOperator
     \<lparr>rqMethod = ''DELETE'', rqPath = [], rqQuery = (\<lambda>_. ''''), rqHost = '''', rqRemoteAddr = '''',
      rqCookie = Some ''t'', rqCSRFHeader = ''c'', rqBody = None, rqUpload = NotMultipart\<rparr> =
   Inr (sample_user, sample_session)"
  using require_exact [OF sample_db_inv]
  by (simp add: sample_defs roleRank_def)

lemma UserByUsername_row:
  "UserByUsername d n = Inr u \<Longrightarrow> u \<in> set (users d) \<and> nocase (uUsername u) = nocase n"
  by (auto simp: UserByUsername_def found_def dest: row_by_Some split: option.splits)

text \<open>C22: Login opens a session.  A login that sets a cookie was made with the name of an account and a
  password that verifies against its hash; from then on, until the session expires, and for as
  long as nothing else is written, the cookie passes the guard of everything the role of that
  account allows, and no other session was touched.\<close>

theorem login_opens_session:
  assumes inv: "db_inv d" and login: "handleLogin env now rnd (l, d) r = ((l', d'), Reply 200 p (Some (token, age)))"
  obtains req u s where "decodeJSON decode_login r = Some req" and "u \<in> set (users d)"
    and "nocase (uUsername u) = nocase (lrUsername req)"
    and "VerifyPassword (aeIDKey env) (lrPassword req) (uPasswordHash u) = Verified True"
    and "age = 7 * 24 * 3600" and "sessions d' = sessions d @ [s]" and "users d' = users d"
    and "\<forall>later r' least. later < stored_time (now + SessionTTL) \<and> rqCookie r' = Some token \<and>
        rqMethod r' = ''GET'' \<and> AtLeast (uRole u) least \<longrightarrow> require later d' least r' = Inr (u, s)"
proof -
  obtain req u where req: "decodeJSON decode_login r = Some req"
    and u: "UserByUsername d (lrUsername req) = Inr u"
    and v: "VerifyPassword (aeIDKey env) (lrPassword req) (uPasswordHash u) = Verified True"
    and o: "open_session now rnd d u = (d', Reply 200 p (Some (token, age)))"
    using login by (auto simp: handleLogin_def Let_def reply_defs split: prod.splits bool.splits option.splits
        verdict.splits sum.splits)
  obtain csrf where c: "CreateSession d \<lparr>sToken = token, sUserID = uID u, sCSRFToken = csrf, sCreatedAt = now,
      sExpiresAt = now + SessionTTL\<rparr> = Inr (d', ())" and age: "age = 7 * 24 * 3600"
    using o by (auto simp: open_session_def reply_defs sessionCookie_def split: option.splits sum.splits)
  have d': "d' = d\<lparr>sessions := sessions d @ [\<lparr>sToken = token, sUserID = uID u, sCSRFToken = csrf,
        sCreatedAt = stored_time now, sExpiresAt = stored_time (now + SessionTTL)\<rparr>]\<rparr>" (is "_ = d\<lparr>sessions := _ @ [?s]\<rparr>")
    using c by (auto simp: CreateSession_def simp del: has_key_iff split: if_splits)
  note inv' = CreateSession_inv [OF inv c]
  note u' = UserByUsername_row [OF u]
  have "require later d' least r' = Inr (u, ?s)"
    if "later < stored_time (now + SessionTTL) \<and> rqCookie r' = Some token \<and> rqMethod r' = ''GET'' \<and>
      AtLeast (uRole u) least" for later r' least
    using that u' unfolding require_exact [OF inv'] by (simp add: d' AtLeast_def mutating_def)
  then show thesis
    using that [OF req, of u ?s] u' v age by (simp add: d')
qed

definition sample_login :: request where
  "sample_login = \<lparr>rqMethod = ''POST'', rqPath = [], rqQuery = (\<lambda>_. ''''), rqHost = '''', rqRemoteAddr = ''10.0.0.9:1234'',
     rqCookie = None, rqCSRFHeader = '''', rqBody = Some (JObj [(''username'', [], JStr ''Anna''), (''password'', [], JStr ''secret'')]),
     rqUpload = NotMultipart\<rparr>"

lemma sample_login_body: "decodeJSON decode_login sample_login = Some \<lparr>lrUsername = ''Anna'', lrPassword = ''secret''\<rparr>"
  by (simp add: decodeJSON_def decode_login_def decode_struct_def find_field_def json_string_def sample_login_def)

definition sample_auth_env :: auth_env where
  "sample_auth_env = \<lparr>aeIDKey = sample_idkey, aeDummyHash = ''''\<rparr>"

definition sample_login_db :: "string \<Rightarrow> db" where
  "sample_login_db h = sample_db\<lparr>users := [sample_user\<lparr>uPasswordHash := h\<rparr>]\<rparr>"

definition sample_limiter :: rateLimiter where
  "sample_limiter = newRateLimiter 5 (2 * second)"

definition sample_random :: "nat \<Rightarrow> string option" where
  "sample_random k = Some (if k = 0 then ''one'' else ''two'')"

lemma sample_login_inv: "db_inv (sample_login_db h)"
  by (simp add: db_inv_def sample_login_db_def sample_defs table_invs keyed_def fk_def fk_null_def newest_heads_def
      pf_head_def pv_key_def Role_Valid_def firmware_ok_def stored_time_def)

lemma sample_login_user: "UserByUsername (sample_login_db h) ''Anna'' = Inr (sample_user\<lparr>uPasswordHash := h\<rparr>)"
  by (simp add: UserByUsername_def found_def row_by_def sample_login_db_def sample_user_def nocase_def lower_char_def
        char_of_def bit_Suc bit_0)

abbreviation sample_token :: string where "sample_token \<equiv> b64_encode b64_url ''one''"

lemma sample_token_new: "sample_token \<noteq> ''t''"
proof
  assume "sample_token = ''t''"
  then have "b64_decode b64_url ''t'' = Some ''one''"
    using b64_round_trip [OF b64_alphabets(3,4,8,9), of "''one''"] by simp
  then show False by (simp add: b64_decode_def)
qed

lemma sample_open_session:
  "\<exists>d' p. open_session 0 sample_random (sample_login_db h) (sample_user\<lparr>uPasswordHash := h\<rparr>) =
     (d', Reply 200 p (Some (sample_token, 604800)))"
  using sample_token_new
  by (simp add: open_session_def NewToken_def CreateSession_def sample_db_def sample_session_def sample_random_def
        sample_user_def sample_login_db_def sessionCookie_def del: b64_encode.simps)

lemma sample_handleLogin:
  assumes "VerifyPassword sample_idkey ''secret'' h = Verified True"
  shows "\<exists>l' d' p. handleLogin sample_auth_env 0 sample_random (sample_limiter, sample_login_db h) sample_login =
     ((l', d'), Reply 200 p (Some (sample_token, 604800)))"
proof -
  obtain d' p where o: "open_session 0 sample_random (sample_login_db h) (sample_user\<lparr>uPasswordHash := h\<rparr>) =
     (d', Reply 200 p (Some (sample_token, 604800)))" using sample_open_session by blast
  obtain l' where a: "allow 0 sample_limiter (clientIP sample_login) = (l', True)"
    by (simp add: allow_def sample_limiter_def newRateLimiter_def Let_def)
  show ?thesis
    by (simp add: handleLogin_def a sample_login_body sample_login_user o assms sample_auth_env_def
        del: b64_encode.simps)
qed

theorem login_opens_session_witness:
  "\<exists>h l' d' p u s. HashPassword sample_idkey (Some ''salt'') ''secret'' = Some h \<and>
     handleLogin sample_auth_env 0 sample_random (sample_limiter, sample_login_db h) sample_login =
       ((l', d'), Reply 200 p (Some (sample_token, 604800))) \<and> length (sessions d') = 2 \<and>
     require (5 * hour) d' RoleViewer (sample_login\<lparr>rqMethod := ''GET'', rqCookie := Some sample_token\<rparr>) = Inr (u, s)"
proof -
  obtain h where h: "HashPassword sample_idkey (Some ''salt'') ''secret'' = Some h"
    by (simp add: HashPassword_def sample_idkey_def)
  have "VerifyPassword sample_idkey ''secret'' h = Verified True"
    using HashPassword_facts [OF sample_idkey_total h] by simp
  then obtain l' d' p where l: "handleLogin sample_auth_env 0 sample_random
      (sample_limiter, sample_login_db h) sample_login = ((l', d'), Reply 200 p (Some (sample_token, 604800)))"
    using sample_handleLogin by blast
  let ?r = "sample_login\<lparr>rqMethod := ''GET'', rqCookie := Some sample_token\<rparr>"
  obtain req w s where w: "decodeJSON decode_login sample_login = Some req" "w \<in> set (users (sample_login_db h))"
    "nocase (uUsername w) = nocase (lrUsername req)"
    "VerifyPassword (aeIDKey sample_auth_env) (lrPassword req) (uPasswordHash w) = Verified True"
    "604800 = (7 * 24 * 3600 :: int)" "sessions d' = sessions (sample_login_db h) @ [s]"
    "users d' = users (sample_login_db h)"
    "\<forall>later r' least. later < stored_time (0 + SessionTTL) \<and> rqCookie r' = Some sample_token \<and>
        rqMethod r' = ''GET'' \<and> AtLeast (uRole w) least \<longrightarrow> require later d' least r' = Inr (w, s)"
    by (rule login_opens_session [OF sample_login_inv l])
  have "w = sample_user\<lparr>uPasswordHash := h\<rparr>" using w(2) by (simp add: sample_login_db_def)
  then have "AtLeast (uRole w) RoleViewer" by (simp add: AtLeast_def roleRank_def sample_user_def)
  moreover have "5 * hour < stored_time (0 + SessionTTL)" by (simp add: stored_time_def)
  ultimately have "require (5 * hour) d' RoleViewer ?r = Inr (w, s)" using w(8) by simp
  moreover have "length (sessions d') = 2" unfolding w(6) by (simp add: sample_login_db_def sample_db_def)
  ultimately show ?thesis using h l by blast
qed

end
