(* ===== verification/Accounts.thy ===== *)
theory Accounts
  imports Auth
begin

text \<open>
  \<open>backend/internal/api/handlers_users.go\<close> and \<open>handlers_setup.go\<close>: the first-run set-up and the
  management of accounts.  A protected handler gets the user the guard found; its result is the
  database after the request and the reply.
\<close>

section \<open>Set-up\<close>

record setupRequest =
  srLanguage :: string
  srUsername :: string
  srPassword :: string
  srMode :: string

definition decode_setup :: "json \<Rightarrow> setupRequest option" where
  "decode_setup = decode_struct
     [(''language'', json_string (\<lambda>s. srLanguage_update (\<lambda>_. s))),
      (''admin'', json_struct
         [(''username'', json_string (\<lambda>s. srUsername_update (\<lambda>_. s))),
          (''password'', json_string (\<lambda>s. srPassword_update (\<lambda>_. s)))]),
      (''network'', json_struct [(''mode'', json_string (\<lambda>s. srMode_update (\<lambda>_. s)))])]
     \<lparr>srLanguage = '''', srUsername = '''', srPassword = '''', srMode = ''''\<rparr>"

definition handleSetupStatus :: "db \<Rightarrow> outcome" where
  "handleSetupStatus d =
     (case SetupCompleted d of
        Inl _ \<Rightarrow> internalError
      | Inr completed \<Rightarrow> writeJSON 200 (Object [(''completed'', VBool completed)]))"

text \<open>Writing settings one after the other; a write cannot fail here.\<close>

definition put_settings :: "db \<Rightarrow> (string \<times> string) list \<Rightarrow> db" where
  "put_settings d kvs = fold (\<lambda>(k, v) d. db_after d (SetSetting d k v)) kvs d"

definition handleSetupComplete ::
    "auth_env \<Rightarrow> instant \<Rightarrow> (nat \<Rightarrow> string option) \<Rightarrow> db \<Rightarrow> request \<Rightarrow> db \<times> outcome" where
  "handleSetupComplete env now rnd d r =
     (case SetupCompleted d of
        Inl _ \<Rightarrow> (d, internalError)
      | Inr True \<Rightarrow> (d, writeError 409 ''setup.already_completed'')
      | Inr False \<Rightarrow>
          (case decodeJSON decode_setup r of
             None \<Rightarrow> (d, invalid_json)
           | Some req \<Rightarrow>
               if srLanguage req \<noteq> ''en'' \<and> srLanguage req \<noteq> ''de'' then (d, writeError 400 ''setup.invalid_language'')
               else if length (srUsername req) < 3 then (d, writeError 400 ''setup.invalid_username'')
               else if length (srPassword req) < 10 then (d, writeError 400 ''setup.weak_password'')
               else if srMode req \<noteq> ''proxy_dhcp'' \<and> srMode req \<noteq> ''dhcp''
               then (d, writeError 400 ''setup.invalid_network_mode'')
               else case HashPassword (aeIDKey env) (rnd 0) (srPassword req) of
                      None \<Rightarrow> (d, internalError)
                    | Some hash \<Rightarrow>
                        (case CreateUser now d (srUsername req) hash RoleAdmin (srLanguage req) of
                           Inl _ \<Rightarrow> (d, internalError)
                         | Inr (d1, _) \<Rightarrow>
                             (put_settings d1 [(SettingUILanguage, srLanguage req), (SettingNetworkMode, srMode req),
                                               (SettingSetupCompleted, ''true'')],
                              writeJSON 201 (Object [(''completed'', VBool True)])))))"

section \<open>Users\<close>

abbreviation minPasswordLength :: nat where "minPasswordLength \<equiv> 10"

record createUserRequest =
  cuUsername :: string
  cuPassword :: string
  cuRole :: string
  cuLocale :: string

definition decode_create_user :: "json \<Rightarrow> createUserRequest option" where
  "decode_create_user = decode_struct
     [(''username'', json_string (\<lambda>s. cuUsername_update (\<lambda>_. s))),
      (''password'', json_string (\<lambda>s. cuPassword_update (\<lambda>_. s))),
      (''role'', json_string (\<lambda>s. cuRole_update (\<lambda>_. s))),
      (''locale'', json_string (\<lambda>s. cuLocale_update (\<lambda>_. s)))]
     \<lparr>cuUsername = '''', cuPassword = '''', cuRole = '''', cuLocale = ''''\<rparr>"

text \<open>The requests with one field: \<open>{"role": ...}\<close> and \<open>{"password": ...}\<close>.\<close>

definition decode_update_user :: "json \<Rightarrow> string option" where
  "decode_update_user = decode_struct [(''role'', json_string (\<lambda>s _. s))] ''''"

definition decode_set_password :: "json \<Rightarrow> string option" where
  "decode_set_password = decode_struct [(''password'', json_string (\<lambda>s _. s))] ''''"

record changePasswordRequest =
  cpCurrent :: string
  cpNew :: string

definition decode_change_password :: "json \<Rightarrow> changePasswordRequest option" where
  "decode_change_password = decode_struct
     [(''currentPassword'', json_string (\<lambda>s. cpCurrent_update (\<lambda>_. s))),
      (''newPassword'', json_string (\<lambda>s. cpNew_update (\<lambda>_. s)))] \<lparr>cpCurrent = '''', cpNew = ''''\<rparr>"

definition handleListUsers :: "db \<Rightarrow> outcome" where
  "handleListUsers d = writeJSON 200 (UsersBody (map user_json (ListUsers d)))"

definition handleCreateUser ::
    "auth_env \<Rightarrow> instant \<Rightarrow> (nat \<Rightarrow> string option) \<Rightarrow> User \<Rightarrow> db \<Rightarrow> request \<Rightarrow> db \<times> outcome" where
  "handleCreateUser env now rnd caller d r =
     (case decodeJSON decode_create_user r of
        None \<Rightarrow> (d, invalid_json)
      | Some req \<Rightarrow>
          if length (cuUsername req) < 3 then (d, writeError 400 ''user.invalid_username'')
          else if length (cuPassword req) < minPasswordLength then (d, writeError 400 ''user.weak_password'')
          else if \<not> Role_Valid (cuRole req) then (d, writeError 400 ''user.invalid_role'')
          else (case UserByUsername d (cuUsername req) of
                  Inr _ \<Rightarrow> (d, writeError 409 ''user.exists'')
                | Inl _ \<Rightarrow>
                    (case HashPassword (aeIDKey env) (rnd 0) (cuPassword req) of
                       None \<Rightarrow> (d, internalError)
                     | Some hash \<Rightarrow>
                         (case CreateUser now d (cuUsername req) hash (cuRole req)
                                 (if cuLocale req = '''' then ''en'' else cuLocale req) of
                            Inl _ \<Rightarrow> (d, internalError)
                          | Inr (d1, user) \<Rightarrow>
                              (audit_as now d1 caller ''user.create'' ''user'' (uID user),
                               writeJSON 201 (UserBody (user_json user)))))))"

definition isLastAdmin :: "db \<Rightarrow> bool" where
  "isLastAdmin d \<longleftrightarrow> CountAdmins d \<le> 1"

definition handleUpdateUser :: "instant \<Rightarrow> User \<Rightarrow> db \<Rightarrow> string \<Rightarrow> request \<Rightarrow> db \<times> outcome" where
  "handleUpdateUser now caller d seg r =
     (case pathID seg of
        None \<Rightarrow> (d, invalid_id)
      | Some i \<Rightarrow>
     (case UserByID d i of
        Inl e \<Rightarrow> (d, storeError e)
      | Inr target \<Rightarrow>
     (case decodeJSON decode_update_user r of
        None \<Rightarrow> (d, invalid_json)
      | Some role \<Rightarrow>
          if \<not> Role_Valid role then (d, writeError 400 ''user.invalid_role'')
          else if uRole target = RoleAdmin \<and> role \<noteq> RoleAdmin \<and> isLastAdmin d
          then (d, writeError 409 ''user.last_admin'')
          else case UpdateUserRole d i role of
                 Inl e \<Rightarrow> (d, storeError e)
               | Inr (d1, _) \<Rightarrow>
                   (let d2 = audit_as now d1 caller ''user.update_role'' ''user'' i in
                    (d2, case UserByID d2 i of
                           Inl e \<Rightarrow> storeError e | Inr u \<Rightarrow> writeJSON 200 (UserBody (user_json u)))))))"

definition handleSetUserPassword ::
    "auth_env \<Rightarrow> instant \<Rightarrow> (nat \<Rightarrow> string option) \<Rightarrow> User \<Rightarrow> db \<Rightarrow> string \<Rightarrow> request \<Rightarrow> db \<times> outcome" where
  "handleSetUserPassword env now rnd caller d seg r =
     (case pathID seg of
        None \<Rightarrow> (d, invalid_id)
      | Some i \<Rightarrow>
     (case UserByID d i of
        Inl e \<Rightarrow> (d, storeError e)
      | Inr _ \<Rightarrow>
     (case decodeJSON decode_set_password r of
        None \<Rightarrow> (d, invalid_json)
      | Some pw \<Rightarrow>
          if length pw < minPasswordLength then (d, writeError 400 ''user.weak_password'')
          else case HashPassword (aeIDKey env) (rnd 0) pw of
                 None \<Rightarrow> (d, internalError)
               | Some hash \<Rightarrow>
                   (case UpdateUserPassword d i hash of
                      Inl e \<Rightarrow> (d, storeError e)
                    | Inr (d1, _) \<Rightarrow>
                        (audit_as now d1 caller ''user.reset_password'' ''user'' i,
                         writeJSON 200 (Object [(''updated'', VBool True)]))))))"

text \<open>The cleared cookie has a lifetime of \<open>-1\<close> nanosecond, which is no whole second.\<close>

definition handleChangeOwnPassword ::
    "auth_env \<Rightarrow> instant \<Rightarrow> (nat \<Rightarrow> string option) \<Rightarrow> User \<Rightarrow> db \<Rightarrow> request \<Rightarrow> db \<times> outcome" where
  "handleChangeOwnPassword env now rnd user d r =
     (case decodeJSON decode_change_password r of
        None \<Rightarrow> (d, invalid_json)
      | Some req \<Rightarrow>
     (case VerifyPassword (aeIDKey env) (cpCurrent req) (uPasswordHash user) of
        ArgonPanic \<Rightarrow> (d, Panic)
      | Verified True \<Rightarrow>
          if length (cpNew req) < minPasswordLength then (d, writeError 400 ''user.weak_password'')
          else (case HashPassword (aeIDKey env) (rnd 0) (cpNew req) of
                  None \<Rightarrow> (d, internalError)
                | Some hash \<Rightarrow>
                    (case UpdateUserPassword d (uID user) hash of
                       Inl e \<Rightarrow> (d, storeError e)
                     | Inr (d1, _) \<Rightarrow>
                         (audit_as now d1 user ''user.change_password'' ''user'' (uID user),
                          Reply 200 (Object [(''updated'', VBool True), (''reloginRequired'', VBool True)])
                            (Some (sessionCookie '''' (- 1))))))
      | _ \<Rightarrow> (d, writeError 403 ''user.wrong_password'')))"

definition handleDeleteUser :: "instant \<Rightarrow> User \<Rightarrow> db \<Rightarrow> string \<Rightarrow> db \<times> outcome" where
  "handleDeleteUser now caller d seg =
     (case pathID seg of
        None \<Rightarrow> (d, invalid_id)
      | Some i \<Rightarrow>
          if uID caller = i then (d, writeError 409 ''user.cannot_delete_self'')
          else (case UserByID d i of
                  Inl e \<Rightarrow> (d, storeError e)
                | Inr target \<Rightarrow>
                    if uRole target = RoleAdmin \<and> isLastAdmin d then (d, writeError 409 ''user.last_admin'')
                    else (case DeleteUser d i of
                            Inl e \<Rightarrow> (d, storeError e)
                          | Inr (d1, _) \<Rightarrow> (audit_as now d1 caller ''user.delete'' ''user'' i, no_content))))"

end
