(* ===== verification/Machines.thy ===== *)
theory Machines
  imports Auth
begin

text \<open>
  \<open>backend/internal/api/handlers_hosts.go\<close> and \<open>handlers_installations.go\<close>: the registered machines and
  the installation queue.
\<close>

section \<open>Hosts\<close>

record hostRequest =
  hrMAC :: string
  hrHostname :: string
  hrVendor :: string
  hrModel :: string
  hrSerial :: string
  hrAssetID :: string
  hrTags :: "string list"
  hrFirmware :: string
  hrArch :: string
  hrProfileID :: "int option"
  hrProfileVersion :: int

definition decode_host :: "json \<Rightarrow> hostRequest option" where
  "decode_host = decode_struct
     [(''mac'', json_string (\<lambda>s. hrMAC_update (\<lambda>_. s))),
      (''hostname'', json_string (\<lambda>s. hrHostname_update (\<lambda>_. s))),
      (''vendor'', json_string (\<lambda>s. hrVendor_update (\<lambda>_. s))),
      (''model'', json_string (\<lambda>s. hrModel_update (\<lambda>_. s))),
      (''serial'', json_string (\<lambda>s. hrSerial_update (\<lambda>_. s))),
      (''assetId'', json_string (\<lambda>s. hrAssetID_update (\<lambda>_. s))),
      (''tags'', json_strings (\<lambda>ss. hrTags_update (\<lambda>_. ss))),
      (''firmware'', json_string (\<lambda>s. hrFirmware_update (\<lambda>_. s))),
      (''arch'', json_string (\<lambda>s. hrArch_update (\<lambda>_. s))),
      (''profileId'', json_int_ptr (\<lambda>i. hrProfileID_update (\<lambda>_. i))),
      (''profileVersion'', json_int (\<lambda>i. hrProfileVersion_update (\<lambda>_. i)))]
     \<lparr>hrMAC = '''', hrHostname = '''', hrVendor = '''', hrModel = '''', hrSerial = '''', hrAssetID = '''',
      hrTags = [], hrFirmware = '''', hrArch = '''', hrProfileID = None, hrProfileVersion = 0\<rparr>"

definition host_validate :: "hostRequest \<Rightarrow> outcome + hostRequest" where
  "host_validate req =
     (case NormalizeMAC (hrMAC req) of
        Inl _ \<Rightarrow> Inl (writeError 400 ''host.invalid_mac'')
      | Inr mac \<Rightarrow>
          if hrFirmware req = '''' \<or> hrFirmware req = ''bios'' \<or> hrFirmware req = ''uefi''
          then Inr (req\<lparr>hrMAC := mac\<rparr>)
          else Inl (writeError 400 ''host.invalid_firmware''))"

definition host_apply :: "hostRequest \<Rightarrow> Host \<Rightarrow> Host" where
  "host_apply req h = h\<lparr>hMAC := hrMAC req, hHostname := hrHostname req, hVendor := hrVendor req,
     hModel := hrModel req, hSerial := hrSerial req, hAssetID := hrAssetID req, hTags := hrTags req,
     hFirmware := hrFirmware req, hArch := hrArch req, hProfileID := hrProfileID req,
     hProfileVersion := hrProfileVersion req\<rparr>"

definition resolveProfilePin :: "db \<Rightarrow> hostRequest \<Rightarrow> outcome + hostRequest" where
  "resolveProfilePin d req =
     (case hrProfileID req of
        None \<Rightarrow> Inr (req\<lparr>hrProfileVersion := 0\<rparr>)
      | Some pid \<Rightarrow>
          (case ProfileByID d pid of
             Inl e \<Rightarrow> Inl (if e = ErrNotFound then writeError 400 ''host.unknown_profile'' else internalError)
           | Inr profile \<Rightarrow>
               if hrProfileVersion req = 0 then Inr (req\<lparr>hrProfileVersion := pfCurrentVersion profile\<rparr>)
               else (case ProfileVersionNumber d (pfID profile) (hrProfileVersion req) of
                       Inl e \<Rightarrow> Inl (if e = ErrNotFound then writeError 400 ''host.unknown_profile_version''
                                     else internalError)
                     | Inr _ \<Rightarrow> Inr req)))"

definition host_body :: "db \<Rightarrow> request \<Rightarrow> outcome + hostRequest" where
  "host_body d r =
     (case decodeJSON decode_host r of
        None \<Rightarrow> Inl invalid_json
      | Some req \<Rightarrow> (case host_validate req of Inl out \<Rightarrow> Inl out | Inr req' \<Rightarrow> resolveProfilePin d req'))"

definition blank_host :: Host where
  "blank_host = \<lparr>hID = 0, hMAC = '''', hHostname = '''', hVendor = '''', hModel = '''', hSerial = '''', hAssetID = '''',
     hTags = [], hFirmware = '''', hArch = '''', hProfileID = None, hProfileVersion = 0, hStatus = HostReady,
     hCreatedAt = 0, hUpdatedAt = 0\<rparr>"

definition handleListHosts :: "db \<Rightarrow> outcome" where
  "handleListHosts d = writeJSON 200 (HostsBody (ListHosts d))"

definition handleGetHost :: "db \<Rightarrow> string \<Rightarrow> outcome" where
  "handleGetHost d seg =
     (case pathID seg of
        None \<Rightarrow> invalid_id
      | Some i \<Rightarrow> (case HostByID d i of Inl e \<Rightarrow> storeError e | Inr h \<Rightarrow> writeJSON 200 (HostBody h)))"

definition handleCreateHost :: "instant \<Rightarrow> User \<Rightarrow> db \<Rightarrow> request \<Rightarrow> db \<times> outcome" where
  "handleCreateHost now caller d r =
     (case host_body d r of
        Inl out \<Rightarrow> (d, out)
      | Inr req \<Rightarrow>
          (case HostByMAC d (hrMAC req) of
             Inr _ \<Rightarrow> (d, writeError 409 ''host.mac_exists'')
           | Inl _ \<Rightarrow>
               (case CreateHost now d ((host_apply req blank_host)\<lparr>hStatus := HostReady\<rparr>) of
                  Inl _ \<Rightarrow> (d, internalError)
                | Inr (d1, created) \<Rightarrow>
                    (audit_as now d1 caller ''host.create'' ''host'' (hID created),
                     writeJSON 201 (HostBody created)))))"

definition handleUpdateHost :: "instant \<Rightarrow> db \<Rightarrow> string \<Rightarrow> request \<Rightarrow> db \<times> outcome" where
  "handleUpdateHost now d seg r =
     (case pathID seg of
        None \<Rightarrow> (d, invalid_id)
      | Some i \<Rightarrow>
     (case HostByID d i of
        Inl e \<Rightarrow> (d, storeError e)
      | Inr existing \<Rightarrow>
     (case host_body d r of
        Inl out \<Rightarrow> (d, out)
      | Inr req \<Rightarrow>
     (case UpdateHost now d (host_apply req existing) of
        Inl e \<Rightarrow> (d, storeError e)
      | Inr (d1, updated) \<Rightarrow> (d1, writeJSON 200 (HostBody updated))))))"

definition handleDeleteHost :: "instant \<Rightarrow> User \<Rightarrow> db \<Rightarrow> string \<Rightarrow> db \<times> outcome" where
  "handleDeleteHost now caller d seg =
     (case pathID seg of
        None \<Rightarrow> (d, invalid_id)
      | Some i \<Rightarrow>
          (case DeleteHost d i of
             Inl e \<Rightarrow> (d, storeError e)
           | Inr (d1, _) \<Rightarrow> (audit_as now d1 caller ''host.delete'' ''host'' i, no_content)))"

section \<open>Installations\<close>

record createInstallationRequest =
  ciHostID :: int
  ciProfileID :: "int option"

definition decode_installation :: "json \<Rightarrow> createInstallationRequest option" where
  "decode_installation = decode_struct
     [(''hostId'', json_int (\<lambda>i. ciHostID_update (\<lambda>_. i))),
      (''profileId'', json_int_ptr (\<lambda>i. ciProfileID_update (\<lambda>_. i)))] \<lparr>ciHostID = 0, ciProfileID = None\<rparr>"

definition handleListInstallations :: "db \<Rightarrow> outcome" where
  "handleListInstallations d = writeJSON 200 (InstallationsBody (map installation_json (ListInstallations d)))"

definition handleGetInstallation :: "db \<Rightarrow> string \<Rightarrow> outcome" where
  "handleGetInstallation d seg =
     (case pathID seg of
        None \<Rightarrow> invalid_id
      | Some i \<Rightarrow> (case InstallationByID d i of
                     Inl e \<Rightarrow> storeError e
                   | Inr inst \<Rightarrow> writeJSON 200 (InstallationBody (installation_json inst))))"

text \<open>
  Creating an installation first checks what to install (several reads), then draws a token and
  inserts the row; nothing keeps another request from running in between.
\<close>

definition plan_installation :: "db \<Rightarrow> createInstallationRequest \<Rightarrow> outcome + (Host \<times> ProfileVersion)" where
  "plan_installation d req =
     (case HostByID d (ciHostID req) of
        Inl e \<Rightarrow> Inl (if e = ErrNotFound then writeError 400 ''installation.unknown_host'' else internalError)
      | Inr host \<Rightarrow>
     (case (case ciProfileID req of Some p \<Rightarrow> Some p | None \<Rightarrow> hProfileID host) of
        None \<Rightarrow> Inl (writeError 400 ''installation.no_profile'')
      | Some profileID \<Rightarrow>
     (case ProfileByID d profileID of
        Inl e \<Rightarrow> Inl (if e = ErrNotFound then writeError 400 ''installation.unknown_profile'' else internalError)
      | Inr profile \<Rightarrow>
     (case ActiveInstallationForHost d (hID host) of
        Inr _ \<Rightarrow> Inl (writeError 409 ''installation.already_active'')
      | Inl e \<Rightarrow>
          if e \<noteq> ErrNotFound then Inl internalError
          else (case ProfileVersionNumber d (pfID profile)
                       (if ciProfileID req = None \<and> hProfileVersion host > 0 then hProfileVersion host
                        else pfCurrentVersion profile) of
                  Inl _ \<Rightarrow> Inl internalError
                | Inr version \<Rightarrow> Inr (host, version))))))"

definition queue_installation ::
    "instant \<Rightarrow> (nat \<Rightarrow> string option) \<Rightarrow> User \<Rightarrow> db \<Rightarrow> Host \<times> ProfileVersion \<Rightarrow> db \<times> outcome" where
  "queue_installation now rnd caller d plan =
     (case NewToken (rnd 0) of
        None \<Rightarrow> (d, internalError)
      | Some token \<Rightarrow>
          (case CreateInstallation now d (hID (fst plan)) (pvID (snd plan)) token of
             Inl _ \<Rightarrow> (d, internalError)
           | Inr (d1, inst) \<Rightarrow>
               (audit_as now d1 caller ''installation.create'' ''installation'' (inID inst),
                writeJSON 201 (InstallationBody (installation_json inst)))))"

definition handleCreateInstallation ::
    "instant \<Rightarrow> (nat \<Rightarrow> string option) \<Rightarrow> User \<Rightarrow> db \<Rightarrow> request \<Rightarrow> db \<times> outcome" where
  "handleCreateInstallation now rnd caller d r =
     (case decodeJSON decode_installation r of
        None \<Rightarrow> (d, invalid_json)
      | Some req \<Rightarrow>
          (case plan_installation d req of
             Inl out \<Rightarrow> (d, out)
           | Inr plan \<Rightarrow> queue_installation now rnd caller d plan))"

definition handleDeleteInstallation :: "instant \<Rightarrow> User \<Rightarrow> db \<Rightarrow> string \<Rightarrow> db \<times> outcome" where
  "handleDeleteInstallation now caller d seg =
     (case pathID seg of
        None \<Rightarrow> (d, invalid_id)
      | Some i \<Rightarrow>
          (case InstallationByID d i of
             Inl e \<Rightarrow> (d, storeError e)
           | Inr _ \<Rightarrow>
               (case DeleteInstallation d i of
                  Inl e \<Rightarrow> (d, if e = ErrNotFound then writeError 409 ''installation.not_cancellable''
                               else internalError)
                | Inr (d1, _) \<Rightarrow>
                    (audit_as now d1 caller ''installation.cancel'' ''installation'' i, no_content))))"

end
