(* ===== verification/Profile_API.thy ===== *)
theory Profile_API
  imports Auth Boot
begin

text \<open>
  \<open>backend/internal/api/handlers_profiles.go\<close>, \<open>handlers_profiles_answer.go\<close> and
  \<open>handlers_profiles_transfer.go\<close>: profiles and their versions, the preview and the override of
  answer files, cloning, export and import.  \<open>json.Valid\<close> and the compaction \<open>json.Encoder\<close>
  applies to raw JSON are parameters, as the JSON decoder of configurations is.
\<close>

record profile_env =
  peRegistry :: registry
  peRender :: render_env
  peValid :: "string \<Rightarrow> bool"
  peCompact :: "string \<Rightarrow> string"

section \<open>Profiles\<close>

record createProfileRequest =
  cprName :: string
  cprProvider :: string
  cprISOID :: "int option"
  cprConfig :: string

definition decode_create_profile :: "json \<Rightarrow> createProfileRequest option" where
  "decode_create_profile = decode_struct
     [(''name'', json_string (\<lambda>s. cprName_update (\<lambda>_. s))),
      (''provider'', json_string (\<lambda>s. cprProvider_update (\<lambda>_. s))),
      (''isoId'', json_int_ptr (\<lambda>i. cprISOID_update (\<lambda>_. i))),
      (''config'', json_raw (\<lambda>s. cprConfig_update (\<lambda>_. s)))]
     \<lparr>cprName = '''', cprProvider = '''', cprISOID = None, cprConfig = ''''\<rparr>"

record updateProfileRequest =
  uprName :: string
  uprISOID :: "int option"
  uprConfig :: string
  uprSaveAsNewVersion :: bool

definition decode_update_profile :: "json \<Rightarrow> updateProfileRequest option" where
  "decode_update_profile = decode_struct
     [(''name'', json_string (\<lambda>s. uprName_update (\<lambda>_. s))),
      (''isoId'', json_int_ptr (\<lambda>i. uprISOID_update (\<lambda>_. i))),
      (''config'', json_raw (\<lambda>s. uprConfig_update (\<lambda>_. s))),
      (''saveAsNewVersion'', json_bool (\<lambda>b. uprSaveAsNewVersion_update (\<lambda>_. b)))]
     \<lparr>uprName = '''', uprISOID = None, uprConfig = '''', uprSaveAsNewVersion = False\<rparr>"

text \<open>\<open>None\<close>: the configuration is fine.  A nil map reads as an empty one.\<close>

definition validProfileConfig :: "profile_env \<Rightarrow> Manifest \<Rightarrow> string \<Rightarrow> outcome option" where
  "validProfileConfig env m raw =
     (case reUnmarshal (peRender env) raw of
        DecodeError \<Rightarrow> Some (writeError 400 ''profile.invalid_config'')
      | decoded \<Rightarrow>
          (case ValidateConfig (mfSettingsSchema m) (case decoded of DecodeObject doc \<Rightarrow> doc | _ \<Rightarrow> Map.empty) of
             None \<Rightarrow> Some Panic
           | Some [] \<Rightarrow> None
           | Some _ \<Rightarrow> Some (writeError 400 ''profile.invalid_config_field'')))"

definition handleListProfiles :: "db \<Rightarrow> outcome" where
  "handleListProfiles d = writeJSON 200 (ProfilesBody (ListProfiles d))"

definition handleCreateProfile :: "profile_env \<Rightarrow> instant \<Rightarrow> User \<Rightarrow> db \<Rightarrow> request \<Rightarrow> db \<times> outcome" where
  "handleCreateProfile env now caller d r =
     (case decodeJSON decode_create_profile r of
        None \<Rightarrow> (d, invalid_json)
      | Some req \<Rightarrow>
          if cprName req = '''' then (d, writeError 400 ''profile.invalid_name'')
          else (case Get (peRegistry env) (cprProvider req) of
                  None \<Rightarrow> (d, writeError 400 ''profile.unknown_provider'')
                | Some m \<Rightarrow>
                    (case (if cprConfig req \<noteq> '''' then validProfileConfig env m (cprConfig req) else None) of
                       Some out \<Rightarrow> (d, out)
                     | None \<Rightarrow>
                         (case CreateProfile now d (cprName req) (cprProvider req) (cprISOID req)
                                 (if cprConfig req \<noteq> '''' then cprConfig req else ''{}'') of
                            Inl _ \<Rightarrow> (d, internalError)
                          | Inr (d1, created) \<Rightarrow>
                              (audit_as now d1 caller ''profile.create'' ''profile'' (pfID created),
                               writeJSON 201 (ProfileBody created))))))"

definition handleGetProfile :: "db \<Rightarrow> string \<Rightarrow> outcome" where
  "handleGetProfile d seg =
     (case pathID seg of
        None \<Rightarrow> invalid_id
      | Some i \<Rightarrow> (case ProfileByID d i of Inl e \<Rightarrow> storeError e | Inr p \<Rightarrow> writeJSON 200 (ProfileBody p)))"

definition handleProfileVersions :: "db \<Rightarrow> string \<Rightarrow> outcome" where
  "handleProfileVersions d seg =
     (case pathID seg of
        None \<Rightarrow> invalid_id
      | Some i \<Rightarrow> (case ProfileByID d i of
                     Inl e \<Rightarrow> storeError e
                   | Inr _ \<Rightarrow> writeJSON 200 (VersionsBody (ProfileVersions d i))))"

definition handleUpdateProfile ::
    "profile_env \<Rightarrow> instant \<Rightarrow> User \<Rightarrow> db \<Rightarrow> string \<Rightarrow> request \<Rightarrow> db \<times> outcome" where
  "handleUpdateProfile env now caller d seg r =
     (case pathID seg of
        None \<Rightarrow> (d, invalid_id)
      | Some i \<Rightarrow>
     (case ProfileByID d i of
        Inl e \<Rightarrow> (d, storeError e)
      | Inr existing \<Rightarrow>
     (case decodeJSON decode_update_profile r of
        None \<Rightarrow> (d, invalid_json)
      | Some req \<Rightarrow>
          if uprName req = '''' then (d, writeError 400 ''profile.invalid_name'')
          else (case (if uprConfig req = '''' then None
                      else case Get (peRegistry env) (pfProvider existing) of
                             Some m \<Rightarrow> validProfileConfig env m (uprConfig req)
                           | None \<Rightarrow> if peValid env (uprConfig req) then None
                                     else Some (writeError 400 ''profile.invalid_config'')) of
                  Some out \<Rightarrow> (d, out)
                | None \<Rightarrow>
                    (case UpdateProfile now d i (uprName req) (uprISOID req)
                            (if uprConfig req = '''' then None else Some (uprConfig req)) (uprSaveAsNewVersion req) of
                       Inl e \<Rightarrow> (d, if e = ErrVersionInUse then writeError 409 ''profile.version_in_use'' else storeError e)
                     | Inr (d1, updated) \<Rightarrow>
                         (if uprSaveAsNewVersion req then audit_as now d1 caller ''profile.new_version'' ''profile'' i else d1,
                          writeJSON 200 (ProfileBody updated)))))))"

definition handleDeleteProfile :: "instant \<Rightarrow> User \<Rightarrow> db \<Rightarrow> string \<Rightarrow> db \<times> outcome" where
  "handleDeleteProfile now caller d seg =
     (case pathID seg of
        None \<Rightarrow> (d, invalid_id)
      | Some i \<Rightarrow>
          (case DeleteProfile d i of
             Inl e \<Rightarrow> (d, storeError e)
           | Inr (d1, _) \<Rightarrow> (audit_as now d1 caller ''profile.delete'' ''profile'' i, no_content)))"

section \<open>Answer files\<close>

definition previewParams :: Params where
  "previewParams =
     (let base = ''http://helboot.example'' in
      \<lparr>paAnswerFileURL = base @ ''/boot/answer/PREVIEW-TOKEN'', paISOURL = base @ ''/boot/isofile/0'',
       paISOContentURL = base @ ''/boot/iso/0'', paCloudInitURL = base @ ''/boot/cloudinit/PREVIEW-TOKEN/'',
       paReportURL = base @ ''/boot/report/PREVIEW-TOKEN'', paHostname = ''preview-host'',
       paMAC = ''52:54:00:00:00:01''\<rparr>)"

definition profileVersionFromPath :: "db \<Rightarrow> string \<Rightarrow> string \<Rightarrow> outcome + Profile \<times> ProfileVersion" where
  "profileVersionFromPath d seg verseg =
     (case pathID seg of
        None \<Rightarrow> Inl invalid_id
      | Some i \<Rightarrow>
     (case Atoi verseg of (versionNo, err) \<Rightarrow>
        if err \<or> versionNo < 1 then Inl invalid_id
        else (case ProfileByID d i of
                Inl e \<Rightarrow> Inl (storeError e)
              | Inr profile \<Rightarrow>
                  (case ProfileVersionNumber d (pfID profile) versionNo of
                     Inl e \<Rightarrow> Inl (if e = ErrNotFound then writeError 404 ''profile.unknown_version'' else internalError)
                   | Inr version \<Rightarrow> Inr (profile, version)))))"

text \<open>
  \<open>os.IsNotExist\<close> does not look inside wrapped errors, and every error of \<open>Render\<close> and
  \<open>RenderFile\<close> is wrapped by \<open>fmt.Errorf\<close>.
\<close>

definition os_IsNotExist :: "render_error \<Rightarrow> bool" where
  "os_IsNotExist e = False"

definition handleAnswerPreview :: "profile_env \<Rightarrow> db \<Rightarrow> string \<Rightarrow> string \<Rightarrow> outcome" where
  "handleAnswerPreview env d seg verseg =
     (case profileVersionFromPath d seg verseg of
        Inl out \<Rightarrow> out
      | Inr (profile, version) \<Rightarrow>
          (case Get (peRegistry env) (pfProvider profile) of
             None \<Rightarrow> writeError 409 ''profile.provider_missing''
           | Some m \<Rightarrow>
               if pvAnswerOverride version = '''' \<and> mfAnswerTemplate m = ''''
               then writeError 404 ''profile.no_answer_file''
               else (case (if pvAnswerOverride version \<noteq> ''''
                           then Render (peRender env) (pvAnswerOverride version) (pvConfig version) previewParams
                           else RenderFile (peRender env) (Join [mfDir m, Clean (''/'' @ mfAnswerTemplate m)])
                                  (pvConfig version) previewParams) of
                       Inl RenderPanic \<Rightarrow> Panic
                     | Inl e \<Rightarrow> if os_IsNotExist e then writeError 404 ''profile.no_answer_file''
                                else writeError 422 ''profile.answer_render_failed''
                     | Inr out \<Rightarrow>
                         writeJSON 200 (Object [(''format'', VStr (mfAnswerFormat m)), (''content'', VStr out),
                           (''overridden'', VBool (pvAnswerOverride version \<noteq> ''''))]))))"

definition decode_override :: "json \<Rightarrow> string option" where
  "decode_override = decode_struct [(''content'', json_string (\<lambda>s _. s))] ''''"

definition handleSetAnswerOverride ::
    "profile_env \<Rightarrow> instant \<Rightarrow> User \<Rightarrow> db \<Rightarrow> string \<Rightarrow> string \<Rightarrow> request \<Rightarrow> db \<times> outcome" where
  "handleSetAnswerOverride env now caller d seg verseg r =
     (case profileVersionFromPath d seg verseg of
        Inl out \<Rightarrow> (d, out)
      | Inr (profile, version) \<Rightarrow>
          (case decodeJSON decode_override r of
             None \<Rightarrow> (d, invalid_json)
           | Some content \<Rightarrow>
               (case (if content = '''' then None
                      else case Render (peRender env) content (pvConfig version) previewParams of
                             Inl RenderPanic \<Rightarrow> Some Panic
                           | Inl RenderFailed \<Rightarrow> Some (writeError 422 ''profile.answer_render_failed'')
                           | Inr _ \<Rightarrow> None) of
                  Some out \<Rightarrow> (d, out)
                | None \<Rightarrow>
                    (case SetAnswerOverride d (pfID profile) (pvVersion version) content of
                       Inl e \<Rightarrow> (d, storeError e)
                     | Inr (d1, _) \<Rightarrow>
                         (audit_as now d1 caller
                            (if content = '''' then ''profile.answer_override.clear'' else ''profile.answer_override.set'')
                            ''profile'' (pfID profile), no_content)))))"

section \<open>Cloning, export and import\<close>

definition decode_clone :: "json \<Rightarrow> string option" where
  "decode_clone = decode_struct [(''name'', json_string (\<lambda>s _. s))] ''''"

definition handleCloneProfile :: "instant \<Rightarrow> User \<Rightarrow> db \<Rightarrow> string \<Rightarrow> request \<Rightarrow> db \<times> outcome" where
  "handleCloneProfile now caller d seg r =
     (case pathID seg of
        None \<Rightarrow> (d, invalid_id)
      | Some i \<Rightarrow>
     (case ProfileByID d i of
        Inl e \<Rightarrow> (d, storeError e)
      | Inr source \<Rightarrow>
     (case decodeJSON decode_clone r of
        None \<Rightarrow> (d, invalid_json)
      | Some name \<Rightarrow>
     (case ProfileVersionNumber d (pfID source) (pfCurrentVersion source) of
        Inl _ \<Rightarrow> (d, internalError)
      | Inr version \<Rightarrow>
     (case CreateProfile now d (if name = '''' then pfName source @ '' (copy)'' else name) (pfProvider source)
             (pfISOID source) (pvConfig version) of
        Inl _ \<Rightarrow> (d, writeError 409 ''profile.name_exists'')
      | Inr (d1, clone) \<Rightarrow>
          (audit_as now d1 caller ''profile.clone'' ''profile'' (pfID clone),
           writeJSON 201 (ProfileBody clone)))))))"

text \<open>A configuration that is not JSON makes the encoder fail before it writes anything.\<close>

definition handleExportProfile :: "profile_env \<Rightarrow> db \<Rightarrow> string \<Rightarrow> outcome" where
  "handleExportProfile env d seg =
     (case pathID seg of
        None \<Rightarrow> invalid_id
      | Some i \<Rightarrow>
     (case ProfileByID d i of
        Inl e \<Rightarrow> storeError e
      | Inr profile \<Rightarrow>
     (case ProfileVersionNumber d (pfID profile) (pfCurrentVersion profile) of
        Inl _ \<Rightarrow> internalError
      | Inr version \<Rightarrow>
          if peValid env (pvConfig version)
          then writeJSON 200 (Object [(''type'', VStr ''helboot-profile''), (''version'', VInt 1),
                 (''name'', VStr (pfName profile)), (''provider'', VStr (pfProvider profile)),
                 (''config'', VRaw (peCompact env (pvConfig version)))])
          else writeJSON 200 NoBody)))"

record profileDocument =
  pdType :: string
  pdVersion :: int
  pdName :: string
  pdProvider :: string
  pdConfig :: string

definition decode_document :: "json \<Rightarrow> profileDocument option" where
  "decode_document = decode_struct
     [(''type'', json_string (\<lambda>s. pdType_update (\<lambda>_. s))),
      (''version'', json_int (\<lambda>i. pdVersion_update (\<lambda>_. i))),
      (''name'', json_string (\<lambda>s. pdName_update (\<lambda>_. s))),
      (''provider'', json_string (\<lambda>s. pdProvider_update (\<lambda>_. s))),
      (''config'', json_raw (\<lambda>s. pdConfig_update (\<lambda>_. s)))]
     \<lparr>pdType = '''', pdVersion = 0, pdName = '''', pdProvider = '''', pdConfig = ''''\<rparr>"

definition handleImportProfile :: "profile_env \<Rightarrow> instant \<Rightarrow> User \<Rightarrow> db \<Rightarrow> request \<Rightarrow> db \<times> outcome" where
  "handleImportProfile env now caller d r =
     (case decodeJSON decode_document r of
        None \<Rightarrow> (d, invalid_json)
      | Some doc \<Rightarrow>
          if pdType doc \<noteq> ''helboot-profile'' \<or> pdVersion doc \<noteq> 1 then (d, writeError 400 ''profile.invalid_document'')
          else if pdName doc = '''' then (d, writeError 400 ''profile.invalid_name'')
          else if Get (peRegistry env) (pdProvider doc) = None then (d, writeError 400 ''profile.unknown_provider'')
          else if pdConfig doc \<noteq> '''' \<and> \<not> peValid env (pdConfig doc) then (d, writeError 400 ''profile.invalid_config'')
          else (case CreateProfile now d (pdName doc) (pdProvider doc) None
                       (if pdConfig doc \<noteq> '''' then pdConfig doc else ''{}'') of
                  Inl _ \<Rightarrow> (d, writeError 409 ''profile.name_exists'')
                | Inr (d1, created) \<Rightarrow>
                    (audit_as now d1 caller ''profile.import'' ''profile'' (pfID created),
                     writeJSON 201 (ProfileBody created))))"

end
