(* ===== verification/System_API.thy ===== *)
theory System_API
  imports Auth Boot
begin

text \<open>
  The remaining handlers of \<open>backend/internal/api\<close>: images (\<open>handlers_isos.go\<close>), the network
  configuration and status (\<open>handlers_network.go\<close>), the log viewer (\<open>handlers_system.go\<close>), boot
  media, providers, health and system information (\<open>server.go\<close>).
\<close>

section \<open>Images\<close>

definition handleListISOs :: "db \<Rightarrow> outcome" where
  "handleListISOs d = writeJSON 200 (ISOsBody (ListISOs d))"

definition handleGetISO :: "db \<Rightarrow> string \<Rightarrow> outcome" where
  "handleGetISO d seg =
     (case pathID seg of
        None \<Rightarrow> invalid_id
      | Some i \<Rightarrow> (case ISOByID d i of Inl e \<Rightarrow> storeError e | Inr img \<Rightarrow> writeJSON 200 (ISOBody img)))"

text \<open>\<open>None\<close>: the image manager is not configured.\<close>

definition handleUploadISO ::
    "iso_env option \<Rightarrow> instant \<Rightarrow> User \<Rightarrow> db \<times> library \<Rightarrow> request \<Rightarrow> (db \<times> library) \<times> outcome" where
  "handleUploadISO mgr now caller s r =
     (case mgr of
        None \<Rightarrow> (s, writeError 503 ''iso.unavailable'')
      | Some env \<Rightarrow>
     (case rqUpload r of
        NotMultipart \<Rightarrow> (s, writeError 400 ''iso.invalid_upload'')
      | NoPart \<Rightarrow> (s, writeError 400 ''iso.invalid_upload'')
      | FirstPart form filename content \<Rightarrow>
          if form \<noteq> ''file'' then (s, writeError 400 ''iso.invalid_upload'')
          else (case Import env now s filename content of
                  (s', Inl ErrInvalidFilename) \<Rightarrow> (s', writeError 400 ''iso.invalid_filename'')
                | (s', Inl ErrExists) \<Rightarrow> (s', writeError 409 ''iso.exists'')
                | (s', Inl _) \<Rightarrow> (s', internalError)
                | ((d, lib), Inr img) \<Rightarrow>
                    ((audit_as now d caller ''iso.upload'' ''iso'' (isID img), lib), writeJSON 201 (ISOBody img)))))"

text \<open>\<open>entries\<close>: the sorted entries of the image directory, each with whether it is a directory.\<close>

definition handleScanISOs ::
    "iso_env option \<Rightarrow> instant \<Rightarrow> (string \<times> bool) list \<Rightarrow> db \<times> library \<Rightarrow> (db \<times> library) \<times> outcome" where
  "handleScanISOs mgr now entries s =
     (case mgr of
        None \<Rightarrow> (s, writeError 503 ''iso.unavailable'')
      | Some env \<Rightarrow>
          (case ScanDir env now s entries of
             (s', Inl _) \<Rightarrow> (s', internalError)
           | (s', Inr added) \<Rightarrow> (s', writeJSON 200 (ISOsBody added))))"

definition handleDeleteISO ::
    "iso_env option \<Rightarrow> instant \<Rightarrow> User \<Rightarrow> db \<times> library \<Rightarrow> string \<Rightarrow> (db \<times> library) \<times> outcome" where
  "handleDeleteISO mgr now caller s seg =
     (case mgr of
        None \<Rightarrow> (s, writeError 503 ''iso.unavailable'')
      | Some _ \<Rightarrow>
     (case pathID seg of
        None \<Rightarrow> (s, invalid_id)
      | Some i \<Rightarrow>
          (case iso_Delete s i of
             (s', Inl (IsoStore e)) \<Rightarrow> (s', storeError e)
           | (s', Inl _) \<Rightarrow> (s', internalError)
           | ((d, lib), Inr _) \<Rightarrow> ((audit_as now d caller ''iso.delete'' ''iso'' i, lib), no_content))))"

section \<open>Network configuration\<close>

record networkConfig =
  ncMode :: string
  ncServerIP :: string
  ncRangeStart :: string
  ncRangeEnd :: string
  ncSubnetMask :: string
  ncGateway :: string
  ncDNS :: string
  ncLeaseMinutes :: int

definition blank_network :: networkConfig where
  "blank_network = \<lparr>ncMode = '''', ncServerIP = '''', ncRangeStart = '''', ncRangeEnd = '''', ncSubnetMask = '''',
     ncGateway = '''', ncDNS = '''', ncLeaseMinutes = 0\<rparr>"

definition decode_network :: "json \<Rightarrow> networkConfig option" where
  "decode_network = decode_struct
     [(''mode'', json_string (\<lambda>s. ncMode_update (\<lambda>_. s))),
      (''serverIp'', json_string (\<lambda>s. ncServerIP_update (\<lambda>_. s))),
      (''dhcp'', json_struct
         [(''rangeStart'', json_string (\<lambda>s. ncRangeStart_update (\<lambda>_. s))),
          (''rangeEnd'', json_string (\<lambda>s. ncRangeEnd_update (\<lambda>_. s))),
          (''subnetMask'', json_string (\<lambda>s. ncSubnetMask_update (\<lambda>_. s))),
          (''gateway'', json_string (\<lambda>s. ncGateway_update (\<lambda>_. s))),
          (''dns'', json_string (\<lambda>s. ncDNS_update (\<lambda>_. s))),
          (''leaseMinutes'', json_int (\<lambda>i. ncLeaseMinutes_update (\<lambda>_. i)))])] blank_network"

definition network_json :: "networkConfig \<Rightarrow> payload" where
  "network_json cfg = Object
     [(''mode'', VStr (ncMode cfg)), (''serverIp'', VStr (ncServerIP cfg)),
      (''dhcp'', VObject
         [(''rangeStart'', VStr (ncRangeStart cfg)), (''rangeEnd'', VStr (ncRangeEnd cfg)),
          (''subnetMask'', VStr (ncSubnetMask cfg)), (''gateway'', VStr (ncGateway cfg)),
          (''dns'', VStr (ncDNS cfg)), (''leaseMinutes'', VInt (ncLeaseMinutes cfg))])]"

text \<open>A missing setting reads as the empty string; \<open>Atoi\<close> errors are dropped.\<close>

definition readNetworkConfig :: "db \<Rightarrow> networkConfig" where
  "readNetworkConfig d =
     \<lparr>ncMode = getSetting d SettingNetworkMode, ncServerIP = getSetting d settingServerIP,
      ncRangeStart = getSetting d settingDHCPStart, ncRangeEnd = getSetting d settingDHCPEnd,
      ncSubnetMask = getSetting d settingDHCPMask, ncGateway = getSetting d settingDHCPGateway,
      ncDNS = getSetting d settingDHCPDNS, ncLeaseMinutes = fst (Atoi (getSetting d settingDHCPLeaseMin))\<rparr>"

definition handleGetNetworkConfig :: "db \<Rightarrow> outcome" where
  "handleGetNetworkConfig d = writeJSON 200 (network_json (readNetworkConfig d))"

text \<open>The checks, in order; \<open>None\<close> when all pass.\<close>

definition check_network :: "networkConfig \<Rightarrow> outcome option" where
  "check_network cfg =
     (if ncMode cfg \<noteq> ''proxy_dhcp'' \<and> ncMode cfg \<noteq> ''dhcp'' then Some (writeError 400 ''network.invalid_mode'')
      else if list_ex (\<lambda>ip. ip \<noteq> '''' \<and> ParseIP ip = []) [ncServerIP cfg, ncGateway cfg]
      then Some (writeError 400 ''network.invalid_ip'')
      else if ncMode cfg = ''dhcp'' then
        (if ParseIP (ncRangeStart cfg) = [] \<or> ParseIP (ncRangeEnd cfg) = []
         then Some (writeError 400 ''network.invalid_range'')
         else if ncSubnetMask cfg \<noteq> '''' \<and> ParseIP (ncSubnetMask cfg) = [] then Some (writeError 400 ''network.invalid_ip'')
         else if ncLeaseMinutes cfg < 0 then Some (writeError 400 ''network.invalid_lease'')
         else None)
      else None)"

definition network_settings :: "networkConfig \<Rightarrow> (string \<times> string) list" where
  "network_settings cfg =
     [(SettingNetworkMode, ncMode cfg), (settingServerIP, ncServerIP cfg), (settingDHCPStart, ncRangeStart cfg),
      (settingDHCPEnd, ncRangeEnd cfg), (settingDHCPMask, ncSubnetMask cfg), (settingDHCPGateway, ncGateway cfg),
      (settingDHCPDNS, ncDNS cfg), (settingDHCPLeaseMin, int_str (ncLeaseMinutes cfg))]"

definition handlePutNetworkConfig :: "instant \<Rightarrow> User \<Rightarrow> db \<Rightarrow> request \<Rightarrow> db \<times> outcome" where
  "handlePutNetworkConfig now caller d r =
     (case decodeJSON decode_network r of
        None \<Rightarrow> (d, invalid_json)
      | Some cfg \<Rightarrow>
          (case check_network cfg of
             Some out \<Rightarrow> (d, out)
           | None \<Rightarrow>
               (audit_as now (fold (\<lambda>(k, v) d. db_after d (SetSetting d k v)) (network_settings cfg) d) caller
                  ''network.update_config'' ''settings'' 0,
                writeJSON 200 (Object [(''saved'', VBool True), (''restartRequired'', VBool True)]))))"

definition observationWindow :: duration where
  "observationWindow = 30 * minute"

definition handleNetworkStatus ::
    "instant \<Rightarrow> DHCPObserver option \<Rightarrow> db \<Rightarrow> DHCPObserver option \<times> outcome" where
  "handleNetworkStatus now observer d =
     (let mode = getSetting d SettingNetworkMode in
      case Sightings now observationWindow observer of (observer', sightings) \<Rightarrow>
        (observer', writeJSON 200 (Object
           [(''mode'', VStr mode),
            (''dhcpServers'', VList (map (\<lambda>(ip, seen). VObject [(''ip'', VStr ip), (''lastSeen'', VTime seen)]) sightings)),
            (''warnings'', VList
               (if mode = ''dhcp''
                then (if length sightings \<ge> 1 then [VObject [(''code'', VStr ''network.rogue_dhcp_server'')]] else [])
                else (if length sightings \<ge> 2 then [VObject [(''code'', VStr ''network.multiple_dhcp_servers'')]] else [])))])))"

section \<open>Logs, boot media, providers, health\<close>

definition handleLogs :: "Ring option \<Rightarrow> request \<Rightarrow> outcome" where
  "handleLogs ring r =
     (case ring of
        None \<Rightarrow> writeError 503 ''logs.unavailable''
      | Some rg \<Rightarrow>
          (let v = rqQuery r ''limit''; (n, err) = Atoi v in
           if v \<noteq> '''' \<and> (err \<or> n < 1 \<or> n > 1000) then writeError 400 ''logs.invalid_limit''
           else writeJSON 200 (LogsBody (Entries rg (parseLevel (rqQuery r ''level'')) (if v = '''' then 200 else n)))))"

definition bootMediaFiles :: "string \<rightharpoonup> string" where
  "bootMediaFiles = [''iso'' \<mapsto> ''ipxe.iso'', ''img'' \<mapsto> ''ipxe.usb'']"

text \<open>\<open>read\<close> is the file system below the assets directory.\<close>

definition handleBootMedia :: "string \<Rightarrow> (string \<Rightarrow> string option) \<Rightarrow> string \<Rightarrow> outcome" where
  "handleBootMedia assetsDir read format =
     (case bootMediaFiles format of
        None \<Rightarrow> writeError 400 ''bootmedia.invalid_format''
      | Some file \<Rightarrow>
          if assetsDir = '''' then writeError 503 ''bootmedia.unavailable''
          else (case read (Join [assetsDir, ''tftp'', file]) of
                  None \<Rightarrow> writeError 404 ''bootmedia.missing''
                | Some content \<Rightarrow> writeJSON 200 (Bytes content)))"

definition handleListProviders :: "registry \<Rightarrow> outcome" where
  "handleListProviders reg = writeJSON 200 (ProvidersBody (All reg))"

definition handleGetProvider :: "registry \<Rightarrow> string \<Rightarrow> outcome" where
  "handleGetProvider reg name =
     (case Get reg name of
        None \<Rightarrow> writeError 404 ''provider.not_found''
      | Some m \<Rightarrow> writeJSON 200 (ProviderBody m))"

definition handleHealth :: "string \<Rightarrow> outcome" where
  "handleHealth version = writeJSON 200 (Object [(''status'', VStr ''ok''), (''version'', VStr version)])"

definition handleOpenAPI :: "string \<Rightarrow> outcome" where
  "handleOpenAPI spec = Reply 200 (Bytes spec) None"

definition handleSystemInfo :: "string \<Rightarrow> registry \<Rightarrow> db \<Rightarrow> outcome" where
  "handleSystemInfo version reg d =
     (case SetupCompleted d of
        Inl _ \<Rightarrow> internalError
      | Inr completed \<Rightarrow>
          writeJSON 200 (Object [(''version'', VStr version), (''setupCompleted'', VBool completed),
            (''networkMode'', VStr (getSetting d SettingNetworkMode)), (''providers'', VInt (int (length (All reg))))]))"

end
