(* ===== verification/Backup.thy ===== *)
theory Backup
  imports Auth
begin

text \<open>
  \<open>backend/internal/backup/backup.go\<close> and the two backup handlers of \<open>api/handlers_system.go\<close>:
  exporting a snapshot of the database, staging an uploaded one, and putting a staged one in place
  at the next start.  The data directory is a map from paths to contents.  The gzip and tar
  readers, the SQLite checks and the JSON of the archive's manifest are parameters; a failing
  disk is the subject of \<open>Disk_Faults\<close> and \<open>Export_Stream\<close>.
\<close>

type_synonym disk = "string \<rightharpoonup> string"

text \<open>
  An uploaded body: not gzip, or the entries the tar reader yields (the content is \<open>None\<close> when
  reading it fails) and whether the archive then ends or breaks off.
\<close>

datatype archive = NotGzip | Entries "(string \<times> string option) list" bool

record manifest =
  maApplication :: string
  maVersion :: string
  maCreatedAt :: instant

text \<open>
  \<open>bkEncode\<close> is \<open>json.MarshalIndent\<close>, which refuses a time after the year 9999, and \<open>bkDecode\<close> decodes the
  first JSON value of a text.  \<open>bkIntegrity\<close> is the answer of \<open>PRAGMA integrity_check\<close>, \<open>bkTables\<close> the number of tables named
  \<open>schema_migrations\<close>, \<open>None\<close> where the query fails; \<open>bkVacuum\<close> is the snapshot \<open>VACUUM INTO\<close> writes.
\<close>

record backup_env =
  bkDataDir :: string
  bkVersion :: string
  bkIntegrity :: "string \<rightharpoonup> string"
  bkTables :: "string \<rightharpoonup> int"
  bkDecode :: "string \<rightharpoonup> manifest"
  bkEncode :: "manifest \<rightharpoonup> string"
  bkVacuum :: "string \<rightharpoonup> string"
  bkStamp :: "instant \<Rightarrow> string"

datatype import_error =
  ErrNotGzip | ErrReadArchive | ErrInvalidManifest | ErrNotHelboot | ErrUnusable | ErrMissing

definition pendingPath :: "string \<Rightarrow> string" where
  "pendingPath dataDir = Join [dataDir, ''restore-pending.db'']"

section \<open>Export\<close>

text \<open>The archive of the database at \<open>dbPath\<close>; the snapshot file is removed again.\<close>

definition export_manifest :: "backup_env \<Rightarrow> instant \<Rightarrow> manifest" where
  "export_manifest env now = \<lparr>maApplication = ''helboot'', maVersion = bkVersion env, maCreatedAt = now\<rparr>"

definition Export :: "backup_env \<Rightarrow> instant \<Rightarrow> disk \<Rightarrow> string \<Rightarrow> archive option" where
  "Export env now files dbPath =
     (case Option.bind (files dbPath) (bkVacuum env) of
        None \<Rightarrow> None
      | Some snapshot \<Rightarrow>
          (case bkEncode env (export_manifest env now) of
             None \<Rightarrow> None
           | Some meta \<Rightarrow> Some (Entries [(''manifest.json'', Some meta), (''helboot.db'', Some snapshot)] True)))"

section \<open>Import\<close>

definition validateSQLite :: "backup_env \<Rightarrow> string \<Rightarrow> bool" where
  "validateSQLite env content \<longleftrightarrow> bkIntegrity env content = Some ''ok'' \<and> bkTables env content = Some 1"

definition stageDatabase :: "backup_env \<Rightarrow> disk \<Rightarrow> string option \<Rightarrow> import_error + disk" where
  "stageDatabase env files entry =
     (case entry of
        None \<Rightarrow> Inl ErrReadArchive
      | Some content \<Rightarrow>
          if validateSQLite env content then Inr (files(pendingPath (bkDataDir env) \<mapsto> content))
          else Inl ErrUnusable)"

text \<open>At most 1 MiB of the entry is decoded.\<close>

definition manifest_limit :: nat where
  "manifest_limit = 2 ^ 20"

definition decodeManifest :: "backup_env \<Rightarrow> string option \<Rightarrow> manifest option" where
  "decodeManifest env content = Option.bind content (\<lambda>c. bkDecode env (take manifest_limit c))"

fun import_entries ::
    "backup_env \<Rightarrow> disk \<Rightarrow> bool \<Rightarrow> bool \<Rightarrow> (string \<times> string option) list \<Rightarrow> bool
     \<Rightarrow> disk \<times> import_error option" where
  "import_entries env files sawManifest sawDB [] ended =
     (files, if \<not> ended then Some ErrReadArchive
             else if \<not> sawManifest \<or> \<not> sawDB then Some ErrMissing else None)"
| "import_entries env files sawManifest sawDB ((name, content) # es) ended =
     (if Clean name = ''manifest.json'' then
        (case decodeManifest env content of
           None \<Rightarrow> (files, Some ErrInvalidManifest)
         | Some meta \<Rightarrow> if maApplication meta \<noteq> ''helboot'' then (files, Some ErrNotHelboot)
                       else import_entries env files True sawDB es ended)
      else if Clean name = ''helboot.db'' then
        (case stageDatabase env files content of
           Inl e \<Rightarrow> (files, Some e)
         | Inr files' \<Rightarrow> import_entries env files' sawManifest True es ended)
      else import_entries env files sawManifest sawDB es ended)"

definition backup_Import :: "backup_env \<Rightarrow> disk \<Rightarrow> archive \<Rightarrow> disk \<times> import_error option" where
  "backup_Import env files a =
     (case a of
        NotGzip \<Rightarrow> (files, Some ErrNotGzip)
      | Entries es ended \<Rightarrow> import_entries env files False False es ended)"

section \<open>Restore at start-up\<close>

definition rename_file :: "disk \<Rightarrow> string \<Rightarrow> string \<Rightarrow> disk" where
  "rename_file files a b = (files(a := None))(b := files a)"

definition ApplyPendingRestore :: "backup_env \<Rightarrow> instant \<Rightarrow> disk \<Rightarrow> string \<Rightarrow> disk \<times> bool" where
  "ApplyPendingRestore env now files dbPath =
     (let pending = pendingPath (bkDataDir env) in
      if files pending = None then (files, False)
      else
        let files1 = (if files dbPath = None then files
                      else (rename_file files dbPath (dbPath @ ''.bak-'' @ bkStamp env now))
                             (dbPath @ ''-wal'' := None, dbPath @ ''-shm'' := None))
        in (rename_file files1 pending dbPath, True))"

section \<open>Handlers\<close>

definition handleBackupExport :: "backup_env option \<Rightarrow> instant \<Rightarrow> disk \<Rightarrow> string \<Rightarrow> archive option \<times> outcome" where
  "handleBackupExport env now files dbPath =
     (case env of
        None \<Rightarrow> (None, writeError 503 ''backup.unavailable'')
      | Some e \<Rightarrow> (Export e now files dbPath, writeJSON 200 NoBody))"

text \<open>\<open>unpack\<close> reads the gzip and tar layers of an upload.\<close>

definition handleBackupImport ::
    "backup_env option \<Rightarrow> (string option \<Rightarrow> archive) \<Rightarrow> instant \<Rightarrow> User \<Rightarrow> db \<times> disk \<Rightarrow> request
     \<Rightarrow> (db \<times> disk) \<times> outcome" where
  "handleBackupImport env unpack now caller s r =
     (case env of
        None \<Rightarrow> (s, writeError 503 ''backup.unavailable'')
      | Some e \<Rightarrow>
     (case rqUpload r of
        NotMultipart \<Rightarrow> (s, writeError 400 ''backup.invalid_upload'')
      | NoPart \<Rightarrow> (s, writeError 400 ''backup.invalid_upload'')
      | FirstPart form filename content \<Rightarrow>
          if form \<noteq> ''file'' then (s, writeError 400 ''backup.invalid_upload'')
          else (case backup_Import e (snd s) (unpack content) of
                  (files, Some _) \<Rightarrow> ((fst s, files), writeError 400 ''backup.invalid_archive'')
                | (files, None) \<Rightarrow>
                    ((audit_as now (fst s) caller ''backup.import'' ''backup'' 0, files),
                     writeJSON 200 (Object [(''staged'', VBool True), (''restartRequired'', VBool True)])))))"

section \<open>Properties\<close>

lemma clean_names: "Clean ''manifest.json'' = ''manifest.json''" "Clean ''helboot.db'' = ''helboot.db''"
  by code_simp+

lemma import_export:
  assumes m: "decodeManifest env (Some m) = Some meta" "maApplication meta = ''helboot''" and db: "validateSQLite env content"
  shows "backup_Import env files (Entries [(''manifest.json'', Some m), (''helboot.db'', Some content)] True) =
    (files(pendingPath (bkDataDir env) \<mapsto> content), None)"
  using assms by (simp add: backup_Import_def clean_names stageDatabase_def)

lemma restore_pending:
  assumes "files (pendingPath (bkDataDir env)) = Some content"
    and "pendingPath (bkDataDir env) \<noteq> dbPath" and "pendingPath (bkDataDir env) \<noteq> dbPath @ ''.bak-'' @ bkStamp env now"
    and "pendingPath (bkDataDir env) \<noteq> dbPath @ ''-wal''" and "pendingPath (bkDataDir env) \<noteq> dbPath @ ''-shm''"
    and "ApplyPendingRestore env now files dbPath = (files', applied)"
  shows "applied \<and> files' dbPath = Some content \<and> files' (pendingPath (bkDataDir env)) = None"
    and "files dbPath = Some old \<Longrightarrow> files' (dbPath @ ''.bak-'' @ bkStamp env now) = Some old \<and>
      files' (dbPath @ ''-wal'') = None \<and> files' (dbPath @ ''-shm'') = None"
  using assms by (auto simp: ApplyPendingRestore_def rename_file_def Let_def split: if_splits)

text \<open>C32: Backup round trip.  The archive an instance exports is accepted by any other one, of whatever
  version and data directory, whose SQLite accepts the snapshot; after the next start the database
  there is the exported snapshot, the one that was there is kept under the backup name with its
  journal gone, and nothing stays staged.  Of JSON it is used that a text decodes to a manifest of
  the application it was encoded with, and that the manifest is no longer than 1 MiB.\<close>

theorem backup_round_trip:
  assumes exp: "Export src now files dbPath = Some a"
    and json: "\<And>m t. bkEncode src m = Some t \<Longrightarrow> map_option maApplication (bkDecode dst t) = Some (maApplication m)"
    and small: "\<And>t. bkEncode src (export_manifest src now) = Some t \<Longrightarrow> length t \<le> manifest_limit"
    and ok: "\<And>s. Option.bind (files dbPath) (bkVacuum src) = Some s \<Longrightarrow> validateSQLite dst s"
    and imp: "backup_Import dst files2 a = (files3, err)"
    and start: "ApplyPendingRestore dst later files3 path2 = (files4, applied)"
    and paths: "pendingPath (bkDataDir dst) \<notin>
      {path2, path2 @ ''.bak-'' @ bkStamp dst later, path2 @ ''-wal'', path2 @ ''-shm''}"
  shows "err = None \<and> applied \<and> files4 path2 = Option.bind (files dbPath) (bkVacuum src) \<and>
    files4 (pendingPath (bkDataDir dst)) = None \<and>
    (files2 path2 \<noteq> None \<longrightarrow> files4 (path2 @ ''.bak-'' @ bkStamp dst later) = files2 path2 \<and>
      files4 (path2 @ ''-wal'') = None \<and> files4 (path2 @ ''-shm'') = None)"
proof -
  obtain s t where s: "Option.bind (files dbPath) (bkVacuum src) = Some s" "bkEncode src (export_manifest src now) = Some t"
    "a = Entries [(''manifest.json'', Some t), (''helboot.db'', Some s)] True"
    using exp by (auto simp: Export_def split: option.splits)
  obtain meta where "bkDecode dst t = Some meta" "maApplication meta = ''helboot''"
    using json [OF s(2)] by (auto simp: export_manifest_def)
  then have "decodeManifest dst (Some t) = Some meta" "maApplication meta = ''helboot''"
    using small [OF s(2)] by (simp_all add: decodeManifest_def)
  from import_export [OF this ok [OF s(1)]] have "files3 = files2(pendingPath (bkDataDir dst) \<mapsto> s)" "err = None"
    using imp by (simp_all add: s(3))
  then show ?thesis
    using restore_pending [of files3 dst s path2 later files4 applied] start paths
    by (cases "files2 path2") (auto simp: s(1))
qed

text \<open>A rejected archive can still be staged: when the database comes before the manifest, it is in
  place before the manifest is looked at, and the next start activates it although the upload
  was answered with an error.\<close>

theorem rejected_import_is_activated:
  assumes "decodeManifest env (Some m) = Some meta" and "maApplication meta \<noteq> ''helboot''" and "validateSQLite env content"
    and "backup_Import env files (Entries [(''helboot.db'', Some content), (''manifest.json'', Some m)] True) = (files', err)"
    and "pendingPath (bkDataDir env) \<notin>
      {dbPath, dbPath @ ''.bak-'' @ bkStamp env later, dbPath @ ''-wal'', dbPath @ ''-shm''}"
  shows "err = Some ErrNotHelboot \<and> fst (ApplyPendingRestore env later files' dbPath) dbPath = Some content"
proof -
  have f: "files' = files(pendingPath (bkDataDir env) \<mapsto> content)" "err = Some ErrNotHelboot"
    using assms(1-4) by (auto simp: backup_Import_def clean_names stageDatabase_def)
  obtain files'' applied where "ApplyPendingRestore env later files' dbPath = (files'', applied)"
    by (cases "ApplyPendingRestore env later files' dbPath")
  then show ?thesis
    using restore_pending(1) [of files' env content dbPath later files'' applied] assms(5) f by auto
qed

text \<open>Manifests as the text of their application.\<close>

definition sample_backup_env :: backup_env where
  "sample_backup_env = \<lparr>bkDataDir = ''/data'', bkVersion = ''1'', bkIntegrity = (\<lambda>c. Some ''ok''), bkTables = (\<lambda>c. Some 1),
     bkDecode = (\<lambda>t. Some \<lparr>maApplication = t, maVersion = [], maCreatedAt = 0\<rparr>), bkEncode = (\<lambda>m. Some (maApplication m)),
     bkVacuum = Some, bkStamp = (\<lambda>t. ''20260101'')\<rparr>"

lemma sample_manifest_decodes:
  "decodeManifest sample_backup_env (Some ''helboot'') = Some \<lparr>maApplication = ''helboot'', maVersion = [], maCreatedAt = 0\<rparr>"
  by (simp add: decodeManifest_def sample_backup_env_def manifest_limit_def)

lemma sample_paths: "pendingPath (bkDataDir sample_backup_env) = ''/data/restore-pending.db''"
  by code_simp

theorem backup_round_trip_witness:
  "\<exists>a files3 files4. Export sample_backup_env 0 [''/data/helboot.db'' \<mapsto> ''A''] ''/data/helboot.db'' = Some a \<and>
     backup_Import (sample_backup_env\<lparr>bkVersion := ''2'', bkDataDir := ''/srv''\<rparr>) [''/srv/helboot.db'' \<mapsto> ''B''] a = (files3, None) \<and>
     ApplyPendingRestore (sample_backup_env\<lparr>bkVersion := ''2'', bkDataDir := ''/srv''\<rparr>) 9 files3 ''/srv/helboot.db'' = (files4, True) \<and>
     files4 ''/srv/helboot.db'' = Some ''A'' \<and> files4 ''/srv/helboot.db.bak-20260101'' = Some ''B''"
proof -
  let ?dst = "sample_backup_env\<lparr>bkVersion := ''2'', bkDataDir := ''/srv''\<rparr>"
  obtain a where a: "Export sample_backup_env 0 [''/data/helboot.db'' \<mapsto> ''A''] ''/data/helboot.db'' = Some a"
    by (simp add: Export_def sample_backup_env_def)
  obtain files3 err where i: "backup_Import ?dst [''/srv/helboot.db'' \<mapsto> ''B''] a = (files3, err)"
    by (cases "backup_Import ?dst [''/srv/helboot.db'' \<mapsto> ''B''] a")
  obtain files4 ap where s: "ApplyPendingRestore ?dst 9 files3 ''/srv/helboot.db'' = (files4, ap)"
    by (cases "ApplyPendingRestore ?dst 9 files3 ''/srv/helboot.db''")
  have stamp: "bkDataDir ?dst = ''/srv''" "bkStamp sample_backup_env 9 = ''20260101''" "bkVacuum sample_backup_env ''A'' = Some ''A''"
    by (simp_all add: sample_backup_env_def)
  have srv: "pendingPath ''/srv'' = ''/srv/restore-pending.db''" by code_simp
  have "err = None \<and> ap \<and> files4 ''/srv/helboot.db'' = Option.bind (Some ''A'') (bkVacuum sample_backup_env) \<and>
      files4 (''/srv/helboot.db'' @ ''.bak-'' @ bkStamp ?dst 9) = Some ''B''"
    using backup_round_trip [OF a _ _ _ i s] unfolding stamp srv
    by (simp add: stamp) (simp add: sample_backup_env_def validateSQLite_def export_manifest_def manifest_limit_def)
  with a i s show ?thesis by (simp add: stamp)
qed

end
