(* ===== verification/Web.thy ===== *)
theory Web
  imports Http Go_Path
begin

text \<open>
  \<open>backend/internal/web/web.go\<close>: the embedded frontend.  The embedded files and \<open>net/http\<close>'s file
  server are parameters.
\<close>

datatype stat_result = StatFound | StatNotExist | StatFailed

record web_env =
  weStat :: "string \<Rightarrow> stat_result"
  weFileServer :: "string \<Rightarrow> outcome"

definition trim_prefix :: "string \<Rightarrow> string \<Rightarrow> string" where
  "trim_prefix s p = (if has_prefix s p then drop (length p) s else s)"

definition web_path :: "string \<Rightarrow> string" where
  "web_path urlPath = (let p = trim_prefix (Clean urlPath) ''/'' in if p = '''' then ''index.html'' else p)"

definition web_Handler :: "web_env \<Rightarrow> string \<Rightarrow> outcome" where
  "web_Handler env urlPath =
     (case weStat env (web_path urlPath) of
        StatFound \<Rightarrow> weFileServer env urlPath
      | StatNotExist \<Rightarrow> weFileServer env ''/''
      | StatFailed \<Rightarrow> http_Error ''internal server error'' 500)"

end
