(* ===== verification/Server.thy ===== *)
theory Server
  imports Accounts Machines Profile_API System_API Backup Web Boot_Facts
begin

text \<open>
  \<open>backend/internal/api/server.go\<close> and \<open>Register\<close> of \<open>boot/boot.go\<close>: the table of routes, the
  guard in front of each, and the server as a machine that answers one request after the other.
  \<open>http.ServeMux\<close> is modelled as Go documents it; its redirects of unclean paths come before.
\<close>

section \<open>Patterns\<close>

datatype segment = Lit string | Wild | Rest

definition segment_of :: "string \<Rightarrow> segment" where
  "segment_of s =
     (if s = '''' \<or> (has_prefix s ''{'' \<and> has_suffix s ''...}'') then Rest
      else if has_prefix s ''{'' then Wild else Lit s)"

definition pattern_of :: "string \<Rightarrow> segment list" where
  "pattern_of s = map segment_of (tl (split_on (CHR ''/'') s))"

text \<open>
  The values of the wildcards; the path is given by its segments, after a trailing slash an empty
  one.  A wildcard takes one segment that is not empty, the last one of a pattern may take the rest.
\<close>

fun match_path :: "segment list \<Rightarrow> string list \<Rightarrow> string list option" where
  "match_path [] [] = Some []"
| "match_path (Lit s # ps) (x # xs) = (if s = x then match_path ps xs else None)"
| "match_path (Wild # ps) (x # xs) = (if x = '''' then None else map_option ((#) x) (match_path ps xs))"
| "match_path (Rest # ps) (x # xs) = Some [join_with ''/'' (x # xs)]"
| "match_path _ _ = None"

text \<open>A pattern without a method takes every one, and \<open>GET\<close> takes \<open>HEAD\<close> as well.\<close>

definition match_method :: "string \<Rightarrow> string \<Rightarrow> bool" where
  "match_method m meth \<longleftrightarrow> m = '''' \<or> m = meth \<or> (m = ''GET'' \<and> meth = ''HEAD'')"

section \<open>Endpoints\<close>

datatype open_endpoint =
  OnHealth | OnOpenAPI | OnSetupStatus | OnSetupComplete | OnLogin
| OnScript | OnAssets | OnISOFile | OnISOContent | OnAnswerFile | OnCloudInit | OnReport
| OnUnknownAPI | OnStatic

datatype guarded_endpoint =
  OnLogout | OnMe | OnChangeOwnPassword
| OnListUsers | OnCreateUser | OnUpdateUser | OnSetUserPassword | OnDeleteUser
| OnSystemInfo | OnLogs | OnBootMedia | OnBackupExport | OnBackupImport
| OnListProviders | OnGetProvider
| OnListHosts | OnCreateHost | OnGetHost | OnUpdateHost | OnDeleteHost
| OnListInstallations | OnCreateInstallation | OnGetInstallation | OnDeleteInstallation
| OnListISOs | OnGetISO | OnUploadISO | OnScanISOs | OnDeleteISO
| OnGetNetworkConfig | OnPutNetworkConfig | OnNetworkStatus
| OnListProfiles | OnCreateProfile | OnGetProfile | OnProfileVersions | OnAnswerPreview
| OnSetAnswerOverride | OnCloneProfile | OnExportProfile | OnImportProfile | OnUpdateProfile | OnDeleteProfile

datatype target = Open open_endpoint | Guarded Role guarded_endpoint

type_synonym route_entry = "string \<times> string \<times> target"

text \<open>\<open>Handler.Register\<close>.\<close>

definition boot_routes :: "route_entry list" where
  "boot_routes =
     [(''GET'', ''/boot/ipxe'', Open OnScript),
      (''GET'', ''/boot/assets/'', Open OnAssets),
      (''GET'', ''/boot/isofile/{id}'', Open OnISOFile),
      (''GET'', ''/boot/iso/{id}/{path...}'', Open OnISOContent),
      (''GET'', ''/boot/answer/{token}'', Open OnAnswerFile),
      (''GET'', ''/boot/cloudinit/{token}/{file}'', Open OnCloudInit),
      (''POST'', ''/boot/report/{token}'', Open OnReport)]"

definition api_routes :: "route_entry list" where
  "api_routes =
     [(''GET'', ''/api/v1/health'', Open OnHealth),
      (''GET'', ''/api/v1/openapi.yaml'', Open OnOpenAPI),
      (''GET'', ''/api/v1/setup/status'', Open OnSetupStatus),
      (''POST'', ''/api/v1/setup'', Open OnSetupComplete),
      (''POST'', ''/api/v1/auth/login'', Open OnLogin),
      (''POST'', ''/api/v1/auth/logout'', Guarded RoleViewer OnLogout),
      (''GET'', ''/api/v1/auth/me'', Guarded RoleViewer OnMe),
      (''POST'', ''/api/v1/auth/password'', Guarded RoleViewer OnChangeOwnPassword),
      (''GET'', ''/api/v1/users'', Guarded RoleAdmin OnListUsers),
      (''POST'', ''/api/v1/users'', Guarded RoleAdmin OnCreateUser),
      (''PUT'', ''/api/v1/users/{id}'', Guarded RoleAdmin OnUpdateUser),
      (''PUT'', ''/api/v1/users/{id}/password'', Guarded RoleAdmin OnSetUserPassword),
      (''DELETE'', ''/api/v1/users/{id}'', Guarded RoleAdmin OnDeleteUser),
      (''GET'', ''/api/v1/system/info'', Guarded RoleViewer OnSystemInfo),
      (''GET'', ''/api/v1/logs'', Guarded RoleViewer OnLogs),
      (''GET'', ''/api/v1/bootmedia/{format}'', Guarded RoleViewer OnBootMedia),
      (''GET'', ''/api/v1/backup/export'', Guarded RoleAdmin OnBackupExport),
      (''POST'', ''/api/v1/backup/import'', Guarded RoleAdmin OnBackupImport),
      (''GET'', ''/api/v1/providers'', Guarded RoleViewer OnListProviders),
      (''GET'', ''/api/v1/providers/{name}'', Guarded RoleViewer OnGetProvider),
      (''GET'', ''/api/v1/hosts'', Guarded RoleViewer OnListHosts),
      (''POST'', ''/api/v1/hosts'', Guarded RoleOperator OnCreateHost),
      (''GET'', ''/api/v1/hosts/{id}'', Guarded RoleViewer OnGetHost),
      (''PUT'', ''/api/v1/hosts/{id}'', Guarded RoleOperator OnUpdateHost),
      (''DELETE'', ''/api/v1/hosts/{id}'', Guarded RoleOperator OnDeleteHost),
      (''GET'', ''/api/v1/installations'', Guarded RoleViewer OnListInstallations),
      (''POST'', ''/api/v1/installations'', Guarded RoleOperator OnCreateInstallation),
      (''GET'', ''/api/v1/installations/{id}'', Guarded RoleViewer OnGetInstallation),
      (''DELETE'', ''/api/v1/installations/{id}'', Guarded RoleOperator OnDeleteInstallation),
      (''GET'', ''/api/v1/isos'', Guarded RoleViewer OnListISOs),
      (''GET'', ''/api/v1/isos/{id}'', Guarded RoleViewer OnGetISO),
      (''POST'', ''/api/v1/isos/upload'', Guarded RoleOperator OnUploadISO),
      (''POST'', ''/api/v1/isos/scan'', Guarded RoleOperator OnScanISOs),
      (''DELETE'', ''/api/v1/isos/{id}'', Guarded RoleOperator OnDeleteISO),
      (''GET'', ''/api/v1/network/config'', Guarded RoleViewer OnGetNetworkConfig),
      (''PUT'', ''/api/v1/network/config'', Guarded RoleAdmin OnPutNetworkConfig),
      (''GET'', ''/api/v1/network/status'', Guarded RoleViewer OnNetworkStatus),
      (''GET'', ''/api/v1/profiles'', Guarded RoleViewer OnListProfiles),
      (''POST'', ''/api/v1/profiles'', Guarded RoleOperator OnCreateProfile),
      (''GET'', ''/api/v1/profiles/{id}'', Guarded RoleViewer OnGetProfile),
      (''GET'', ''/api/v1/profiles/{id}/versions'', Guarded RoleViewer OnProfileVersions),
      (''GET'', ''/api/v1/profiles/{id}/versions/{version}/answer'', Guarded RoleViewer OnAnswerPreview),
      (''PUT'', ''/api/v1/profiles/{id}/versions/{version}/answer-override'', Guarded RoleOperator OnSetAnswerOverride),
      (''POST'', ''/api/v1/profiles/{id}/clone'', Guarded RoleOperator OnCloneProfile),
      (''GET'', ''/api/v1/profiles/{id}/export'', Guarded RoleViewer OnExportProfile),
      (''POST'', ''/api/v1/profiles/import'', Guarded RoleOperator OnImportProfile),
      (''PUT'', ''/api/v1/profiles/{id}'', Guarded RoleOperator OnUpdateProfile),
      (''DELETE'', ''/api/v1/profiles/{id}'', Guarded RoleOperator OnDeleteProfile)]"

section \<open>The server\<close>

text \<open>The state a request can change: the database, the image directory, the data directory, the login
  limiter and the sightings of DHCP servers.\<close>

record server =
  svDB :: db
  svLibrary :: library
  svDisk :: disk
  svLimiter :: rateLimiter
  svObserver :: "DHCPObserver option"

text \<open>The collaborators \<open>Deps\<close> and what stands for code outside.\<close>

record server_env =
  seVersion :: string
  seOpenAPISpec :: string
  seStaticFiles :: "web_env option"
  seBoot :: "boot_env option"
  seISOs :: "iso_env option"
  seBackup :: "backup_env option"
  seUnpack :: "string option \<Rightarrow> archive"
  seDatabasePath :: string
  seAuth :: auth_env
  seProfiles :: profile_env
  seAssetsDir :: string
  seAssets :: "string \<Rightarrow> outcome"

text \<open>What the handler of one request reads from outside: the clock, random bytes, the log ring, the
  entries of the image directory and the files below the assets directory.\<close>

record moment =
  moNow :: instant
  moRandom :: "nat \<Rightarrow> string option"
  moRing :: "Ring option"
  moEntries :: "(string \<times> bool) list"
  moFiles :: "string \<Rightarrow> string option"

abbreviation seRegistry :: "server_env \<Rightarrow> registry" where "seRegistry env \<equiv> peRegistry (seProfiles env)"

definition NewServer :: "db \<Rightarrow> library \<Rightarrow> disk \<Rightarrow> DHCPObserver option \<Rightarrow> server" where
  "NewServer d lib files observer = \<lparr>svDB = d, svLibrary = lib, svDisk = files,
     svLimiter = newRateLimiter 5 (2 * second), svObserver = observer\<rparr>"

definition routes :: "server_env \<Rightarrow> (string \<times> segment list \<times> target) list" where
  "routes env = map (\<lambda>(m, p, t). (m, pattern_of p, t))
     (api_routes @ (case seBoot env of None \<Rightarrow> [] | Some _ \<Rightarrow> boot_routes) @
      [('''', ''/api/'', Open OnUnknownAPI)] @
      (case seStaticFiles env of None \<Rightarrow> [] | Some _ \<Rightarrow> [('''', ''/'', Open OnStatic)]))"

text \<open>The most specific matching pattern is the first one: the patterns of the table do not overlap,
  except for the last two.\<close>

fun find_route :: "(string \<times> segment list \<times> target) list \<Rightarrow> request \<Rightarrow> (target \<times> string list) option" where
  "find_route [] r = None"
| "find_route ((m, p, t) # rs) r =
     (case (if match_method m (rqMethod r) then match_path p (rqPath r) else None) of
        Some vars \<Rightarrow> Some (t, vars)
      | None \<Rightarrow> find_route rs r)"

text \<open>\<open>PathValue\<close> of the \<open>n\<close>-th wildcard.\<close>

definition path_value :: "string list \<Rightarrow> nat \<Rightarrow> string" where
  "path_value vars n = (if n < length vars then vars ! n else '''')"

definition on_db :: "server \<Rightarrow> db \<times> outcome \<Rightarrow> server \<times> outcome" where
  "on_db s x = (s\<lparr>svDB := fst x\<rparr>, snd x)"

definition on_library :: "server \<Rightarrow> (db \<times> library) \<times> outcome \<Rightarrow> server \<times> outcome" where
  "on_library s x = (s\<lparr>svDB := fst (fst x), svLibrary := snd (fst x)\<rparr>, snd x)"

text \<open>The boot surface is only mounted with a boot handler.\<close>

definition on_boot :: "server_env \<Rightarrow> server \<Rightarrow> (boot_env \<Rightarrow> server \<times> outcome) \<Rightarrow> server \<times> outcome" where
  "on_boot env s f = (case seBoot env of None \<Rightarrow> (s, http_NotFound) | Some b \<Rightarrow> f b)"

fun serve_open ::
    "server_env \<Rightarrow> moment \<Rightarrow> open_endpoint \<Rightarrow> string list \<Rightarrow> server \<Rightarrow> request \<Rightarrow> server \<times> outcome" where
  "serve_open env mo OnHealth vars s r = (s, handleHealth (seVersion env))"
| "serve_open env mo OnOpenAPI vars s r = (s, handleOpenAPI (seOpenAPISpec env))"
| "serve_open env mo OnSetupStatus vars s r = (s, handleSetupStatus (svDB s))"
| "serve_open env mo OnSetupComplete vars s r =
     on_db s (handleSetupComplete (seAuth env) (moNow mo) (moRandom mo) (svDB s) r)"
| "serve_open env mo OnLogin vars s r =
     (case handleLogin (seAuth env) (moNow mo) (moRandom mo) (svLimiter s, svDB s) r of
        ((l, d), out) \<Rightarrow> (s\<lparr>svLimiter := l, svDB := d\<rparr>, out))"
| "serve_open env mo OnScript vars s r = on_boot env s (\<lambda>b. on_db s (handleScript b (moNow mo) (svDB s) r))"
| "serve_open env mo OnAssets vars s r = on_boot env s (\<lambda>b. (s, seAssets env (path_value vars 0)))"
| "serve_open env mo OnISOFile vars s r =
     on_boot env s (\<lambda>b. (s, handleISOFile (svDB s) (svLibrary s) (path_value vars 0)))"
| "serve_open env mo OnISOContent vars s r =
     on_boot env s (\<lambda>b. (s, handleISOContent b (svDB s) (svLibrary s) (path_value vars 0) (path_value vars 1)))"
| "serve_open env mo OnAnswerFile vars s r =
     on_boot env s (\<lambda>b. (s, handleAnswerFile b (svDB s) (path_value vars 0) r))"
| "serve_open env mo OnCloudInit vars s r =
     on_boot env s (\<lambda>b. (s, handleCloudInit b (svDB s) (path_value vars 0) (path_value vars 1) r))"
| "serve_open env mo OnReport vars s r =
     on_boot env s (\<lambda>b. on_db s (handleReport b (moNow mo) (svDB s) (path_value vars 0) r))"
| "serve_open env mo OnUnknownAPI vars s r = (s, writeError 404 ''api.not_found'')"
| "serve_open env mo OnStatic vars s r =
     (s, case seStaticFiles env of
           None \<Rightarrow> http_NotFound | Some w \<Rightarrow> web_Handler w (''/'' @ join_with ''/'' (rqPath r)))"

fun serve_guarded ::
    "server_env \<Rightarrow> moment \<Rightarrow> guarded_endpoint \<Rightarrow> string list \<Rightarrow> User \<Rightarrow> Session \<Rightarrow> server \<Rightarrow> request
     \<Rightarrow> server \<times> outcome" where
  "serve_guarded env mo OnLogout vars u sess s r = on_db s (handleLogout (svDB s) sess)"
| "serve_guarded env mo OnMe vars u sess s r = (s, handleMe u sess)"
| "serve_guarded env mo OnChangeOwnPassword vars u sess s r =
     on_db s (handleChangeOwnPassword (seAuth env) (moNow mo) (moRandom mo) u (svDB s) r)"
| "serve_guarded env mo OnListUsers vars u sess s r = (s, handleListUsers (svDB s))"
| "serve_guarded env mo OnCreateUser vars u sess s r =
     on_db s (handleCreateUser (seAuth env) (moNow mo) (moRandom mo) u (svDB s) r)"
| "serve_guarded env mo OnUpdateUser vars u sess s r =
     on_db s (handleUpdateUser (moNow mo) u (svDB s) (path_value vars 0) r)"
| "serve_guarded env mo OnSetUserPassword vars u sess s r =
     on_db s (handleSetUserPassword (seAuth env) (moNow mo) (moRandom mo) u (svDB s) (path_value vars 0) r)"
| "serve_guarded env mo OnDeleteUser vars u sess s r =
     on_db s (handleDeleteUser (moNow mo) u (svDB s) (path_value vars 0))"
| "serve_guarded env mo OnSystemInfo vars u sess s r =
     (s, handleSystemInfo (seVersion env) (seRegistry env) (svDB s))"
| "serve_guarded env mo OnLogs vars u sess s r = (s, handleLogs (moRing mo) r)"
| "serve_guarded env mo OnBootMedia vars u sess s r =
     (s, handleBootMedia (seAssetsDir env) (moFiles mo) (path_value vars 0))"
| "serve_guarded env mo OnBackupExport vars u sess s r =
     (s, snd (handleBackupExport (seBackup env) (moNow mo) (svDisk s) (seDatabasePath env)))"
| "serve_guarded env mo OnBackupImport vars u sess s r =
     (case handleBackupImport (seBackup env) (seUnpack env) (moNow mo) u (svDB s, svDisk s) r of
        ((d, files), out) \<Rightarrow> (s\<lparr>svDB := d, svDisk := files\<rparr>, out))"
| "serve_guarded env mo OnListProviders vars u sess s r = (s, handleListProviders (seRegistry env))"
| "serve_guarded env mo OnGetProvider vars u sess s r = (s, handleGetProvider (seRegistry env) (path_value vars 0))"
| "serve_guarded env mo OnListHosts vars u sess s r = (s, handleListHosts (svDB s))"
| "serve_guarded env mo OnCreateHost vars u sess s r = on_db s (handleCreateHost (moNow mo) u (svDB s) r)"
| "serve_guarded env mo OnGetHost vars u sess s r = (s, handleGetHost (svDB s) (path_value vars 0))"
| "serve_guarded env mo OnUpdateHost vars u sess s r =
     on_db s (handleUpdateHost (moNow mo) (svDB s) (path_value vars 0) r)"
| "serve_guarded env mo OnDeleteHost vars u sess s r =
     on_db s (handleDeleteHost (moNow mo) u (svDB s) (path_value vars 0))"
| "serve_guarded env mo OnListInstallations vars u sess s r = (s, handleListInstallations (svDB s))"
| "serve_guarded env mo OnCreateInstallation vars u sess s r =
     on_db s (handleCreateInstallation (moNow mo) (moRandom mo) u (svDB s) r)"
| "serve_guarded env mo OnGetInstallation vars u sess s r =
     (s, handleGetInstallation (svDB s) (path_value vars 0))"
| "serve_guarded env mo OnDeleteInstallation vars u sess s r =
     on_db s (handleDeleteInstallation (moNow mo) u (svDB s) (path_value vars 0))"
| "serve_guarded env mo OnListISOs vars u sess s r = (s, handleListISOs (svDB s))"
| "serve_guarded env mo OnGetISO vars u sess s r = (s, handleGetISO (svDB s) (path_value vars 0))"
| "serve_guarded env mo OnUploadISO vars u sess s r =
     on_library s (handleUploadISO (seISOs env) (moNow mo) u (svDB s, svLibrary s) r)"
| "serve_guarded env mo OnScanISOs vars u sess s r =
     on_library s (handleScanISOs (seISOs env) (moNow mo) (moEntries mo) (svDB s, svLibrary s))"
| "serve_guarded env mo OnDeleteISO vars u sess s r =
     on_library s (handleDeleteISO (seISOs env) (moNow mo) u (svDB s, svLibrary s) (path_value vars 0))"
| "serve_guarded env mo OnGetNetworkConfig vars u sess s r = (s, handleGetNetworkConfig (svDB s))"
| "serve_guarded env mo OnPutNetworkConfig vars u sess s r =
     on_db s (handlePutNetworkConfig (moNow mo) u (svDB s) r)"
| "serve_guarded env mo OnNetworkStatus vars u sess s r =
     (case handleNetworkStatus (moNow mo) (svObserver s) (svDB s) of (o', out) \<Rightarrow> (s\<lparr>svObserver := o'\<rparr>, out))"
| "serve_guarded env mo OnListProfiles vars u sess s r = (s, handleListProfiles (svDB s))"
| "serve_guarded env mo OnCreateProfile vars u sess s r =
     on_db s (handleCreateProfile (seProfiles env) (moNow mo) u (svDB s) r)"
| "serve_guarded env mo OnGetProfile vars u sess s r = (s, handleGetProfile (svDB s) (path_value vars 0))"
| "serve_guarded env mo OnProfileVersions vars u sess s r =
     (s, handleProfileVersions (svDB s) (path_value vars 0))"
| "serve_guarded env mo OnAnswerPreview vars u sess s r =
     (s, handleAnswerPreview (seProfiles env) (svDB s) (path_value vars 0) (path_value vars 1))"
| "serve_guarded env mo OnSetAnswerOverride vars u sess s r =
     on_db s (handleSetAnswerOverride (seProfiles env) (moNow mo) u (svDB s) (path_value vars 0) (path_value vars 1) r)"
| "serve_guarded env mo OnCloneProfile vars u sess s r =
     on_db s (handleCloneProfile (moNow mo) u (svDB s) (path_value vars 0) r)"
| "serve_guarded env mo OnExportProfile vars u sess s r =
     (s, handleExportProfile (seProfiles env) (svDB s) (path_value vars 0))"
| "serve_guarded env mo OnImportProfile vars u sess s r =
     on_db s (handleImportProfile (seProfiles env) (moNow mo) u (svDB s) r)"
| "serve_guarded env mo OnUpdateProfile vars u sess s r =
     on_db s (handleUpdateProfile (seProfiles env) (moNow mo) u (svDB s) (path_value vars 0) r)"
| "serve_guarded env mo OnDeleteProfile vars u sess s r =
     on_db s (handleDeleteProfile (moNow mo) u (svDB s) (path_value vars 0))"

definition dispatch :: "server_env \<Rightarrow> moment \<Rightarrow> server \<Rightarrow> request \<Rightarrow> server \<times> outcome" where
  "dispatch env mo s r =
     (case find_route (routes env) r of
        Some (Open ep, vars) \<Rightarrow> serve_open env mo ep vars s r
      | Some (Guarded least ep, vars) \<Rightarrow>
          (case require (moNow mo) (svDB s) least r of
             Inl out \<Rightarrow> (s, out)
           | Inr (u, sess) \<Rightarrow> serve_guarded env mo ep vars u sess s r)
      | None \<Rightarrow>
          (s, if list_ex (\<lambda>(m, p, t). match_path p (rqPath r) \<noteq> None) (routes env)
              then http_Error ''Method Not Allowed'' 405 else http_NotFound))"

text \<open>The fully wrapped handler.\<close>

definition serve :: "server_env \<Rightarrow> moment \<Rightarrow> server \<Rightarrow> request \<Rightarrow> server \<times> outcome" where
  "serve env mo s r = recoverPanics (dispatch env mo s r)"

text \<open>What happens to the server: a request, the hourly clean-up of \<open>main.go\<close>, and the writes of the DHCP
  service through its lease adapter.\<close>

datatype server_event =
  Request moment request
| Housekeeping instant
| LeaseStored string string string instant
| LeaseDropped string

fun server_step :: "server_env \<Rightarrow> server \<Rightarrow> server_event \<Rightarrow> server" where
  "server_step env s (Request mo r) = fst (serve env mo s r)"
| "server_step env s (Housekeeping now) = s\<lparr>svDB := db_after (svDB s) (DeleteExpiredSessions (svDB s) now)\<rparr>"
| "server_step env s (LeaseStored mac ip hostname t) =
     s\<lparr>svDB := fst (UpsertLease leaseAdapter mac ip hostname t (svDB s))\<rparr>"
| "server_step env s (LeaseDropped mac) = s\<lparr>svDB := fst (DeleteLease leaseAdapter mac (svDB s))\<rparr>"

definition server_run :: "server_env \<Rightarrow> server \<Rightarrow> server_event list \<Rightarrow> server" where
  "server_run env = foldl (server_step env)"

end
