(* ===== verification/Server_Facts.thy ===== *)
theory Server_Facts
  imports Server
begin

text \<open>
  What a request does to the database, handler by handler: every write is a sequence of store
  operations, and only a few handlers touch accounts, settings or installations.
\<close>

section \<open>Writes that leave accounts, settings and installations alone\<close>

inductive side_step :: "db \<Rightarrow> db \<Rightarrow> bool" where
  side_AddAudit: "AddAudit now d au a e i = Inr (d', x) \<Longrightarrow> side_step d d'"
| side_CreateSession: "CreateSession d s = Inr (d', x) \<Longrightarrow> side_step d d'"
| side_DeleteSession: "DeleteSession d t = Inr (d', x) \<Longrightarrow> side_step d d'"
| side_DeleteExpiredSessions: "DeleteExpiredSessions d now = Inr (d', x) \<Longrightarrow> side_step d d'"
| side_CreateISO: "CreateISO now d img = Inr (d', r') \<Longrightarrow> side_step d d'"
| side_DeleteISO: "DeleteISO d i = Inr (d', x) \<Longrightarrow> side_step d d'"
| side_CreateProfile: "CreateProfile now d n p isoID c = Inr (d', pr) \<Longrightarrow> side_step d d'"
| side_UpdateProfile: "UpdateProfile now d i n isoID c nv = Inr (d', pr) \<Longrightarrow> side_step d d'"
| side_DeleteProfile: "DeleteProfile d i = Inr (d', x) \<Longrightarrow> side_step d d'"
| side_SetAnswerOverride: "SetAnswerOverride d i ver c = Inr (d', x) \<Longrightarrow> side_step d d'"
| side_CreateHost: "CreateHost now d h = Inr (d', hr) \<Longrightarrow> side_step d d'"
| side_UpdateHost: "UpdateHost now d h = Inr (d', hr) \<Longrightarrow> side_step d d'"
| side_UpsertLease: "store_UpsertLease d le = Inr (d', x) \<Longrightarrow> side_step d d'"
| side_DeleteLease: "store_DeleteLease d m = Inr (d', x) \<Longrightarrow> side_step d d'"

lemmas side_steps = side_AddAudit side_CreateSession side_DeleteSession side_DeleteExpiredSessions side_CreateISO
  side_DeleteISO side_CreateProfile side_UpdateProfile side_DeleteProfile side_SetAnswerOverride side_CreateHost
  side_UpdateHost side_UpsertLease side_DeleteLease

lemma side_step_db_step: "side_step d d' \<Longrightarrow> db_step d d'"
  by (induction rule: side_step.induct) (rule db_step.intros, assumption)+

definition same_core :: "db \<Rightarrow> db \<Rightarrow> bool" where
  "same_core d d' \<longleftrightarrow> users d' = users d \<and> settings d' = settings d \<and> installs d' = installs d"

lemma same_core_refl [simp]: "same_core d d"
  by (simp add: same_core_def)

lemma UpdateProfile_core:
  assumes "UpdateProfile now d i n isoID c nv = Inr (d', pr)"
  shows "same_core d d'"
proof -
  have "same_core d e" if "appendProfileVersion now d p j = Inr (e, v)" for d e p j v
    using that by (auto simp: appendProfileVersion_def Let_def same_core_def simp del: has_key_iff split: if_splits)
  moreover have "same_core d e" if "editHeadVersion d p j = Inr (e, v)" for d e p j v
    using that by (auto simp: editHeadVersion_def same_core_def split: option.splits if_splits)
  ultimately show ?thesis
    using assms
    by (auto simp: UpdateProfile_def Let_def simp del: has_key_iff
        split: if_splits option.splits sum.splits) (fastforce simp: same_core_def)+
qed

lemma side_step_core: "side_step d d' \<Longrightarrow> same_core d d'"
proof (induction rule: side_step.induct)
  case side_UpdateProfile
  then show ?case by (rule UpdateProfile_core)
qed (auto simp: AddAudit_def CreateSession_def DeleteSession_def DeleteExpiredSessions_def CreateISO_def DeleteISO_def
    CreateProfile_def DeleteProfile_def SetAnswerOverride_def CreateHost_def UpdateHost_def store_UpsertLease_def
    store_DeleteLease_def Let_def same_core_def simp del: has_key_iff split: if_splits option.splits sum.splits)

lemma side_core: "side_step\<^sup>*\<^sup>* d d' \<Longrightarrow> same_core d d'"
  by (induction rule: rtranclp_induct) (auto simp: same_core_def dest: side_step_core)

lemma side_db: "side_step\<^sup>*\<^sup>* d d' \<Longrightarrow> db_step\<^sup>*\<^sup>* d d'"
  by (erule rtranclp_mono [THEN predicate2D, rotated]) (auto intro: side_step_db_step)

section \<open>Handlers that only make such writes\<close>

lemma db_after_side:
  assumes "\<And>e x. res = Inr (e, x) \<Longrightarrow> side_step\<^sup>*\<^sup>* d e"
  shows "side_step\<^sup>*\<^sup>* d (db_after d res)"
  using assms by (auto simp: db_after_def split: sum.splits)

lemma audit_side: "side_step\<^sup>*\<^sup>* d e \<Longrightarrow> side_step\<^sup>*\<^sup>* d (audit_as now e u a en i)"
  by (erule rtranclp_trans) (auto simp: audit_as_def intro!: db_after_side intro: side_AddAudit)

lemmas side_single = side_steps [THEN r_into_rtranclp [of side_step]]

lemma handleLogin_side: "handleLogin env now rnd (l, d) r = ((l', d'), out) \<Longrightarrow> side_step\<^sup>*\<^sup>* d d'"
  by (auto simp: handleLogin_def open_session_def Let_def intro!: db_after_side intro: side_single
      split: prod.splits bool.splits option.splits verdict.splits sum.splits)

lemma handleLogout_side: "handleLogout d sess = (d', out) \<Longrightarrow> side_step\<^sup>*\<^sup>* d d'"
  by (auto simp: handleLogout_def intro: side_single split: sum.splits)

lemma handleCreateHost_side: "handleCreateHost now u d r = (d', out) \<Longrightarrow> side_step\<^sup>*\<^sup>* d d'"
  by (auto simp: handleCreateHost_def intro!: audit_side intro: side_single split: sum.splits)

lemma handleUpdateHost_side: "handleUpdateHost now d seg r = (d', out) \<Longrightarrow> side_step\<^sup>*\<^sup>* d d'"
  by (auto simp: handleUpdateHost_def intro: side_single split: sum.splits option.splits)

lemma handleCreateProfile_side: "handleCreateProfile env now u d r = (d', out) \<Longrightarrow> side_step\<^sup>*\<^sup>* d d'"
  by (auto simp: handleCreateProfile_def intro!: audit_side intro: side_single split: sum.splits option.splits if_splits)

lemma handleUpdateProfile_side: "handleUpdateProfile env now u d seg r = (d', out) \<Longrightarrow> side_step\<^sup>*\<^sup>* d d'"
  unfolding handleUpdateProfile_def
  by (auto intro!: audit_side intro: side_single split: sum.splits option.splits if_splits)

lemma handleDeleteProfile_side: "handleDeleteProfile now u d seg = (d', out) \<Longrightarrow> side_step\<^sup>*\<^sup>* d d'"
  by (auto simp: handleDeleteProfile_def intro!: audit_side intro: side_single split: sum.splits option.splits)

lemma handleSetAnswerOverride_side:
  "handleSetAnswerOverride env now u d seg verseg r = (d', out) \<Longrightarrow> side_step\<^sup>*\<^sup>* d d'"
  unfolding handleSetAnswerOverride_def
  by (auto intro!: audit_side intro: side_single split: sum.splits option.splits if_splits)

lemma handleCloneProfile_side: "handleCloneProfile now u d seg r = (d', out) \<Longrightarrow> side_step\<^sup>*\<^sup>* d d'"
  by (auto simp: handleCloneProfile_def intro!: audit_side intro: side_single split: sum.splits option.splits)

lemma handleImportProfile_side: "handleImportProfile env now u d r = (d', out) \<Longrightarrow> side_step\<^sup>*\<^sup>* d d'"
  by (auto simp: handleImportProfile_def intro!: audit_side intro: side_single
      split: sum.splits option.splits if_splits)

lemma handleBackupImport_side:
  "handleBackupImport env unpack now u (d, files) r = ((d', files'), out) \<Longrightarrow> side_step\<^sup>*\<^sup>* d d'"
  by (auto simp: handleBackupImport_def intro!: audit_side split: sum.splits option.splits upload.splits if_splits prod.splits)

lemma Import_side: "Import env now (d, files) f c = ((d', files'), res) \<Longrightarrow> side_step\<^sup>*\<^sup>* d d'"
  by (auto simp: Import_def Let_def intro: side_single split: if_splits sum.splits option.splits)

lemma scan_entries_side: "scan_entries env now files d es = (d', res) \<Longrightarrow> side_step\<^sup>*\<^sup>* d d'"
proof (induction env now files d es arbitrary: d' res rule: scan_entries.induct)
  case (2 env now files d name isDir es)
  show ?case
  proof (cases "isDir \<or> \<not> filenameRe name \<or> (\<exists>x. ISOByFilename d name = Inr x) \<or> files name = None")
    case True
    with 2 show ?thesis by (auto split: if_splits sum.splits)
  next
    case False
    then obtain e c where f: "ISOByFilename d name = Inl e" "files name = Some c" "\<not> isDir" "filenameRe name"
      by (cases "ISOByFilename d name") auto
    show ?thesis
    proof (cases "CreateISO now d (record_image env name c)")
      case (Inl x)
      with "2.prems" f show ?thesis by auto
    next
      case (Inr x)
      obtain d1 img where x: "x = (d1, img)" by (cases x)
      obtain d2 res2 where s: "scan_entries env now files d1 es = (d2, res2)"
        by (cases "scan_entries env now files d1 es")
      have "side_step\<^sup>*\<^sup>* d1 d2" using "2.IH"(3) [of e c] f Inr x s by auto
      moreover have "d' = d2" using "2.prems" f Inr x s by (auto split: sum.splits)
      ultimately show ?thesis using Inr x by (meson converse_rtranclp_into_rtranclp side_CreateISO)
    qed
  qed
qed simp

lemma handleUploadISO_side:
  "handleUploadISO mgr now u (d, lib) r = ((d', lib'), out) \<Longrightarrow> side_step\<^sup>*\<^sup>* d d'"
  by (auto simp: handleUploadISO_def intro!: audit_side dest: Import_side
      split: option.splits upload.splits if_splits prod.splits sum.splits iso_error.splits)

lemma handleScanISOs_side:
  "handleScanISOs mgr now es (d, lib) = ((d', lib'), out) \<Longrightarrow> side_step\<^sup>*\<^sup>* d d'"
  by (auto simp: handleScanISOs_def ScanDir_def dest: scan_entries_side split: option.splits prod.splits sum.splits)

lemma handleDeleteISO_side:
  "handleDeleteISO mgr now u (d, lib) seg = ((d', lib'), out) \<Longrightarrow> side_step\<^sup>*\<^sup>* d d'"
  by (auto simp: handleDeleteISO_def iso_Delete_def intro!: audit_side intro: side_single
      split: option.splits prod.splits sum.splits iso_error.splits)

section \<open>The other handlers\<close>

lemmas db_single = db_step.intros [THEN r_into_rtranclp [of db_step]]

lemma audit_db: "db_step\<^sup>*\<^sup>* d e \<Longrightarrow> db_step\<^sup>*\<^sup>* d (audit_as now e u a en i)"
  by (erule rtranclp_trans) (intro side_db audit_side rtranclp.rtrancl_refl)

lemma SetSetting_db: "db_step\<^sup>*\<^sup>* d (db_after d (SetSetting d k v))"
  by (auto simp: db_after_def intro: db_single split: sum.splits)

lemma settings_db: "db_step\<^sup>*\<^sup>* d (fold (\<lambda>(k, v) d. db_after d (SetSetting d k v)) kvs d)"
proof (induction kvs arbitrary: d)
  case (Cons a kvs)
  obtain k v where a: "a = (k, v)" by (cases a)
  show ?case using SetSetting_db [of d k v] Cons.IH [of "db_after d (SetSetting d k v)"]
    by (auto simp: a intro: rtranclp_trans)
qed simp

lemma handleSetupComplete_db: "handleSetupComplete env now rnd d r = (d', out) \<Longrightarrow> db_step\<^sup>*\<^sup>* d d'"
  by (auto simp: handleSetupComplete_def put_settings_def simp del: fold.simps
      intro: converse_rtranclp_into_rtranclp [OF step_CreateUser settings_db]
      split: sum.splits bool.splits option.splits if_splits)

lemma handleCreateUser_db: "handleCreateUser env now rnd u d r = (d', out) \<Longrightarrow> db_step\<^sup>*\<^sup>* d d'"
  by (auto simp: handleCreateUser_def intro!: audit_db intro: db_single split: sum.splits option.splits if_splits)

lemma handleUpdateUser_db: "handleUpdateUser now u d seg r = (d', out) \<Longrightarrow> db_step\<^sup>*\<^sup>* d d'"
  by (auto simp: handleUpdateUser_def Let_def intro!: audit_db intro: db_single
      split: sum.splits option.splits if_splits)

lemma handleSetUserPassword_db: "handleSetUserPassword env now rnd u d seg r = (d', out) \<Longrightarrow> db_step\<^sup>*\<^sup>* d d'"
  by (auto simp: handleSetUserPassword_def intro!: audit_db intro: db_single split: sum.splits option.splits if_splits)

lemma handleChangeOwnPassword_db: "handleChangeOwnPassword env now rnd u d r = (d', out) \<Longrightarrow> db_step\<^sup>*\<^sup>* d d'"
  by (auto simp: handleChangeOwnPassword_def intro!: audit_db intro: db_single
      split: sum.splits option.splits if_splits verdict.splits bool.splits)

lemma handleDeleteUser_db: "handleDeleteUser now u d seg = (d', out) \<Longrightarrow> db_step\<^sup>*\<^sup>* d d'"
  by (auto simp: handleDeleteUser_def intro!: audit_db intro: db_single split: sum.splits option.splits if_splits)

lemma handlePutNetworkConfig_db: "handlePutNetworkConfig now u d r = (d', out) \<Longrightarrow> db_step\<^sup>*\<^sup>* d d'"
  by (auto simp: handlePutNetworkConfig_def simp del: fold.simps intro!: audit_db settings_db split: option.splits)

lemma handleDeleteHost_db: "handleDeleteHost now u d seg = (d', out) \<Longrightarrow> db_step\<^sup>*\<^sup>* d d'"
  by (auto simp: handleDeleteHost_def intro!: audit_db intro: db_single split: sum.splits option.splits)

lemma queue_installation_db: "queue_installation now rnd u d plan = (d', out) \<Longrightarrow> db_step\<^sup>*\<^sup>* d d'"
  by (auto simp: queue_installation_def intro!: audit_db intro: db_single split: sum.splits option.splits)

lemma handleCreateInstallation_db: "handleCreateInstallation now rnd u d r = (d', out) \<Longrightarrow> db_step\<^sup>*\<^sup>* d d'"
  by (auto simp: handleCreateInstallation_def dest: queue_installation_db split: sum.splits option.splits)

lemma handleDeleteInstallation_db: "handleDeleteInstallation now u d seg = (d', out) \<Longrightarrow> db_step\<^sup>*\<^sup>* d d'"
  by (auto simp: handleDeleteInstallation_def intro!: audit_db intro: db_single split: sum.splits option.splits)

lemma markInstalling_db_steps: "db_step\<^sup>*\<^sup>* d (markInstalling now d ic)"
proof -
  have "db_step\<^sup>*\<^sup>* e (db_after e (UpdateHost now e h))" for e h
    by (auto simp: db_after_def intro: db_single split: sum.splits)
  then show ?thesis
    by (auto simp: markInstalling_def db_after_def intro: db_single rtranclp_trans split: sum.splits prod.splits)
qed

lemma scriptFor_db: "scriptFor env now d base h = (d', s) \<Longrightarrow> db_step\<^sup>*\<^sup>* d d'"
  by (auto simp: scriptFor_def markInstalling_db_steps split: context_lookup.splits option.splits if_splits)

lemma discover_db: "discover now d mac r = (d', h) \<Longrightarrow> db_step\<^sup>*\<^sup>* d d'"
  by (auto simp: discover_def Let_def intro: db_single split: sum.splits)

lemma handleScript_db: "handleScript env now d r = (d', out) \<Longrightarrow> db_step\<^sup>*\<^sup>* d d'"
  by (auto simp: handleScript_def split: sum.splits prod.splits option.splits
      dest!: scriptFor_db discover_db elim: rtranclp_trans)

lemma handleReport_db:
  assumes "handleReport env now d token r = (d', out)"
  shows "db_step\<^sup>*\<^sup>* d d'"
proof -
  have "db_step\<^sup>*\<^sup>* d (db_after e (UpdateHost now e h))" if "MarkInstallationFinished d i st l now = Inr (e, x)"
    for e h i st l x
    using step_MarkInstallationFinished [OF that]
    by (auto simp: db_after_def intro: step_UpdateHost rtranclp.rtrancl_into_rtrancl split: sum.splits)
  then show ?thesis using assms
    by (auto simp: handleReport_def simp del: append.simps split: sum.splits option.splits)
qed

section \<open>Requests\<close>

text \<open>The endpoints that touch accounts, settings or installations.\<close>

fun core_endpoint :: "guarded_endpoint \<Rightarrow> bool" where
  "core_endpoint ep \<longleftrightarrow> ep \<in> {OnChangeOwnPassword, OnCreateUser, OnUpdateUser, OnSetUserPassword, OnDeleteUser,
     OnPutNetworkConfig, OnCreateInstallation, OnDeleteInstallation, OnDeleteHost}"

lemma on_db_eq: "on_db s x = (s', out) \<longleftrightarrow> (\<exists>d'. x = (d', out) \<and> s' = s\<lparr>svDB := d'\<rparr>)"
  by (cases x) (auto simp: on_db_def)

lemma on_library_eq: "on_library s x = (s', out) \<longleftrightarrow> (\<exists>d' l'. x = ((d', l'), out) \<and> s' = s\<lparr>svDB := d', svLibrary := l'\<rparr>)"
  by (cases x) (auto simp: on_library_def)

lemma on_boot_cases:
  assumes "on_boot env s f = (s', out)"
  obtains "s' = s" | b where "seBoot env = Some b" and "f b = (s', out)"
  using assms by (auto simp: on_boot_def split: option.splits)

lemma serve_guarded_side:
  assumes "serve_guarded env mo ep vars u sess s r = (s', out)" and "\<not> core_endpoint ep"
  shows "side_step\<^sup>*\<^sup>* (svDB s) (svDB s')"
  using assms
  by (cases ep)
     (auto simp: on_db_eq on_library_eq split: prod.splits dest: handleLogout_side handleCreateHost_side
       handleUpdateHost_side handleCreateProfile_side handleUpdateProfile_side handleDeleteProfile_side
       handleSetAnswerOverride_side handleCloneProfile_side handleImportProfile_side handleBackupImport_side
       handleUploadISO_side handleScanISOs_side handleDeleteISO_side)

lemma serve_guarded_db:
  assumes "serve_guarded env mo ep vars u sess s r = (s', out)"
  shows "db_step\<^sup>*\<^sup>* (svDB s) (svDB s')"
proof (cases "core_endpoint ep")
  case True
  then show ?thesis using assms
    by (cases ep) (auto simp: on_db_eq dest: handleChangeOwnPassword_db handleCreateUser_db handleUpdateUser_db
        handleSetUserPassword_db handleDeleteUser_db handlePutNetworkConfig_db handleCreateInstallation_db
        handleDeleteInstallation_db handleDeleteHost_db)
qed (rule side_db [OF serve_guarded_side [OF assms]])

text \<open>An open endpoint writes nothing but the login, the set-up and the boot reports do.\<close>

lemma serve_open_cases:
  assumes "serve_open env mo ep vars s r = (s', out)"
  obtains (same) "s' = s"
  | (login) "ep = OnLogin" "side_step\<^sup>*\<^sup>* (svDB s) (svDB s')" "svLibrary s' = svLibrary s" "svDisk s' = svDisk s"
      "svObserver s' = svObserver s"
  | (first_run) d' where "ep = OnSetupComplete" "s' = s\<lparr>svDB := d'\<rparr>"
      "handleSetupComplete (seAuth env) (moNow mo) (moRandom mo) (svDB s) r = (d', out)"
  | (script) b d' where "ep = OnScript" "s' = s\<lparr>svDB := d'\<rparr>" "handleScript b (moNow mo) (svDB s) r = (d', out)"
  | (report) b d' where "ep = OnReport" "s' = s\<lparr>svDB := d'\<rparr>"
      "handleReport b (moNow mo) (svDB s) (path_value vars 0) r = (d', out)"
proof (cases ep)
  case OnLogin
  with assms show thesis by (intro login) (auto split: prod.splits dest: handleLogin_side)
next
  case OnSetupComplete
  with assms first_run show thesis by (auto simp: on_db_eq)
next
  case OnScript
  with assms same script show thesis by (auto simp: on_db_eq elim!: on_boot_cases)
next
  case OnReport
  with assms same report show thesis by (auto simp: on_db_eq elim!: on_boot_cases)
qed (use assms in \<open>auto intro: same elim!: on_boot_cases\<close>)

lemma serve_open_db:
  assumes "serve_open env mo ep vars s r = (s', out)"
  shows "db_step\<^sup>*\<^sup>* (svDB s) (svDB s')"
  using assms by (cases rule: serve_open_cases)
    (auto intro: side_db dest: handleSetupComplete_db handleScript_db handleReport_db)

text \<open>A request that changes something went through one of the two kinds of endpoint.\<close>

lemma serve_cases:
  assumes "serve env mo s r = (s', out)"
  obtains (same) "s' = s"
  | (open_ep) ep vars out' where "find_route (routes env) r = Some (Open ep, vars)"
      "serve_open env mo ep vars s r = (s', out')"
  | (guarded) least ep vars u sess out' where "find_route (routes env) r = Some (Guarded least ep, vars)"
      "require (moNow mo) (svDB s) least r = Inr (u, sess)" "serve_guarded env mo ep vars u sess s r = (s', out')"
proof -
  have "fst (recoverPanics x) = fst x" for x :: "server \<times> outcome"
    by (cases x; cases "snd x") (auto simp: recoverPanics_def)
  then obtain out' where d: "dispatch env mo s r = (s', out')"
    using assms unfolding serve_def by (metis fst_conv prod.collapse)
  show thesis
  proof (cases "find_route (routes env) r")
    case None
    with d same show thesis by (auto simp: dispatch_def)
  next
    case (Some x)
    obtain t vars where x: "x = (t, vars)" by (cases x)
    show thesis
    proof (cases t)
      case (Open ep)
      with d Some x show thesis by (intro open_ep) (auto simp: dispatch_def)
    next
      case (Guarded least ep)
      show thesis
      proof (cases "require (moNow mo) (svDB s) least r")
        case (Inl e)
        with d Some x Guarded same show thesis by (auto simp: dispatch_def)
      next
        case (Inr p)
        obtain u sess where p: "p = (u, sess)" by (cases p)
        show thesis
          using d Some x Guarded Inr p by (intro guarded [of least ep vars u sess out']) (auto simp: dispatch_def)
      qed
    qed
  qed
qed

lemma serve_db:
  assumes "serve env mo s r = (s', out)"
  shows "db_step\<^sup>*\<^sup>* (svDB s) (svDB s')"
  using assms by (cases rule: serve_cases) (auto dest: serve_open_db serve_guarded_db)

lemma server_step_db: "db_step\<^sup>*\<^sup>* (svDB s) (svDB (server_step env s ev))"
proof (cases ev)
  case (Request mo r)
  then show ?thesis using serve_db [of env mo s r] by (cases "serve env mo s r") simp
next
  case (Housekeeping now)
  then show ?thesis by (auto simp: db_after_def intro: db_single split: sum.splits)
next
  case (LeaseStored mac ip h t)
  then show ?thesis by (auto simp: leaseAdapter_def intro: db_single split: sum.splits)
next
  case (LeaseDropped mac)
  then show ?thesis by (auto simp: leaseAdapter_def intro: db_single split: sum.splits)
qed

section \<open>Services over the database\<close>

text \<open>
  What a service promises when all its steps reach the database through the repositories; every
  relation its steps keep, whole runs keep.
\<close>

locale db_service =
  fixes db_of :: "'s \<Rightarrow> db" and step :: "'s \<Rightarrow> 'e \<Rightarrow> 's"
  assumes step_writes: "db_step\<^sup>*\<^sup>* (db_of s) (db_of (step s e))"
begin

lemma step_inv: "db_inv (db_of s) \<Longrightarrow> db_inv (db_of (step s e))"
  by (rule db_steps_inv [OF step_writes])

lemma run_writes: "db_step\<^sup>*\<^sup>* (db_of s) (db_of (foldl step s es))"
  by (induction es arbitrary: s) (auto intro: rtranclp_trans step_writes)

lemma run_inv: "db_inv (db_of s) \<Longrightarrow> db_inv (db_of (foldl step s es))"
  by (rule db_steps_inv [OF run_writes])

lemma run_keeps:
  assumes step: "\<And>s e. db_inv (db_of s) \<Longrightarrow> P (db_of s) \<Longrightarrow> P (db_of (step s e))"
  shows "db_inv (db_of s) \<Longrightarrow> P (db_of s) \<Longrightarrow> P (db_of (foldl step s es))"
proof (induction es arbitrary: s)
  case (Cons e es)
  have "P (db_of (foldl step (step s e) es))"
    by (rule Cons.IH [OF step_inv [OF Cons.prems(1)] step [OF Cons.prems]])
  then show ?case by (simp only: foldl_Cons)
qed simp

end

interpretation api: db_service svDB "server_step env" for env
  by unfold_locales (rule server_step_db)

lemma boot_serve_db: "db_step\<^sup>*\<^sup>* d (fst (boot_serve env now d q))"
proof (cases q)
  case (AskScript r)
  then show ?thesis using handleScript_db [of env now d r] by (cases "handleScript env now d r") simp
next
  case (SendReport token r)
  then show ?thesis using handleReport_db [of env now d token r] by (cases "handleReport env now d token r") simp
qed

interpretation boot: db_service "\<lambda>d. d" "\<lambda>d e. fst (boot_serve env (fst e) d (snd e))" for env
  by unfold_locales (rule boot_serve_db)

lemma server_run_db: "db_step\<^sup>*\<^sup>* (svDB s) (svDB (server_run env s evs))"
  unfolding server_run_def by (rule api.run_writes)

lemma server_run_inv: "db_inv (svDB s) \<Longrightarrow> db_inv (svDB (server_run env s evs))"
  unfolding server_run_def by (rule api.run_inv)

end
