(* ===== verification/Server_Safety.thy ===== *)
theory Server_Safety
  imports Server_Facts
begin

text \<open>
  What holds of the whole server over every sequence of requests: who can change what, that an
  administrator always remains, and that a machine has at most one installation under way.
\<close>

section \<open>Routes\<close>

lemma find_route_entry:
  assumes "find_route rs r = Some (t, vars)"
  shows "\<exists>m p. (m, p, t) \<in> set rs \<and> match_method m (rqMethod r) \<and> match_path p (rqPath r) = Some vars"
  using assms by (induction rs r rule: find_route.induct) (auto split: option.splits if_splits)

text \<open>The role each guarded endpoint asks for.\<close>

fun required_role :: "guarded_endpoint \<Rightarrow> Role" where
  "required_role ep =
     (if ep \<in> {OnListUsers, OnCreateUser, OnUpdateUser, OnSetUserPassword, OnDeleteUser, OnBackupExport, OnBackupImport,
               OnPutNetworkConfig} then RoleAdmin
      else if ep \<in> {OnCreateHost, OnUpdateHost, OnDeleteHost, OnCreateInstallation, OnDeleteInstallation, OnUploadISO,
               OnScanISOs, OnDeleteISO, OnCreateProfile, OnSetAnswerOverride, OnCloneProfile, OnImportProfile,
               OnUpdateProfile, OnDeleteProfile} then RoleOperator
      else RoleViewer)"

text \<open>The endpoints that write nothing to the database and the disk.\<close>

fun read_only :: "guarded_endpoint \<Rightarrow> bool" where
  "read_only ep \<longleftrightarrow> required_role ep = RoleViewer \<and> ep \<noteq> OnLogout \<and> ep \<noteq> OnChangeOwnPassword \<or>
     ep = OnListUsers \<or> ep = OnBackupExport"

lemma writing_role:
  "\<not> read_only ep \<Longrightarrow>
   required_role ep = RoleAdmin \<or> required_role ep = RoleOperator \<or> ep = OnLogout \<or> ep = OnChangeOwnPassword"
  by (cases ep) simp_all

fun route_ok :: "route_entry \<Rightarrow> bool" where
  "route_ok (m, p, Open ep) \<longleftrightarrow>
     (ep = OnLogin \<longrightarrow> p = ''/api/v1/auth/login'') \<and> (ep = OnSetupComplete \<longrightarrow> p = ''/api/v1/setup'') \<and>
     (ep = OnScript \<longrightarrow> p = ''/boot/ipxe'') \<and> (ep = OnReport \<longrightarrow> p = ''/boot/report/{token}'')"
| "route_ok (m, p, Guarded least ep) \<longleftrightarrow> least = required_role ep \<and> (read_only ep \<or> mutating m) \<and>
     (ep = OnLogout \<longrightarrow> p = ''/api/v1/auth/logout'') \<and> (ep = OnChangeOwnPassword \<longrightarrow> p = ''/api/v1/auth/password'')"

lemma routes_ok: "list_all route_ok (api_routes @ boot_routes)"
  by code_simp

lemma found_route_ok:
  assumes "find_route (routes env) r = Some (t, vars)"
  obtains m p where "route_ok (m, p, t)" and "match_method m (rqMethod r)"
    and "match_path (pattern_of p) (rqPath r) = Some vars"
proof -
  obtain m p where e: "(m, p, t) \<in> set (api_routes @ boot_routes @ [('''', ''/api/'', Open OnUnknownAPI), ('''', ''/'', Open OnStatic)])"
      "match_method m (rqMethod r)" "match_path (pattern_of p) (rqPath r) = Some vars"
    using find_route_entry [OF assms] by (auto simp: routes_def split: option.splits)
  have "route_ok (m, p, t)"
    using e(1) routes_ok by (auto simp: list_all_iff)
  then show thesis using that e(2,3) by blast
qed

lemma guarded_route:
  assumes "find_route (routes env) r = Some (Guarded least ep, vars)"
  obtains p where "least = required_role ep" and "read_only ep \<or> mutating (rqMethod r)"
    and "match_path (pattern_of p) (rqPath r) = Some vars"
    and "ep = OnLogout \<longrightarrow> p = ''/api/v1/auth/logout''"
    and "ep = OnChangeOwnPassword \<longrightarrow> p = ''/api/v1/auth/password''"
proof -
  obtain m p where e: "route_ok (m, p, Guarded least ep)" "match_method m (rqMethod r)"
      "match_path (pattern_of p) (rqPath r) = Some vars"
    using found_route_ok [OF assms] .
  have "mutating m \<Longrightarrow> mutating (rqMethod r)"
    using e(2) by (auto simp: match_method_def mutating_def)
  then show thesis using that [of p] e(1,3) by (simp del: required_role.simps read_only.simps) blast
qed

lemma match_literals: "match_path (map Lit ss) xs = Some vars \<Longrightarrow> xs = ss"
  by (induction ss xs arbitrary: vars rule: list_induct2') (auto split: if_splits)

lemma match_report:
  assumes "match_path (map Lit [a, b] @ [Wild]) xs = Some vars"
  shows "xs = [a, b, path_value vars 0]"
proof -
  obtain x y rest where "xs = x # y # rest" using assms by (cases xs; cases "tl xs") (auto split: if_splits)
  then show ?thesis using assms by (cases rest; cases "tl rest") (auto simp: path_value_def split: if_splits)
qed

lemma literal_patterns:
  "pattern_of ''/api/v1/auth/logout'' = map Lit [''api'', ''v1'', ''auth'', ''logout'']"
  "pattern_of ''/api/v1/auth/password'' = map Lit [''api'', ''v1'', ''auth'', ''password'']"
  "pattern_of ''/api/v1/auth/login'' = map Lit [''api'', ''v1'', ''auth'', ''login'']"
  "pattern_of ''/api/v1/setup'' = map Lit [''api'', ''v1'', ''setup'']"
  "pattern_of ''/boot/ipxe'' = map Lit [''boot'', ''ipxe'']"
  "pattern_of ''/boot/report/{token}'' = map Lit [''boot'', ''report''] @ [Wild]"
  by code_simp+

lemma open_route:
  assumes "find_route (routes env) r = Some (Open ep, vars)"
  shows "ep = OnLogin \<Longrightarrow> rqPath r = [''api'', ''v1'', ''auth'', ''login'']"
    and "ep = OnSetupComplete \<Longrightarrow> rqPath r = [''api'', ''v1'', ''setup'']"
    and "ep = OnScript \<Longrightarrow> rqPath r = [''boot'', ''ipxe'']"
    and "ep = OnReport \<Longrightarrow> rqPath r = [''boot'', ''report'', path_value vars 0]"
proof -
  obtain m p where e: "route_ok (m, p, Open ep)" "match_path (pattern_of p) (rqPath r) = Some vars"
    using found_route_ok [OF assms] .
  then have p: "ep = OnLogin \<Longrightarrow> p = ''/api/v1/auth/login''" "ep = OnSetupComplete \<Longrightarrow> p = ''/api/v1/setup''"
    "ep = OnScript \<Longrightarrow> p = ''/boot/ipxe''" "ep = OnReport \<Longrightarrow> p = ''/boot/report/{token}''"
    by simp_all
  show "rqPath r = [''api'', ''v1'', ''auth'', ''login'']" if "ep = OnLogin"
    using e(2) unfolding p(1) [OF that] literal_patterns by (rule match_literals)
  show "rqPath r = [''api'', ''v1'', ''setup'']" if "ep = OnSetupComplete"
    using e(2) unfolding p(2) [OF that] literal_patterns by (rule match_literals)
  show "rqPath r = [''boot'', ''ipxe'']" if "ep = OnScript"
    using e(2) unfolding p(3) [OF that] literal_patterns by (rule match_literals)
  show "rqPath r = [''boot'', ''report'', path_value vars 0]" if "ep = OnReport"
    using e(2) unfolding p(4) [OF that] literal_patterns by (rule match_report)
qed

section \<open>What each kind of endpoint writes\<close>

lemma svDB_put: "svDB (s\<lparr>svDB := d\<rparr>) = d"
  by simp

lemma read_only_writes_nothing:
  assumes "serve_guarded env mo ep vars u sess s r = (s', out)" and "read_only ep"
  shows "svDB s' = svDB s \<and> svLibrary s' = svLibrary s \<and> svDisk s' = svDisk s"
  using assms by (cases ep) (auto split: prod.splits if_splits)

definition same_accounts :: "db \<Rightarrow> db \<Rightarrow> bool" where
  "same_accounts d d' \<longleftrightarrow> users d' = users d \<and> settings d' = settings d"

lemma same_accounts_refl [simp]: "same_accounts d d"
  by (simp add: same_accounts_def)

lemma same_core_accounts: "same_core d d' \<Longrightarrow> same_accounts d d'"
  by (simp add: same_core_def same_accounts_def)

lemma DeleteHost_accounts: "handleDeleteHost now u d seg = (d', out) \<Longrightarrow> same_accounts d d'"
  by (auto simp: handleDeleteHost_def DeleteHost_def same_accounts_def simp del: has_key_iff
      split: option.splits sum.splits if_splits)

lemma CreateInstallation_accounts: "handleCreateInstallation now rnd u d r = (d', out) \<Longrightarrow> same_accounts d d'"
  by (auto simp: handleCreateInstallation_def queue_installation_def CreateInstallation_def Let_def same_accounts_def
      simp del: has_key_iff split: option.splits sum.splits if_splits)

lemma DeleteInstallation_accounts: "handleDeleteInstallation now u d seg = (d', out) \<Longrightarrow> same_accounts d d'"
  by (auto simp: handleDeleteInstallation_def DeleteInstallation_def same_accounts_def
      split: option.splits sum.splits if_splits)

lemma operator_accounts:
  assumes "serve_guarded env mo ep vars u sess s r = (s', out)" and "required_role ep = RoleOperator"
  shows "same_accounts (svDB s) (svDB s') \<and> svDisk s' = svDisk s"
proof -
  have "same_accounts (svDB s) (svDB s')"
  proof (cases "core_endpoint ep")
    case True
    then show ?thesis using assms
      by (cases ep) (auto simp: on_db_eq dest: DeleteHost_accounts CreateInstallation_accounts DeleteInstallation_accounts)
  qed (use serve_guarded_side [OF assms(1)] side_core same_core_accounts in blast)
  moreover have "svDisk s' = svDisk s"
    using assms by (cases ep) (auto simp: on_db_eq on_library_eq)
  ultimately show ?thesis by simp
qed

lemma handleLogin_writes:
  assumes "handleLogin env now rnd (l, d) r = ((l', d'), out)"
  shows "d' = d\<lparr>sessions := sessions d', audit := audit d'\<rparr>"
  using assms
  by (auto simp: handleLogin_def open_session_def CreateSession_def AddAudit_def db_after_def Let_def simp del: has_key_iff
      split: prod.splits bool.splits option.splits verdict.splits sum.splits if_splits)

lemma handleLogout_writes: "handleLogout d sess = (d', out) \<Longrightarrow> d' = d\<lparr>sessions := sessions d'\<rparr>"
  by (auto simp: handleLogout_def DeleteSession_def)

text \<open>A change of the own password replaces one hash and ends the sessions of that user.\<close>

lemma handleChangeOwnPassword_writes:
  assumes "handleChangeOwnPassword env now rnd u d r = (d', out)" and "d' \<noteq> d"
  obtains h where "users d' = update_rows (\<lambda>v. uID v = uID u) (uPasswordHash_update (\<lambda>_. h)) (users d)"
    and "d' = d\<lparr>users := users d', sessions := sessions d', audit := audit d'\<rparr>"
proof -
  obtain h d1 where d1: "UpdateUserPassword d (uID u) h = Inr (d1, ())" "d' = audit_as now d1 u ''user.change_password'' ''user'' (uID u)"
    using assms by (auto simp: handleChangeOwnPassword_def split: option.splits verdict.splits bool.splits if_splits sum.splits)
  obtain a where "d' = d1\<lparr>audit := a\<rparr>" using audit_as_tables d1(2) by metis
  with d1(1) show thesis
    by (intro that [of h]) (auto simp: UpdateUserPassword_def simp del: has_key_iff split: if_splits)
qed

lemma handleSetupComplete_first:
  "handleSetupComplete env now rnd d r = (d', out) \<Longrightarrow> d' \<noteq> d \<Longrightarrow> SetupCompleted d = Inr False"
  by (auto simp: handleSetupComplete_def split: sum.splits bool.splits)

lemma handleScript_writes:
  assumes "db_inv d" and "handleScript env now d r = (d', out)" and "d' \<noteq> d"
  shows "\<exists>i. only_host i d d'"
proof (cases "NormalizeMAC (rqQuery r ''mac'')")
  case (Inl e)
  with assms show ?thesis by (simp add: handleScript_def)
next
  case (Inr mac)
  from handleScript_effect [OF assms(1) Inr assms(2)] show ?thesis by metis
qed

lemma handleReport_writes:
  assumes "db_inv d" and "handleReport env now d token r = (d', out)" and "d' \<noteq> d"
  shows "\<exists>i. only_host i d d'"
  by (rule handleReport_effect [OF assms]) blast

section \<open>Patterns do not overlap\<close>

text \<open>Whether two patterns can match the same path.\<close>

fun overlap :: "segment list \<Rightarrow> segment list \<Rightarrow> bool" where
  "overlap [] [] = True"
| "overlap (Rest # _) (_ # _) = True"
| "overlap (_ # _) (Rest # _) = True"
| "overlap (Lit a # ps) (Lit b # qs) = (a = b \<and> overlap ps qs)"
| "overlap (Wild # ps) (_ # qs) = overlap ps qs"
| "overlap (_ # ps) (Wild # qs) = overlap ps qs"
| "overlap _ _ = False"

lemma match_overlap: "match_path p xs = Some vs \<Longrightarrow> match_path q xs = Some ws \<Longrightarrow> overlap p q"
proof (induction xs arbitrary: p q vs ws)
  case Nil
  then show ?case by (cases p; cases q) (auto elim: match_path.elims)
next
  case (Cons x xs)
  obtain a ps b qs where pq: "p = a # ps" "q = b # qs" using Cons.prems by (cases p; cases q) auto
  show ?case using Cons unfolding pq by (cases a; cases b) (auto split: if_splits)
qed

fun unambiguous :: "(string \<times> segment list) list \<Rightarrow> bool" where
  "unambiguous [] = True"
| "unambiguous ((m, p) # rs) \<longleftrightarrow> list_all (\<lambda>(n, q). m \<noteq> n \<or> \<not> overlap p q) rs \<and> unambiguous rs"

lemma unambiguous_nth:
  "unambiguous rs \<Longrightarrow> i < j \<Longrightarrow> j < length rs \<Longrightarrow> fst (rs ! i) = fst (rs ! j) \<Longrightarrow> \<not> overlap (snd (rs ! i)) (snd (rs ! j))"
proof (induction rs arbitrary: i j rule: unambiguous.induct)
  case (2 m p rs)
  obtain j' where j: "j = Suc j'" using 2(3) by (cases j) auto
  show ?case
  proof (cases i)
    case 0
    obtain n q where e: "rs ! j' = (n, q)" by (cases "rs ! j'")
    have "(n, q) \<in> set rs" using "2.prems"(3) j e nth_mem [of j' rs] by simp
    moreover have "m = n" using "2.prems"(4) j 0 e by simp
    ultimately show ?thesis using "2.prems"(1) j 0 e by (auto simp: list_all_iff)
  next
    case (Suc i')
    then show ?thesis using 2 j by simp
  qed
qed simp

lemma table_unambiguous: "unambiguous (map (\<lambda>(m, p, t). (m, pattern_of p)) (api_routes @ boot_routes))"
  by code_simp

lemma table_methods: "list_all (\<lambda>(m, p, t). m \<in> {''GET'', ''POST'', ''PUT'', ''DELETE''}) (api_routes @ boot_routes)"
  by code_simp

section \<open>Administrators\<close>

definition has_admin :: "db \<Rightarrow> bool" where
  "has_admin d \<longleftrightarrow> list_ex (\<lambda>u. uRole u = RoleAdmin) (users d)"

definition is_set_up :: "db \<Rightarrow> bool" where
  "is_set_up d \<longleftrightarrow> settings d SettingSetupCompleted = Some ''true''"

lemma SetupCompleted_iff: "SetupCompleted d = Inr True \<longleftrightarrow> is_set_up d"
  by (auto simp: SetupCompleted_def GetSetting_def found_def is_set_up_def split: option.splits)

text \<open>What every step keeps: once the instance is set up it stays so, with an administrator.\<close>

definition admin_kept :: "db \<Rightarrow> db \<Rightarrow> bool" where
  "admin_kept d d' \<longleftrightarrow> (is_set_up d \<longrightarrow> is_set_up d') \<and> (has_admin d \<longrightarrow> has_admin d') \<and>
     (is_set_up d' \<longrightarrow> is_set_up d \<or> has_admin d')"

lemma admin_kept_refl [simp]: "admin_kept d d"
  by (simp add: admin_kept_def)

lemma admin_kept_trans: "admin_kept a b \<Longrightarrow> admin_kept b c \<Longrightarrow> admin_kept a c"
  by (auto simp: admin_kept_def)

lemma admin_kept_settings: "settings d' = settings d \<Longrightarrow> (has_admin d \<Longrightarrow> has_admin d') \<Longrightarrow> admin_kept d d'"
  by (auto simp: admin_kept_def is_set_up_def)

lemma admin_kept_accounts: "same_accounts d d' \<Longrightarrow> admin_kept d d'"
  by (rule admin_kept_settings) (auto simp: same_accounts_def has_admin_def)

lemma other_admin:
  assumes "db_inv d" and "has_admin d"
    and i: "(\<exists>t\<in>set (users d). uID t = i \<and> uRole t \<noteq> RoleAdmin) \<or> \<not> isLastAdmin d"
  shows "\<exists>u\<in>set (users d). uRole u = RoleAdmin \<and> uID u \<noteq> i"
proof (rule ccontr)
  assume "\<not> ?thesis"
  then have all: "\<forall>u\<in>set (filter (\<lambda>u. uRole u = RoleAdmin) (users d)). uID u = i" by auto
  have dist: "distinct (map uID (users d))" using assms(1) by (simp add: db_inv_def users_inv_def keyed_def)
  have "distinct (map uID (filter (\<lambda>u. uRole u = RoleAdmin) (users d)))"
    using dist by (rule distinct_map_filter)
  then have "distinct (map (\<lambda>u. i) (filter (\<lambda>u. uRole u = RoleAdmin) (users d)))"
    using all by (metis (no_types, lifting) map_eq_conv)
  then have "length (filter (\<lambda>u. uRole u = RoleAdmin) (users d)) \<le> 1"
    by (cases "filter (\<lambda>u. uRole u = RoleAdmin) (users d)"; cases "tl (filter (\<lambda>u. uRole u = RoleAdmin) (users d))") auto
  then have "isLastAdmin d" by (simp add: isLastAdmin_def CountAdmins_def)
  with i obtain t where "t \<in> set (users d)" "uID t = i" "uRole t \<noteq> RoleAdmin" by blast
  moreover obtain u where "u \<in> set (users d)" "uRole u = RoleAdmin" using assms(2) by (auto simp: has_admin_def list_ex_iff)
  ultimately show False using all dist by (auto simp: distinct_map inj_on_def)
qed

lemma has_admin_audit [simp]: "has_admin (audit_as now d u a e i) = has_admin d"
  by (simp add: has_admin_def)

lemma handleSetupComplete_admin: "handleSetupComplete env now rnd d r = (d', out) \<Longrightarrow> admin_kept d d'"
  by (auto simp: handleSetupComplete_def put_settings_def CreateUser_def SetSetting_def db_after_def Let_def admin_kept_def
      has_admin_def is_set_up_def simp del: has_key_iff split: sum.splits bool.splits option.splits if_splits)

lemma handleCreateUser_admin: "handleCreateUser env now rnd u d r = (d', out) \<Longrightarrow> admin_kept d d'"
  by (auto simp: handleCreateUser_def CreateUser_def Let_def has_admin_def simp del: has_key_iff
      intro!: admin_kept_settings split: sum.splits option.splits if_splits)

lemma has_admin_same_roles:
  assumes "\<And>u. uRole (f u) = uRole u"
  shows "has_admin (d\<lparr>users := update_rows P f (users d), sessions := ss\<rparr>) = has_admin d"
proof -
  have "map uRole (update_rows P f (users d)) = map uRole (users d)" using assms by (rule map_update_rows)
  then have "uRole ` set (update_rows P f (users d)) = uRole ` set (users d)" by (metis set_map)
  then show ?thesis unfolding has_admin_def list_ex_iff by (simp add: image_def set_eq_iff) metis
qed

lemma UpdateUserPassword_admin: "UpdateUserPassword d i h = Inr (d', x) \<Longrightarrow> settings d' = settings d \<and> has_admin d' = has_admin d"
  by (auto simp: UpdateUserPassword_def has_admin_same_roles simp del: has_key_iff split: if_splits)

lemma handleSetUserPassword_admin: "handleSetUserPassword env now rnd u d seg r = (d', out) \<Longrightarrow> admin_kept d d'"
  by (auto simp: handleSetUserPassword_def intro!: admin_kept_settings dest: UpdateUserPassword_admin
      split: sum.splits option.splits if_splits)

lemma handleChangeOwnPassword_admin: "handleChangeOwnPassword env now rnd u d r = (d', out) \<Longrightarrow> admin_kept d d'"
  by (auto simp: handleChangeOwnPassword_def intro!: admin_kept_settings dest: UpdateUserPassword_admin
      split: sum.splits option.splits if_splits verdict.splits bool.splits)

text \<open>The two operations that can take the role away check for the last administrator.\<close>

lemma UpdateUserRole_admin:
  assumes inv: "db_inv d" and t: "UserByID d i = Inr t" and up: "UpdateUserRole d i role = Inr (d', x)"
    and ok: "uRole t \<noteq> RoleAdmin \<or> role = RoleAdmin \<or> \<not> isLastAdmin d"
  shows "admin_kept d d'"
proof (rule admin_kept_settings)
  have d': "d' = d\<lparr>users := update_rows (\<lambda>u. uID u = i) (uRole_update (\<lambda>_. role)) (users d)\<rparr>"
    using up by (auto simp: UpdateUserRole_def simp del: has_key_iff split: if_splits)
  then show "settings d' = settings d" by simp
  assume adm: "has_admin d"
  have row: "t \<in> set (users d)" "uID t = i" using t UserByID_iff [OF inv] by auto
  show "has_admin d'"
  proof (cases "role = RoleAdmin")
    case True
    then have "uRole_update (\<lambda>_. role) t \<in> set (users d')" "uRole (uRole_update (\<lambda>_. role) t) = RoleAdmin"
      using row by (auto simp: d' set_update_rows)
    then show ?thesis unfolding has_admin_def list_ex_iff by blast
  next
    case False
    then obtain u where "u \<in> set (users d)" "uRole u = RoleAdmin" "uID u \<noteq> i"
      using other_admin [OF inv adm, of i] ok row by blast
    then have "u \<in> set (users d')" "uRole u = RoleAdmin" by (auto simp: d' set_update_rows image_iff)
    then show ?thesis by (auto simp: has_admin_def list_ex_iff)
  qed
qed

lemma DeleteUser_admin:
  assumes inv: "db_inv d" and t: "UserByID d i = Inr t" and del: "DeleteUser d i = Inr (d', x)"
    and ok: "uRole t \<noteq> RoleAdmin \<or> \<not> isLastAdmin d"
  shows "admin_kept d d'"
proof (rule admin_kept_settings)
  have d': "settings d' = settings d" "users d' = delete_rows (\<lambda>u. uID u = i) (users d)"
    using del by (auto simp: DeleteUser_def simp del: has_key_iff split: if_splits)
  then show "settings d' = settings d" by simp
  assume adm: "has_admin d"
  have row: "t \<in> set (users d)" "uID t = i" using t UserByID_iff [OF inv] by auto
  then obtain u where "u \<in> set (users d)" "uRole u = RoleAdmin" "uID u \<noteq> i"
    using other_admin [OF inv adm, of i] ok by blast
  then show "has_admin d'" by (auto simp: d'(2) has_admin_def list_ex_iff)
qed

lemma audit_kept: "admin_kept d e \<Longrightarrow> admin_kept d (audit_as now e u a en i)"
  by (erule admin_kept_trans) (rule admin_kept_accounts, simp add: same_accounts_def)

lemma handleUpdateUser_admin: "db_inv d \<Longrightarrow> handleUpdateUser now u d seg r = (d', out) \<Longrightarrow> admin_kept d d'"
  by (auto simp: handleUpdateUser_def Let_def intro!: audit_kept intro: UpdateUserRole_admin
      split: sum.splits option.splits if_splits)

lemma handleDeleteUser_admin: "db_inv d \<Longrightarrow> handleDeleteUser now u d seg = (d', out) \<Longrightarrow> admin_kept d d'"
  by (auto simp: handleDeleteUser_def intro!: audit_kept intro: DeleteUser_admin
      split: sum.splits option.splits if_splits)

lemma put_settings_frame:
  "users (fold (\<lambda>(k, v) d. db_after d (SetSetting d k v)) kvs d) = users d \<and>
   (k \<notin> fst ` set kvs \<longrightarrow> settings (fold (\<lambda>(k, v) d. db_after d (SetSetting d k v)) kvs d) k = settings d k)"
  by (induction kvs arbitrary: d) (auto simp: SetSetting_def db_after_def)

lemma handlePutNetworkConfig_admin: "handlePutNetworkConfig now u d r = (d', out) \<Longrightarrow> admin_kept d d'"
proof -
  have "admin_kept d (fold (\<lambda>(k, v) d. db_after d (SetSetting d k v)) (network_settings cfg) d)" for cfg
  proof -
    have "SettingSetupCompleted \<notin> fst ` set (network_settings cfg)" by (simp add: network_settings_def)
    with put_settings_frame [where kvs = "network_settings cfg" and d = d] show ?thesis
      by (simp add: admin_kept_def has_admin_def is_set_up_def)
  qed
  then show "handlePutNetworkConfig now u d r = (d', out) \<Longrightarrow> admin_kept d d'"
    by (auto simp: handlePutNetworkConfig_def simp del: fold.simps intro!: audit_kept split: option.splits)
qed

lemma only_host_accounts: "only_host i d d' \<Longrightarrow> same_accounts d d'"
proof -
  assume "only_host i d d'"
  then have d': "d' = d\<lparr>hosts := hosts d', next_host := next_host d', installs := installs d'\<rparr>" by (simp only: only_host_def)
  have "users d' = users d" "settings d' = settings d" by (subst d', simp)+
  then show ?thesis by (simp add: same_accounts_def)
qed

lemma boot_admin: "\<exists>i. only_host i d d' \<Longrightarrow> admin_kept d d'"
  by (elim exE) (rule admin_kept_accounts, rule only_host_accounts)

lemma guarded_admin:
  assumes inv: "db_inv (svDB s)" and g: "serve_guarded env mo ep vars u sess s r = (s', out)"
  shows "admin_kept (svDB s) (svDB s')"
proof (cases "core_endpoint ep")
  case False
  then show ?thesis using serve_guarded_side [OF g] side_core same_core_accounts admin_kept_accounts by blast
next
  case True
  then show ?thesis using g inv
    by (cases ep) (auto simp: on_db_eq dest: handleChangeOwnPassword_admin handleCreateUser_admin handleUpdateUser_admin
        handleSetUserPassword_admin handleDeleteUser_admin handlePutNetworkConfig_admin
        CreateInstallation_accounts [THEN admin_kept_accounts] DeleteInstallation_accounts [THEN admin_kept_accounts]
        DeleteHost_accounts [THEN admin_kept_accounts])
qed

lemma open_admin:
  assumes inv: "db_inv (svDB s)" and g: "serve_open env mo ep vars s r = (s', out)"
  shows "admin_kept (svDB s) (svDB s')"
  using g
proof (cases rule: serve_open_cases)
  case login
  then show ?thesis using side_core same_core_accounts admin_kept_accounts by blast
next
  case (first_run d')
  then show ?thesis by (auto dest: handleSetupComplete_admin)
next
  case (script b d')
  then show ?thesis using handleScript_writes [OF inv script(3)] boot_admin by (cases "d' = svDB s") auto
next
  case (report b d')
  then show ?thesis using handleReport_writes [OF inv report(3)] boot_admin by (cases "d' = svDB s") auto
qed simp

lemma serve_admin: "db_inv (svDB s) \<Longrightarrow> serve env mo s r = (s', out) \<Longrightarrow> admin_kept (svDB s) (svDB s')"
  by (erule serve_cases) (auto dest: open_admin guarded_admin)

lemma server_step_admin:
  assumes "db_inv (svDB s)"
  shows "admin_kept (svDB s) (svDB (server_step env s ev))"
proof (cases ev)
  case (Request mo r)
  then show ?thesis using serve_admin [OF assms, of env mo r] by (cases "serve env mo s r") simp
qed (auto simp: db_after_def leaseAdapter_def dest: side_single side_core intro!: admin_kept_accounts same_core_accounts
      split: sum.splits)

lemma server_run_admin:
  assumes "db_inv (svDB s)"
  shows "admin_kept (svDB s) (svDB (server_run env s evs))"
  unfolding server_run_def
  by (rule api.run_keeps [where P = "admin_kept (svDB s)"])
     (auto intro: admin_kept_trans server_step_admin assms)

section \<open>Installations under way\<close>

definition single_active :: "db \<Rightarrow> bool" where
  "single_active d \<longleftrightarrow> (\<forall>n\<in>set (installs d). \<forall>m\<in>set (installs d).
     install_active n \<and> install_active m \<and> inHostID n = inHostID m \<longrightarrow> n = m)"

lemma single_active_subset: "single_active d \<Longrightarrow> set (installs d') \<subseteq> set (installs d) \<Longrightarrow> single_active d'"
  by (auto simp: single_active_def)

lemma single_active_core: "same_core d d' \<Longrightarrow> single_active d \<Longrightarrow> single_active d'"
  by (simp add: same_core_def single_active_def)

lemma forward_active: "install_forward n n' \<Longrightarrow> install_active n' \<Longrightarrow> install_active n \<and> inHostID n' = inHostID n"
  by (auto simp: install_forward_def same_install_def)

lemma single_active_forward:
  assumes inv: "db_inv d" and one: "single_active d" and fwd: "list_all2 install_forward (installs d) (installs d')"
  shows "single_active d'"
  unfolding single_active_def
proof (intro ballI impI)
  fix n m assume nm: "n \<in> set (installs d')" "m \<in> set (installs d')"
    and act: "install_active n \<and> install_active m \<and> inHostID n = inHostID m"
  have len: "length (installs d') = length (installs d)" using fwd by (simp add: list_all2_lengthD)
  obtain i j where i: "i < length (installs d)" "installs d' ! i = n" and j: "j < length (installs d)" "installs d' ! j = m"
    using nm len by (auto simp: in_set_conv_nth)
  have f: "install_forward (installs d ! i) n" "install_forward (installs d ! j) m"
    using fwd i j by (auto dest: list_all2_nthD)
  then have "installs d ! i = installs d ! j"
    using one act i(1) j(1) forward_active [OF f(1)] forward_active [OF f(2)] by (auto simp: single_active_def)
  then have "i = j"
    using installs_distinct [OF inv] i(1) j(1) nth_eq_iff_index_eq [of "map inID (installs d)" i j] by simp
  with i(2) j(2) show "n = m" by simp
qed

lemma ActiveInstallation_none:
  "ActiveInstallationForHost d h = Inl e \<Longrightarrow> n \<in> set (installs d) \<Longrightarrow> inHostID n = h \<Longrightarrow> \<not> install_active n"
  by (auto simp: ActiveInstallationForHost_def found_def find_None_iff split: option.splits)

lemma plan_installation_idle:
  assumes "plan_installation d req = Inr (host, ver)"
  shows "ActiveInstallationForHost d (hID host) = Inl ErrNotFound"
  using assms by (auto simp: plan_installation_def split: option.splits sum.splits if_splits)

lemma queue_installation_row:
  assumes "queue_installation now rnd u d plan = (d', out)" and "d' \<noteq> d"
  obtains inst where "installs d' = installs d @ [inst]" and "inHostID inst = hID (fst plan)"
  using assms
  by (auto simp: queue_installation_def CreateInstallation_def Let_def simp del: has_key_iff
      split: option.splits sum.splits if_splits)

lemma handleCreateInstallation_single:
  assumes one: "single_active d" and h: "handleCreateInstallation now rnd u d r = (d', out)"
  shows "single_active d'"
proof (cases "d' = d")
  case False
  obtain req host ver where p: "plan_installation d req = Inr (host, ver)"
    and q: "queue_installation now rnd u d (host, ver) = (d', out)"
    using h False by (auto simp: handleCreateInstallation_def split: option.splits sum.splits)
  obtain inst where inst: "installs d' = installs d @ [inst]" "inHostID inst = hID host"
    using queue_installation_row [OF q False] by auto
  have "\<not> install_active n" if "n \<in> set (installs d)" "inHostID n = hID host" for n
    using ActiveInstallation_none [OF plan_installation_idle [OF p]] that by blast
  with inst one show ?thesis by (auto simp: single_active_def)
qed (simp add: one)

lemma handleDeleteInstallation_single: "handleDeleteInstallation now u d seg = (d', out) \<Longrightarrow> set (installs d') \<subseteq> set (installs d)"
  by (auto simp: handleDeleteInstallation_def DeleteInstallation_def split: option.splits sum.splits if_splits)

lemma handleDeleteHost_single: "handleDeleteHost now u d seg = (d', out) \<Longrightarrow> set (installs d') \<subseteq> set (installs d)"
  by (auto simp: handleDeleteHost_def DeleteHost_def simp del: has_key_iff split: option.splits sum.splits if_splits)

text \<open>The account and settings handlers leave the installations alone.\<close>

lemma SetSetting_installs: "installs (fold (\<lambda>(k, v) d. db_after d (SetSetting d k v)) kvs d) = installs d"
  by (induction kvs arbitrary: d) (auto simp: SetSetting_def db_after_def)

lemma account_handlers_installs:
  "handleSetupComplete env now rnd d r = (d', out) \<Longrightarrow> installs d' = installs d"
  "handleChangeOwnPassword env now rnd u d r = (d', out) \<Longrightarrow> installs d' = installs d"
  "handleCreateUser env now rnd u d r = (d', out) \<Longrightarrow> installs d' = installs d"
  "handleUpdateUser now u d seg r = (d', out) \<Longrightarrow> installs d' = installs d"
  "handleSetUserPassword env now rnd u d seg r = (d', out) \<Longrightarrow> installs d' = installs d"
  "handleDeleteUser now u d seg = (d', out) \<Longrightarrow> installs d' = installs d"
  "handlePutNetworkConfig now u d r = (d', out) \<Longrightarrow> installs d' = installs d"
  by (auto simp: handleSetupComplete_def handleChangeOwnPassword_def handleCreateUser_def handleUpdateUser_def
      handleSetUserPassword_def handleDeleteUser_def handlePutNetworkConfig_def CreateUser_def UpdateUserRole_def
      UpdateUserPassword_def DeleteUser_def put_settings_def SetSetting_installs Let_def
      simp del: has_key_iff fold.simps split: option.splits sum.splits if_splits bool.splits verdict.splits)

lemma guarded_single:
  assumes one: "single_active (svDB s)" and g: "serve_guarded env mo ep vars u sess s r = (s', out)"
  shows "single_active (svDB s')"
proof (cases "core_endpoint ep")
  case False
  then show ?thesis using serve_guarded_side [OF g] side_core single_active_core one by blast
next
  case True
  have same: "installs d' = installs (svDB s) \<Longrightarrow> single_active d'" for d'
    using one by (simp add: single_active_def)
  note sub = single_active_subset [OF one]
  show ?thesis using True g
    by (cases ep) (auto simp: on_db_eq dest: account_handlers_installs [THEN same]
        handleCreateInstallation_single [OF one] handleDeleteInstallation_single [THEN sub] handleDeleteHost_single [THEN sub])
qed

lemma handleScript_forward:
  assumes "db_inv d" and "handleScript env now d r = (d', out)"
  shows "list_all2 install_forward (installs d) (installs d')"
proof (cases "NormalizeMAC (rqQuery r ''mac'')")
  case (Inl e)
  with assms show ?thesis by (simp add: handleScript_def)
next
  case (Inr mac)
  from handleScript_effect [OF assms(1) Inr assms(2)] show ?thesis by metis
qed

lemma handleReport_forward:
  assumes "db_inv d" and "handleReport env now d token r = (d', out)"
  shows "list_all2 install_forward (installs d) (installs d')"
proof (cases "d' = d")
  case False
  from handleReport_effect [OF assms False] show ?thesis by metis
qed simp

lemma open_single:
  assumes inv: "db_inv (svDB s)" and one: "single_active (svDB s)" and g: "serve_open env mo ep vars s r = (s', out)"
  shows "single_active (svDB s')"
  using g
proof (cases rule: serve_open_cases)
  case login
  then show ?thesis using side_core single_active_core one by blast
next
  case (first_run d')
  then show ?thesis using one account_handlers_installs(1) [OF first_run(3)] by (simp add: single_active_def)
next
  case (script b d')
  then show ?thesis using single_active_forward [OF inv one handleScript_forward [OF inv script(3)]] by simp
next
  case (report b d')
  then show ?thesis using single_active_forward [OF inv one handleReport_forward [OF inv report(3)]] by simp
qed (simp add: one)

lemma server_step_single:
  assumes inv: "db_inv (svDB s)" and one: "single_active (svDB s)"
  shows "single_active (svDB (server_step env s ev))"
proof (cases ev)
  case (Request mo r)
  obtain s' out where s: "serve env mo s r = (s', out)" by (cases "serve env mo s r")
  then have "single_active (svDB s')"
    by (cases rule: serve_cases) (auto simp: one dest: open_single [OF inv one] guarded_single [OF one])
  with Request s show ?thesis by simp
qed (use one in \<open>auto simp: db_after_def leaseAdapter_def dest: side_single side_core single_active_core
      split: sum.splits\<close>)

section \<open>Permissions\<close>

text \<open>The request carries the cookie and the CSRF token of an unexpired session of this user.\<close>

definition authenticated :: "instant \<Rightarrow> db \<Rightarrow> request \<Rightarrow> User \<Rightarrow> bool" where
  "authenticated now d r u \<longleftrightarrow> u \<in> set (users d) \<and>
     (\<exists>s\<in>set (sessions d). sUserID s = uID u \<and> rqCookie r = Some (sToken s) \<and> now < sExpiresAt s \<and>
        rqCSRFHeader r = sCSRFToken s)"

lemma require_authenticated:
  assumes "db_inv d" and "require now d least r = Inr (u, s)" and "mutating (rqMethod r)"
  shows "authenticated now d r u \<and> AtLeast (uRole u) least"
proof -
  obtain t where "rqCookie r = Some t" "SessionByToken d t now = Inr s" "UserByID d (sUserID s) = Inr u"
      "AtLeast (uRole u) least" "rqCSRFHeader r = sCSRFToken s"
    using assms(2,3) by (auto simp: require_def split: option.splits sum.splits if_splits)
  then show ?thesis
    using session_of_token [OF assms(1)] UserByID_iff [OF assms(1)] by (auto simp: authenticated_def)
qed

text \<open>
  What the role of a user permits: everything to an administrator; to an operator what leaves
  accounts, settings and the data directory alone; to everyone to end the session and to change
  the own password.
\<close>

definition user_may :: "server \<Rightarrow> server \<Rightarrow> request \<Rightarrow> User \<Rightarrow> bool" where
  "user_may s s' r u \<longleftrightarrow>
     AtLeast (uRole u) RoleAdmin \<or>
     AtLeast (uRole u) RoleOperator \<and> same_accounts (svDB s) (svDB s') \<and> svDisk s' = svDisk s \<or>
     rqPath r = [''api'', ''v1'', ''auth'', ''logout''] \<and> s' = s\<lparr>svDB := (svDB s)\<lparr>sessions := sessions (svDB s')\<rparr>\<rparr> \<or>
     rqPath r = [''api'', ''v1'', ''auth'', ''password''] \<and>
     (\<exists>h. users (svDB s') = update_rows (\<lambda>v. uID v = uID u) (uPasswordHash_update (\<lambda>_. h)) (users (svDB s))) \<and>
     s' = s\<lparr>svDB := (svDB s)\<lparr>users := users (svDB s'), sessions := sessions (svDB s'), audit := audit (svDB s')\<rparr>\<rparr>"

text \<open>What needs no session: the set-up of an instance that was not set up, a login, which only adds a
  session or an audit entry, and a boot request, which only touches the rows of one machine.\<close>

definition anyone_may :: "server \<Rightarrow> server \<Rightarrow> request \<Rightarrow> bool" where
  "anyone_may s s' r \<longleftrightarrow>
     (rqPath r = [''api'', ''v1'', ''setup''] \<and> SetupCompleted (svDB s) = Inr False \<and> s' = s\<lparr>svDB := svDB s'\<rparr>) \<or>
     (rqPath r = [''api'', ''v1'', ''auth'', ''login''] \<and>
        svDB s' = (svDB s)\<lparr>sessions := sessions (svDB s'), audit := audit (svDB s')\<rparr>) \<or>
     ((\<exists>i. only_host i (svDB s) (svDB s')) \<and> s' = s\<lparr>svDB := svDB s'\<rparr> \<and>
        (rqPath r = [''boot'', ''ipxe''] \<or> (\<exists>token. rqPath r = [''boot'', ''report'', token])))"

lemma open_authorized:
  assumes inv: "db_inv (svDB s)" and route: "find_route (routes env) r = Some (Open ep, vars)"
    and o: "serve_open env mo ep vars s r = (s', out)" and ch: "svDB s' \<noteq> svDB s \<or> svLibrary s' \<noteq> svLibrary s \<or> svDisk s' \<noteq> svDisk s"
  shows "anyone_may s s' r"
  using o
proof (cases rule: serve_open_cases)
  case same
  with ch show ?thesis by simp
next
  case login
  from o login(1) obtain l' where
    "handleLogin (seAuth env) (moNow mo) (moRandom mo) (svLimiter s, svDB s) r = ((l', svDB s'), out)"
    by (auto split: prod.splits)
  with open_route(1) [OF route login(1)] show ?thesis unfolding anyone_may_def using handleLogin_writes by blast
next
  case (first_run d')
  then have "SetupCompleted (svDB s) = Inr False"
    using ch by (intro handleSetupComplete_first [OF first_run(3)]) auto
  with open_route(2) [OF route first_run(1)] first_run(2) show ?thesis by (simp add: anyone_may_def)
next
  case (script b d')
  then have "\<exists>i. only_host i (svDB s) d'" using ch by (intro handleScript_writes [OF inv script(3)]) auto
  with open_route(3) [OF route script(1)] script(2) show ?thesis by (simp add: anyone_may_def)
next
  case (report b d')
  then have "\<exists>i. only_host i (svDB s) d'" using ch by (intro handleReport_writes [OF inv report(3)]) auto
  with open_route(4) [OF route report(1)] report(2) show ?thesis by (simp add: anyone_may_def)
qed

lemma logout_permitted:
  assumes "serve_guarded env mo OnLogout vars u sess s r = (s', out)" and "rqPath r = [''api'', ''v1'', ''auth'', ''logout'']"
  shows "user_may s s' r u"
proof -
  obtain d' where d': "handleLogout (svDB s) sess = (d', out)" "s' = s\<lparr>svDB := d'\<rparr>"
    using assms(1) by (auto simp: on_db_eq)
  have e: "(svDB s)\<lparr>sessions := sessions (svDB s')\<rparr> = d'"
    using handleLogout_writes [OF d'(1)] unfolding d'(2) svDB_put by (rule sym)
  have "s' = s\<lparr>svDB := (svDB s)\<lparr>sessions := sessions (svDB s')\<rparr>\<rparr>" unfolding e by (rule d'(2))
  with assms(2) show ?thesis unfolding user_may_def by blast
qed

lemma password_permitted:
  assumes g: "serve_guarded env mo OnChangeOwnPassword vars u sess s r = (s', out)" and ch: "svDB s' \<noteq> svDB s"
    and path: "rqPath r = [''api'', ''v1'', ''auth'', ''password'']"
  shows "user_may s s' r u"
proof -
  obtain d' where d': "handleChangeOwnPassword (seAuth env) (moNow mo) (moRandom mo) u (svDB s) r = (d', out)"
      "s' = s\<lparr>svDB := d'\<rparr>"
    using g by (auto simp: on_db_eq)
  with ch have "d' \<noteq> svDB s" by auto
  then obtain h where h: "users d' = update_rows (\<lambda>v. uID v = uID u) (uPasswordHash_update (\<lambda>_. h)) (users (svDB s))"
      "d' = (svDB s)\<lparr>users := users d', sessions := sessions d', audit := audit d'\<rparr>"
    using handleChangeOwnPassword_writes [OF d'(1)] by blast
  have e: "(svDB s)\<lparr>users := users (svDB s'), sessions := sessions (svDB s'), audit := audit (svDB s')\<rparr> = d'"
    using h(2) unfolding d'(2) svDB_put by (rule sym)
  have "s' = s\<lparr>svDB := (svDB s)\<lparr>users := users (svDB s'), sessions := sessions (svDB s'), audit := audit (svDB s')\<rparr>\<rparr>"
    unfolding e by (rule d'(2))
  moreover have "users (svDB s') = update_rows (\<lambda>v. uID v = uID u) (uPasswordHash_update (\<lambda>_. h)) (users (svDB s))"
    using h(1) d'(2) by simp
  ultimately show ?thesis using path unfolding user_may_def by metis
qed

lemma guarded_authorized:
  assumes inv: "db_inv (svDB s)" and route: "find_route (routes env) r = Some (Guarded least ep, vars)"
    and req: "require (moNow mo) (svDB s) least r = Inr (u, sess)" and g: "serve_guarded env mo ep vars u sess s r = (s', out)"
    and ch: "svDB s' \<noteq> svDB s \<or> svLibrary s' \<noteq> svLibrary s \<or> svDisk s' \<noteq> svDisk s"
  shows "authenticated (moNow mo) (svDB s) r u \<and> user_may s s' r u"
proof -
  obtain p where p: "least = required_role ep" "read_only ep \<or> mutating (rqMethod r)"
    "match_path (pattern_of p) (rqPath r) = Some vars"
    "ep = OnLogout \<longrightarrow> p = ''/api/v1/auth/logout''" "ep = OnChangeOwnPassword \<longrightarrow> p = ''/api/v1/auth/password''"
    using guarded_route [OF route] .
  have w: "\<not> read_only ep" using read_only_writes_nothing [OF g] ch by blast
  then have a: "authenticated (moNow mo) (svDB s) r u" "AtLeast (uRole u) (required_role ep)"
    using require_authenticated [OF inv req] p(1,2) by blast+
  consider "required_role ep = RoleAdmin" | "required_role ep = RoleOperator" | "ep = OnLogout" | "ep = OnChangeOwnPassword"
    using writing_role [OF w] by blast
  then have "user_may s s' r u"
  proof cases
    case 1
    with a(2) show ?thesis unfolding user_may_def by metis
  next
    case 2
    with operator_accounts [OF g] a(2) show ?thesis unfolding user_may_def by metis
  next
    case 3
    have "rqPath r = [''api'', ''v1'', ''auth'', ''logout'']"
      using p(3,4) 3 literal_patterns(1) match_literals by metis
    with g 3 show ?thesis using logout_permitted by blast
  next
    case 4
    have path: "rqPath r = [''api'', ''v1'', ''auth'', ''password'']"
      using p(3,5) 4 literal_patterns(2) match_literals by metis
    have "svDB s' \<noteq> svDB s" using g ch 4 by (auto simp: on_db_eq)
    then show ?thesis using password_permitted g 4 path by blast
  qed
  with a(1) show ?thesis by simp
qed

section \<open>Properties\<close>

text \<open>C1: Authorization.  A request that changes the database or a file was allowed to: it carries the
  cookie and the CSRF token of a user whose role permits that change, or it is one of the three
  kinds of request that need no session.\<close>

theorem api_authorization:
  assumes inv: "db_inv (svDB s)" and s: "serve env mo s r = (s', out)"
    and ch: "svDB s' \<noteq> svDB s \<or> svLibrary s' \<noteq> svLibrary s \<or> svDisk s' \<noteq> svDisk s"
  shows "(\<exists>u. authenticated (moNow mo) (svDB s) r u \<and> user_may s s' r u) \<or> anyone_may s s' r"
  using s
proof (cases rule: serve_cases)
  case same
  with ch show ?thesis by simp
next
  case (open_ep ep vars out')
  with open_authorized [OF inv _ _ ch] show ?thesis by blast
next
  case (guarded least ep vars u sess out')
  with guarded_authorized [OF inv _ _ _ ch] show ?thesis by blast
qed

text \<open>C3: An administrator always remains.  Once an instance that started empty is set up, it has an
  administrator and stays set up, whatever requests, clean-ups and DHCP writes follow, and the
  set-up, which asks for no login, is refused from then on.\<close>

theorem administrator_remains:
  assumes "svDB s = empty_db" and "SetupCompleted (svDB (server_run env s before)) = Inr True"
    and "s2 = server_run env (server_run env s before) later"
  shows "SetupCompleted (svDB s2) = Inr True \<and> (\<exists>u\<in>set (users (svDB s2)). uRole u = RoleAdmin) \<and>
    handleSetupComplete (seAuth env) now rnd (svDB s2) r = (svDB s2, writeError 409 ''setup.already_completed'')"
proof -
  let ?s1 = "server_run env s before"
  have inv: "db_inv (svDB s)" by (simp add: assms(1) empty_db_inv)
  have "\<not> is_set_up (svDB s)" by (simp add: assms(1) is_set_up_def empty_db_def)
  then have "is_set_up (svDB ?s1)" "has_admin (svDB ?s1)"
    using server_run_admin [OF inv, of env before] assms(2) by (simp_all add: admin_kept_def SetupCompleted_iff)
  then have "is_set_up (svDB s2)" "has_admin (svDB s2)"
    using server_run_admin [OF server_run_inv [OF inv], of env before env later]
    by (simp_all add: admin_kept_def assms(3))
  moreover have "SetupCompleted (svDB s2) = Inr True" using calculation(1) by (simp add: SetupCompleted_iff)
  ultimately show ?thesis by (simp add: has_admin_def list_ex_iff handleSetupComplete_def)
qed

lemma server_run_single:
  "db_inv (svDB s) \<Longrightarrow> single_active (svDB s) \<Longrightarrow> single_active (svDB (server_run env s evs))"
  unfolding server_run_def by (rule api.run_keeps) (rule server_step_single)

lemma distinct_all_equal:
  assumes "distinct xs" and "\<And>x y. x \<in> set xs \<Longrightarrow> y \<in> set xs \<Longrightarrow> x = y"
  shows "length xs \<le> 1"
proof -
  have "card (set xs) \<le> Suc 0" unfolding card_le_Suc0_iff_eq [OF finite_set] using assms(2) by blast
  then show ?thesis using assms(1) by (simp add: distinct_card)
qed

text \<open>C6: One installation at a time.  Whatever requests, clean-ups and DHCP writes an instance that started
  empty has served one after the other, no machine has more than one installation that waits or
  runs.\<close>

theorem one_installation_per_host:
  "length (filter (\<lambda>n. install_active n \<and> inHostID n = h)
     (installs (svDB (server_run env (NewServer empty_db lib files obs) evs)))) \<le> 1"
proof -
  let ?s = "NewServer empty_db lib files obs" let ?s' = "server_run env ?s evs"
  have inv: "db_inv (svDB ?s)" "single_active (svDB ?s)"
    by (simp_all add: NewServer_def empty_db_inv single_active_def) (simp add: empty_db_def)
  have "distinct (installs (svDB ?s'))"
    using installs_distinct [OF server_run_inv [OF inv(1)]] by (simp add: distinct_map)
  with server_run_single [OF inv, of env evs] show ?thesis
    by (intro distinct_all_equal) (auto simp: single_active_def)
qed

text \<open>The check and the insertion are separate statements: two requests that both check before either
  inserts leave two installations under way.\<close>

lemma concurrent_requests_queue_two:
  assumes p: "plan_installation d req = Inr plan"
    and q1: "queue_installation now rnd u d plan = (d1, out1)" "d1 \<noteq> d"
    and q2: "queue_installation now rnd' u' d1 plan = (d2, out2)" "d2 \<noteq> d1"
  shows "\<exists>n m. installs d2 = installs d @ [n, m] \<and> inHostID n = inHostID m"
  using queue_installation_row [OF q1] queue_installation_row [OF q2] by (metis append.assoc append_Cons append_Nil)

text \<open>Routing is unambiguous.  No request matches two routes of the API and the boot surface, so the
  order of the table does not matter and no route shadows one with another guard.\<close>

theorem routes_unambiguous:
  assumes "(m, p, t) \<in> set (api_routes @ boot_routes)" and "(m', p', t') \<in> set (api_routes @ boot_routes)"
    and "match_method m meth" and "match_method m' meth"
    and "match_path (pattern_of p) path = Some vs" and "match_path (pattern_of p') path = Some ws"
  shows "(m, p, t) = (m', p', t')"
proof -
  let ?rs = "api_routes @ boot_routes"
  let ?ps = "map (\<lambda>(m, p, t). (m, pattern_of p)) ?rs"
  obtain i j where i: "i < length ?rs" "?rs ! i = (m, p, t)" and j: "j < length ?rs" "?rs ! j = (m', p', t')"
    using assms(1,2) unfolding in_set_conv_nth by blast
  have n: "?ps ! i = (m, pattern_of p)" "?ps ! j = (m', pattern_of p')" 
    unfolding nth_map [OF i(1)] nth_map [OF j(1)] i(2) j(2) by simp_all
  have "m \<in> {''GET'', ''POST'', ''PUT'', ''DELETE''}" "m' \<in> {''GET'', ''POST'', ''PUT'', ''DELETE''}"
    using table_methods assms(1,2) by (auto simp: list_all_iff)
  then have "m = m'" using assms(3,4) by (auto simp: match_method_def)
  moreover have "overlap (pattern_of p) (pattern_of p')" "overlap (pattern_of p') (pattern_of p)"
    using match_overlap assms(5,6) by blast+
  ultimately have "\<not> i < j" "\<not> j < i"
    using unambiguous_nth [OF table_unambiguous, of i j] unambiguous_nth [OF table_unambiguous, of j i] i(1) j(1)
    unfolding length_map n by auto
  then have "i = j" by simp
  with i(2) j(2) show ?thesis by simp
qed

section \<open>Witnesses\<close>

definition sample_server_env :: server_env where
  "sample_server_env = \<lparr>seVersion = ''1'', seOpenAPISpec = '''', seStaticFiles = None, seBoot = Some sample_boot_env,
     seISOs = None, seBackup = None, seUnpack = (\<lambda>_. NotGzip), seDatabasePath = ''/data/helboot.db'',
     seAuth = sample_auth_env,
     seProfiles = \<lparr>peRegistry = beRegistry sample_boot_env, peRender = beRender sample_boot_env, peValid = (\<lambda>_. True), peCompact = (\<lambda>s. s)\<rparr>,
     seAssetsDir = ''/assets'', seAssets = (\<lambda>_. http_NotFound)\<rparr>"

definition sample_moment :: moment where
  "sample_moment = \<lparr>moNow = 5, moRandom = (\<lambda>_. Some ''salt''), moRing = None, moEntries = [], moFiles = (\<lambda>_. None)\<rparr>"

definition sample_post :: "string list \<Rightarrow> json \<Rightarrow> request" where
  "sample_post segs v = \<lparr>rqMethod = ''POST'', rqPath = segs, rqQuery = (\<lambda>_. ''''), rqHost = '''',
     rqRemoteAddr = ''10.0.0.9:1234'', rqCookie = Some ''t'', rqCSRFHeader = ''c'', rqBody = Some v, rqUpload = NotMultipart\<rparr>"

lemma sample_routes:
  "find_route (routes sample_server_env) (sample_post [''api'', ''v1'', ''auth'', ''logout''] JNull) = Some (Guarded RoleViewer OnLogout, [])"
  "find_route (routes sample_server_env) (sample_post [''api'', ''v1'', ''setup''] v) = Some (Open OnSetupComplete, [])"
  by (simp_all add: routes_def sample_server_env_def sample_post_def api_routes_def pattern_of_def segment_of_def
      has_prefix_def has_suffix_def match_method_def)

definition sample_server :: server where
  "sample_server = NewServer sample_db Map.empty Map.empty None"

abbreviation "sample_logout \<equiv> sample_post [''api'', ''v1'', ''auth'', ''logout''] JNull"

lemma sample_require: "require 5 sample_db RoleViewer sample_logout = Inr (sample_user, sample_session)"
  by (simp add: require_def SessionByToken_def UserByID_def found_def row_by_def sample_post_def sample_defs AtLeast_def
      roleRank_def)

lemma sample_serve_logout:
  "\<exists>out. serve sample_server_env sample_moment sample_server sample_logout =
     (sample_server\<lparr>svDB := sample_db\<lparr>sessions := []\<rparr>\<rparr>, out)"
proof -
  have "handleLogout sample_db sample_session =
      (sample_db\<lparr>sessions := []\<rparr>, Reply 200 (Object [(''loggedOut'', VBool True)]) (Some (sessionCookie '''' (- hour))))"
    by (simp add: handleLogout_def DeleteSession_def delete_rows_def sample_db_def)
  moreover have "svDB sample_server = sample_db" "moNow sample_moment = 5"
    by (simp_all add: sample_server_def NewServer_def sample_moment_def)
  ultimately show ?thesis
    by (simp add: serve_def dispatch_def sample_routes sample_require on_db_def recoverPanics_def)
qed

theorem api_authorization_witness:
  "\<exists>s' out. serve sample_server_env sample_moment sample_server sample_logout = (s', out) \<and>
     svDB s' \<noteq> svDB sample_server \<and> (\<exists>u. authenticated 5 sample_db sample_logout u)"
proof -
  obtain out where s: "serve sample_server_env sample_moment sample_server sample_logout =
     (sample_server\<lparr>svDB := sample_db\<lparr>sessions := []\<rparr>\<rparr>, out)" using sample_serve_logout by blast
  have db: "svDB sample_server = sample_db" "moNow sample_moment = 5"
    by (simp_all add: sample_server_def NewServer_def sample_moment_def)
  have "sessions sample_db \<noteq> []" by (simp add: sample_db_def)
  moreover have "sessions (sample_db\<lparr>sessions := []\<rparr>) = []" by simp
  ultimately have ne: "sample_db\<lparr>sessions := []\<rparr> \<noteq> sample_db" by metis
  have path: "rqPath sample_logout = [''api'', ''v1'', ''auth'', ''logout'']" by (simp add: sample_post_def)
  have "\<exists>u. authenticated 5 sample_db sample_logout u"
    using api_authorization [OF _ s] sample_db_inv ne by (auto simp: db anyone_may_def path)
  with s ne show ?thesis by (auto simp: db)
qed

definition sample_setup_body :: json where
  "sample_setup_body = JObj [(''language'', [], JStr ''en''),
     (''admin'', [], JObj [(''username'', [], JStr ''anna''), (''password'', [], JStr ''correct horse'')]),
     (''network'', [], JObj [(''mode'', [], JStr ''dhcp'')])]"

abbreviation "sample_setup \<equiv> sample_post [''api'', ''v1'', ''setup''] sample_setup_body"

lemma sample_setup_decoded:
  "decodeJSON decode_setup sample_setup =
   Some \<lparr>srLanguage = ''en'', srUsername = ''anna'', srPassword = ''correct horse'', srMode = ''dhcp''\<rparr>"
  by (simp add: decodeJSON_def decode_setup_def decode_struct_def find_field_def json_string_def json_struct_def
      sample_post_def sample_setup_body_def)

lemma sample_set_up:
  "SetupCompleted (svDB (server_run sample_server_env (NewServer empty_db Map.empty Map.empty None)
     [Request sample_moment sample_setup])) = Inr True"
proof -
  let ?s = "NewServer empty_db Map.empty Map.empty None"
  obtain h where h: "HashPassword (aeIDKey sample_auth_env) (Some ''salt'') ''correct horse'' = Some h"
    by (simp add: HashPassword_def sample_idkey_def sample_auth_env_def)
  have rnd: "moRandom sample_moment 0 = Some ''salt''" "seAuth sample_server_env = sample_auth_env" "svDB ?s = empty_db"
    by (simp_all add: sample_moment_def sample_server_env_def NewServer_def)
  have fresh: "SetupCompleted empty_db = Inr False"
    by (simp add: SetupCompleted_def GetSetting_def found_def empty_db_def)
  have "is_set_up (fst (handleSetupComplete sample_auth_env (moNow sample_moment) (moRandom sample_moment) empty_db sample_setup))"
    by (simp add: handleSetupComplete_def fresh sample_setup_decoded rnd h CreateUser_def Role_Valid_def Let_def put_settings_def
        SetSetting_def db_after_def is_set_up_def) (simp add: empty_db_def)
  then show ?thesis
    by (simp add: SetupCompleted_iff server_run_def serve_def dispatch_def sample_routes on_db_def recoverPanics_def rnd
        split: outcome.splits prod.splits)
qed

theorem administrator_remains_witness:
  "\<exists>s2. s2 = server_run sample_server_env (server_run sample_server_env (NewServer empty_db Map.empty Map.empty None)
       [Request sample_moment sample_setup]) [Housekeeping 9, Request sample_moment sample_logout] \<and>
     SetupCompleted (svDB s2) = Inr True \<and> (\<exists>u\<in>set (users (svDB s2)). uRole u = RoleAdmin)"
proof -
  have "svDB (NewServer empty_db Map.empty Map.empty None) = empty_db" by (simp add: NewServer_def)
  from administrator_remains [OF this sample_set_up refl, of "[Housekeeping 9, Request sample_moment sample_logout]" 0 "\<lambda>_. None" sample_setup]
  show ?thesis by blast
qed

theorem routes_unambiguous_witness:
  "{t. \<exists>p vs. (''GET'', p, t) \<in> set (api_routes @ boot_routes) \<and>
       match_path (pattern_of p) [''api'', ''v1'', ''hosts'', ''7''] = Some vs} = {Guarded RoleViewer OnGetHost}" (is "?S = _")
proof
  have v: "match_path (pattern_of ''/api/v1/hosts/{id}'') [''api'', ''v1'', ''hosts'', ''7''] = Some [''7'']"
    by code_simp
  have r: "(''GET'', ''/api/v1/hosts/{id}'', Guarded RoleViewer OnGetHost) \<in> set (api_routes @ boot_routes)"
    by (simp add: api_routes_def)
  show "{Guarded RoleViewer OnGetHost} \<subseteq> ?S" using r v by blast
  have "t = Guarded RoleViewer OnGetHost"
    if "(''GET'', p, t) \<in> set (api_routes @ boot_routes)" "match_path (pattern_of p) [''api'', ''v1'', ''hosts'', ''7''] = Some vs"
    for p t vs
    using routes_unambiguous [OF that(1) r _ _ that(2) v, of "''GET''"] by (simp add: match_method_def)
  then show "?S \<subseteq> {Guarded RoleViewer OnGetHost}" by blast
qed

end
