(* ===== verification/API_Facts.thy ===== *)
theory API_Facts
  imports Profile_API System_API Boot_Facts
begin

text \<open>
  What the handlers for profiles and for the network configuration promise the user interface.
\<close>

section \<open>Answer files\<close>

text \<open>The answer file of a version of a profile: \<open>None\<close> when there is no template at all.\<close>

definition answer_text :: "render_env \<Rightarrow> Manifest \<Rightarrow> ProfileVersion \<Rightarrow> Params \<Rightarrow> (render_error + string) option" where
  "answer_text re m ver params =
     (if pvAnswerOverride ver \<noteq> '''' then Some (Render re (pvAnswerOverride ver) (pvConfig ver) params)
      else if mfAnswerTemplate m = '''' then None
      else Some (RenderFile re (Join [mfDir m, Clean (''/'' @ mfAnswerTemplate m)]) (pvConfig ver) params))"

definition preview_reply :: "Manifest \<Rightarrow> ProfileVersion \<Rightarrow> (render_error + string) option \<Rightarrow> outcome" where
  "preview_reply m ver t =
     (case t of
        None \<Rightarrow> writeError 404 ''profile.no_answer_file''
      | Some (Inl RenderPanic) \<Rightarrow> Panic
      | Some (Inl RenderFailed) \<Rightarrow> writeError 422 ''profile.answer_render_failed''
      | Some (Inr out) \<Rightarrow> writeJSON 200 (Object [(''format'', VStr (mfAnswerFormat m)), (''content'', VStr out),
          (''overridden'', VBool (pvAnswerOverride ver \<noteq> ''''))]))"

definition boot_reply :: "(render_error + string) option \<Rightarrow> outcome" where
  "boot_reply t =
     (case t of
        None \<Rightarrow> http_Error ''provider has no answer file'' 404
      | Some (Inl RenderPanic) \<Rightarrow> Panic
      | Some (Inl RenderFailed) \<Rightarrow> http_Error ''answer file rendering failed'' 500
      | Some (Inr out) \<Rightarrow> http_OK out)"

lemma context_rows:
  assumes "contextByToken b d token = Some ic"
  shows "ProfileByID d (pvProfileID (icVersion ic)) = Inr (icProfile ic)"
    and "icVersion ic \<in> set (versions d)"
    and "Get (beRegistry b) (pfProvider (icProfile ic)) = Some (icManifest ic)"
  using assms
  by (auto simp: contextByToken_def loadInstallContext_def ProfileVersionByID_def found_def dest: row_by_Some
      split: option.splits sum.splits context_lookup.splits)

lemma handleAnswerFile_text:
  assumes "contextByToken b d token = Some ic" and "mfDir (icManifest ic) \<noteq> ''''"
  shows "handleAnswerFile b d token r =
    boot_reply (answer_text (beRender b) (icManifest ic) (icVersion ic) (answerParams (baseURL r) ic))"
  using assms
  by (auto simp: handleAnswerFile_def Let_def boot_reply_def answer_text_def template_path_def
      split: sum.splits render_error.splits option.splits)

lemma handleAnswerPreview_text:
  assumes "profileVersionFromPath d seg verseg = Inr (p, ver)" and "Get (peRegistry env) (pfProvider p) = Some m"
  shows "handleAnswerPreview env d seg verseg = preview_reply m ver (answer_text (peRender env) m ver previewParams)"
  using assms
  by (auto simp: handleAnswerPreview_def preview_reply_def answer_text_def os_IsNotExist_def
      split: sum.splits render_error.splits option.splits)

lemma version_from_path:
  assumes inv: "db_inv d" and v: "v \<in> set (versions d)" and p: "ProfileByID d (pvProfileID v) = Inr p"
    and seg: "pathID seg = Some (pvProfileID v)" and ver: "Atoi verseg = (pvVersion v, False)"
  shows "profileVersionFromPath d seg verseg = Inr (p, v)"
proof -
  have row: "p \<in> set (profiles d)" "pfID p = pvProfileID v"
    using p by (auto simp: ProfileByID_def found_def dest: row_by_Some split: option.splits)
  then have "pvVersion v \<ge> 1"
    using inv v by (auto simp: db_inv_def versions_inv_def newest_heads_def)
  moreover have "distinct (map pv_key (versions d))" using inv by (simp add: db_inv_def versions_inv_def)
  ultimately show ?thesis
    using row_by_distinct [of pv_key "versions d" v] v p seg ver row(2)
    by (simp add: profileVersionFromPath_def ProfileVersionNumber_def found_def pv_key_def)
qed

section \<open>Configurations\<close>

lemma validProfileConfig_None:
  "validProfileConfig env m raw = None \<longleftrightarrow>
   (case reUnmarshal (peRender env) raw of
      DecodeError \<Rightarrow> False
    | DecodeNull \<Rightarrow> ValidateConfig (mfSettingsSchema m) Map.empty = Some []
    | DecodeObject doc \<Rightarrow> ValidateConfig (mfSettingsSchema m) doc = Some [])"
  by (auto simp: validProfileConfig_def split: decoded.splits option.splits list.splits)

section \<open>Network\<close>

lemma put_settings_read:
  "distinct (map fst kvs) \<Longrightarrow> (k, v) \<in> set kvs \<Longrightarrow>
   settings (fold (\<lambda>(k, v) d. db_after d (SetSetting d k v)) kvs d) k = Some v"
proof (induction kvs arbitrary: d)
  case (Cons a kvs)
  obtain k' v' where a: "a = (k', v')" by (cases a)
  have other: "k' \<notin> fst ` set ks \<Longrightarrow> settings (fold (\<lambda>(k, v) d. db_after d (SetSetting d k v)) ks d) k' = settings d k'" for d ks
    by (induction ks arbitrary: d) (auto simp: SetSetting_def db_after_def)
  show ?case
  proof (cases "(k, v) \<in> set kvs")
    case True
    with Cons a show ?thesis by simp
  next
    case False
    with Cons.prems a have "k = k'" "v = v'" "k' \<notin> fst ` set kvs" by auto
    with other [of kvs] a show ?thesis by (simp add: SetSetting_def db_after_def)
  qed
qed simp

lemma network_settings_distinct: "distinct (map fst (network_settings cfg))"
  by (simp add: network_settings_def)

lemma network_config_read:
  assumes "min_int64 \<le> ncLeaseMinutes cfg" and "ncLeaseMinutes cfg \<le> max_int64"
    and "d' = audit_as now (fold (\<lambda>(k, v) d. db_after d (SetSetting d k v)) (network_settings cfg) d) u a e i"
  shows "readNetworkConfig d' = cfg"
proof -
  have "getSetting d' k = v" if "(k, v) \<in> set (network_settings cfg)" for k v
    using put_settings_read [OF network_settings_distinct that, of d] assms(3)
    by (simp add: getSetting_def GetSetting_def found_def)
  then show ?thesis
    using Atoi_int_str [OF assms(1,2)] by (simp add: readNetworkConfig_def network_settings_def)
qed

text \<open>What every field setter keeps, a decoded struct has.\<close>

definition setter_keeps :: "('r \<Rightarrow> bool) \<Rightarrow> (string \<Rightarrow> json \<Rightarrow> 'r \<Rightarrow> 'r option) \<Rightarrow> bool" where
  "setter_keeps P upd \<longleftrightarrow> (\<forall>raw v x y. P x \<longrightarrow> upd raw v x = Some y \<longrightarrow> P y)"

lemma decode_members_keeps:
  "list_all (\<lambda>f. setter_keeps P (snd f)) fs \<Longrightarrow> decode_members fs ms r = Some r' \<Longrightarrow> P r \<Longrightarrow> P r'"
proof (induction fs ms r rule: decode_members.induct)
  case (2 fs k raw v ms r)
  then obtain n upd where f: "find_field fs k = Some (n, upd)" by (auto split: option.splits)
  then have "(n, upd) \<in> set fs"
    by (auto simp: find_field_def find_Some_iff split: option.splits) (metis nth_mem)+
  then have k: "setter_keeps P upd" using 2 by (auto simp: list_all_iff)
  obtain r1 where r1: "upd raw v r = Some r1" using "2.prems" f by (auto split: option.splits)
  then have "P r1" using k "2.prems"(3) by (auto simp: setter_keeps_def)
  then show ?case using "2.IH" [OF f refl r1] "2.prems" f r1 by simp
qed simp

lemma decode_struct_keeps:
  "list_all (\<lambda>f. setter_keeps P (snd f)) fs \<Longrightarrow> decode_struct fs r v = Some r' \<Longrightarrow> P r \<Longrightarrow> P r'"
  by (cases v) (auto simp: decode_struct_def dest: decode_members_keeps)

lemma struct_keeps:
  assumes "list_all (\<lambda>f. setter_keeps P (snd f)) fs"
  shows "setter_keeps P (json_struct fs)"
  unfolding setter_keeps_def [of P "json_struct fs"] json_struct_def
proof (intro allI impI)
  fix raw v x y assume p: "P x" and d: "decode_struct fs x v = Some y"
  show "P y" by (rule decode_struct_keeps [OF assms d p])
qed

lemma string_keeps: "(\<And>s r. P r \<Longrightarrow> P (sel s r)) \<Longrightarrow> setter_keeps P (json_string sel)"
  by (auto simp: setter_keeps_def json_string_def split: json.splits)

lemma int_keeps:
  "(\<And>i r. min_int64 \<le> i \<Longrightarrow> i \<le> max_int64 \<Longrightarrow> P r \<Longrightarrow> P (num i r)) \<Longrightarrow> setter_keeps P (json_int num)"
  by (auto simp: setter_keeps_def json_int_def split: json.splits if_splits)

text \<open>A decoded number fits into 64 bits.\<close>

definition int64_lease :: "networkConfig \<Rightarrow> bool" where
  "int64_lease cfg \<longleftrightarrow> min_int64 \<le> ncLeaseMinutes cfg \<and> ncLeaseMinutes cfg \<le> max_int64"

lemma decode_network_range:
  assumes "decode_network v = Some cfg"
  shows "int64_lease cfg"
  using assms unfolding decode_network_def
proof (rule decode_struct_keeps [rotated])
  show "int64_lease blank_network" by (simp add: int64_lease_def blank_network_def)
qed (simp add: struct_keeps string_keeps int_keeps int64_lease_def)

section \<open>Properties\<close>

text \<open>C20: The preview is the answer file.  The preview of a profile version and the answer file a machine
  gets for an installation of that version are the same text of the template and configuration,
  one rendered with the example parameters, the other with those of the machine.\<close>

theorem preview_matches_boot:
  assumes inv: "db_inv d" and ic: "contextByToken b d token = Some ic"
    and env: "peRegistry env = beRegistry b" "peRender env = beRender b" "mfDir (icManifest ic) \<noteq> ''''"
    and path: "pathID seg = Some (pvProfileID (icVersion ic))" "Atoi verseg = (pvVersion (icVersion ic), False)"
  shows "handleAnswerPreview env d seg verseg =
      preview_reply (icManifest ic) (icVersion ic) (answer_text (beRender b) (icManifest ic) (icVersion ic) previewParams) \<and>
    handleAnswerFile b d token r =
      boot_reply (answer_text (beRender b) (icManifest ic) (icVersion ic) (answerParams (baseURL r) ic))"
proof -
  note rows = context_rows [OF ic]
  have "profileVersionFromPath d seg verseg = Inr (icProfile ic, icVersion ic)"
    by (rule version_from_path [OF inv rows(2,1) path])
  then have "handleAnswerPreview env d seg verseg =
      preview_reply (icManifest ic) (icVersion ic) (answer_text (beRender b) (icManifest ic) (icVersion ic) previewParams)"
    using handleAnswerPreview_text [of d seg verseg "icProfile ic" "icVersion ic" env "icManifest ic"] rows(3) env by simp
  then show ?thesis using handleAnswerFile_text [OF ic env(3)] by simp
qed

text \<open>C39: Saved is read back.  A network configuration the API accepts is, field by field, the one it
  returns afterwards, and it passed the checks on mode, addresses and lease time.\<close>

theorem network_config_round_trip:
  assumes "handlePutNetworkConfig now u d r = (d', Reply 200 p c)"
  obtains cfg where "decodeJSON decode_network r = Some cfg" and "check_network cfg = None"
    and "handleGetNetworkConfig d' = writeJSON 200 (network_json cfg)"
proof -
  obtain cfg where cfg: "decodeJSON decode_network r = Some cfg" "check_network cfg = None"
      "d' = audit_as now (fold (\<lambda>(k, v) d. db_after d (SetSetting d k v)) (network_settings cfg) d) u
         ''network.update_config'' ''settings'' 0"
    using assms
    by (auto simp: handlePutNetworkConfig_def check_network_def reply_defs simp del: fold.simps
        split: option.splits if_splits)
  have "int64_lease cfg" using cfg(1) decode_network_range by (auto simp: decodeJSON_def split: option.splits)
  then have "readNetworkConfig d' = cfg"
    using network_config_read cfg(3) by (simp add: int64_lease_def)
  with cfg show thesis by (intro that) (simp_all add: handleGetNetworkConfig_def)
qed

definition sample_preview_env :: boot_env where
  "sample_preview_env = sample_boot_env\<lparr>beRegistry := [(''debian'', sample_manifest\<lparr>mfDir := ''/p/debian''\<rparr>)]\<rparr>"

definition sample_profile_env :: profile_env where
  "sample_profile_env = \<lparr>peRegistry = beRegistry sample_preview_env, peRender = beRender sample_preview_env,
     peValid = (\<lambda>_. True), peCompact = (\<lambda>s. s)\<rparr>"

theorem preview_matches_boot_witness:
  "\<exists>ic. contextByToken sample_preview_env sample_boot_db ''tok'' = Some ic \<and>
     handleAnswerPreview sample_profile_env sample_boot_db ''1'' ''1'' =
       preview_reply (icManifest ic) (icVersion ic)
         (answer_text (beRender sample_preview_env) (icManifest ic) (icVersion ic) previewParams)"
proof -
  obtain ic where ic: "contextByToken sample_preview_env sample_boot_db ''tok'' = Some ic"
      "mfDir (icManifest ic) = ''/p/debian''" "icVersion ic = sample_version"
    by (auto simp: contextByToken_def InstallationByToken_def HostByID_def loadInstallContext_def found_def row_by_def
        ActiveInstallationForHost_def ProfileVersionByID_def ProfileByID_def ISOByID_def Get_def install_active_def
        sample_boot_defs sample_boot_env_def sample_preview_env_def)
  have "Atoi ''1'' = (1, False)" by code_simp
  then have path: "pathID ''1'' = Some (pvProfileID (icVersion ic))" "Atoi ''1'' = (pvVersion (icVersion ic), False)"
    unfolding ic(3) by (simp_all add: pathID_def sample_version_def)
  have "handleAnswerPreview sample_profile_env sample_boot_db ''1'' ''1'' =
      preview_reply (icManifest ic) (icVersion ic)
        (answer_text (beRender sample_preview_env) (icManifest ic) (icVersion ic) previewParams)"
    using preview_matches_boot [OF sample_boot_inv ic(1), of sample_profile_env "''1''" "''1''" sample_request] path ic(2)
    by (simp add: sample_profile_env_def)
  with ic(1) show ?thesis by blast
qed

definition sample_network :: request where
  "sample_network = sample_login\<lparr>rqBody := Some (JObj [(''mode'', [], JStr ''proxy_dhcp''),
     (''dhcp'', [], JObj [(''leaseMinutes'', [], JInt 30)])])\<rparr>"

lemma sample_network_decoded:
  "decodeJSON decode_network sample_network = Some (blank_network\<lparr>ncMode := ''proxy_dhcp'', ncLeaseMinutes := 30\<rparr>)"
  by (simp add: sample_network_def decodeJSON_def decode_network_def decode_struct_def find_field_def json_string_def
      json_struct_def json_int_def blank_network_def)

theorem network_config_round_trip_witness:
  "\<exists>d' p c. handlePutNetworkConfig 0 sample_user sample_db sample_network = (d', Reply 200 p c) \<and>
     handleGetNetworkConfig d' =
       writeJSON 200 (network_json (blank_network\<lparr>ncMode := ''proxy_dhcp'', ncLeaseMinutes := 30\<rparr>))"
proof -
  have "check_network (blank_network\<lparr>ncMode := ''proxy_dhcp'', ncLeaseMinutes := 30\<rparr>) = None"
    by (simp add: check_network_def blank_network_def)
  then obtain d' p c where h: "handlePutNetworkConfig 0 sample_user sample_db sample_network = (d', Reply 200 p c)"
    by (simp add: handlePutNetworkConfig_def sample_network_decoded writeJSON_def)
  obtain cfg where "decodeJSON decode_network sample_network = Some cfg"
      "handleGetNetworkConfig d' = writeJSON 200 (network_json cfg)"
    by (rule network_config_round_trip [OF h])
  then show ?thesis using h by (simp add: sample_network_decoded)
qed

lemma UpdateProfile_current:
  assumes inv: "db_inv d" and p0: "ProfileByID d i = Inr p0" and u: "UpdateProfile now d i name isoID (Some c) nv = Inr (d', p)"
  shows "\<exists>v. ProfileVersionNumber d' i (pfCurrentVersion p) = Inr v \<and> pvConfig v = c"
proof -
  note eff = UpdateProfile_effect [OF inv p0 u]
  have row: "row_by pfID i (profiles d) = Some p0" using p0 by (auto simp: ProfileByID_def found_def split: option.splits)
  have dist: "distinct (map pv_key (versions d'))"
    using UpdateProfile_inv [OF inv u] by (simp add: db_inv_def versions_inv_def)
  obtain v where "v \<in> set (versions d')" "pv_key v = (i, pfCurrentVersion p)" "pvConfig v = c"
  proof (cases nv)
    case True
    then obtain v where "versions d' = versions d @ [v]" "pv_key v = (i, pfCurrentVersion p)" "pvConfig v = c"
      using eff by auto
    then show thesis using that [of v] by simp
  next
    case False
    then obtain v where cur: "pfCurrentVersion p = pfCurrentVersion p0" and v: "head_version d i = Some v"
        and d': "versions d' = update_rows (\<lambda>w. pvID w = pvID v) (pvConfig_update (\<lambda>_. c)) (versions d)"
      using eff by auto
    have v': "v \<in> set (versions d)" "pv_key v = (i, pfCurrentVersion p0)"
      using v row row_by_Some [of pv_key "(i, pfCurrentVersion p0)" "versions d" v] by (auto simp: head_version_def)
    have "v\<lparr>pvConfig := c\<rparr> \<in> set (versions d')" using v'(1) by (auto simp: d' set_update_rows image_iff)
    then show thesis using that [of "v\<lparr>pvConfig := c\<rparr>"] v'(2) cur by (simp add: pv_key_def)
  qed
  then show ?thesis using row_by_distinct [OF dist, of v] by (auto simp: ProfileVersionNumber_def found_def)
qed

text \<open>C19: Saved configurations are valid.  A profile update the API accepts had a configuration that passes
  the settings schema of the profile's provider, and the current version of the profile now holds
  exactly that configuration.\<close>

theorem accepted_config_is_current:
  assumes inv: "db_inv d" and h: "handleUpdateProfile env now u d seg r = (d', Reply 200 b ck)"
    and req: "decodeJSON decode_update_profile r = Some req" "uprConfig req \<noteq> ''''"
    and old: "pathID seg = Some i" "ProfileByID d i = Inr existing" "Get (peRegistry env) (pfProvider existing) = Some m"
  shows "validProfileConfig env m (uprConfig req) = None \<and>
    (\<exists>p v. b = ProfileBody p \<and> ProfileVersionNumber d' i (pfCurrentVersion p) = Inr v \<and> pvConfig v = uprConfig req)"
proof -
  have code: "validProfileConfig env m c \<noteq> Some (Reply 200 b k)" for c b k
    by (auto simp: validProfileConfig_def reply_defs split: decoded.splits option.splits list.splits)
  obtain d1 p where valid: "validProfileConfig env m (uprConfig req) = None"
    and up: "UpdateProfile now d i (uprName req) (uprISOID req) (Some (uprConfig req)) (uprSaveAsNewVersion req) = Inr (d1, p)"
    and d': "versions d' = versions d1" "b = ProfileBody p"
    using h req old code
    by (auto simp: handleUpdateProfile_def reply_defs split: option.splits sum.splits if_splits)
  obtain v where "ProfileVersionNumber d1 i (pfCurrentVersion p) = Inr v" "pvConfig v = uprConfig req"
    using UpdateProfile_current [OF inv old(2) up] by blast
  then show ?thesis using valid d' by (auto simp: ProfileVersionNumber_def)
qed

text \<open>Importing a document does not check the schema: any JSON text becomes the configuration.\<close>

lemma import_skips_schema:
  assumes "decodeJSON decode_document r = Some \<lparr>pdType = ''helboot-profile'', pdVersion = 1, pdName = n, pdProvider = prov, pdConfig = c\<rparr>"
    and "n \<noteq> ''''" and "c \<noteq> ''''" and "peValid env c" and "Get (peRegistry env) prov = Some m"
    and "validProfileConfig env m c = Some out"
    and "CreateProfile now d n prov None c = Inr (d1, p)"
  shows "snd (handleImportProfile env now u d r) = writeJSON 201 (ProfileBody p)"
  using assms by (simp add: handleImportProfile_def)

definition sample_update :: request where
  "sample_update = sample_login\<lparr>rqBody := Some (JObj [(''name'', [], JStr ''q''), (''config'', ''{}'', JObj []),
     (''saveAsNewVersion'', [], JBool True)])\<rparr>"

lemma sample_update_decoded:
  "decodeJSON decode_update_profile sample_update =
   Some \<lparr>uprName = ''q'', uprISOID = None, uprConfig = ''{}'', uprSaveAsNewVersion = True\<rparr>"
  by (simp add: sample_update_def decodeJSON_def decode_update_profile_def decode_struct_def find_field_def
      json_string_def json_raw_def json_bool_def)

theorem accepted_config_is_current_witness:
  "\<exists>d' p v. handleUpdateProfile sample_profile_env 0 sample_user sample_db ''1'' sample_update = (d', writeJSON 200 (ProfileBody p)) \<and>
     ProfileVersionNumber d' 1 (pfCurrentVersion p) = Inr v \<and> pvConfig v = ''{}''"
proof -
  have seg: "pathID ''1'' = Some 1" by code_simp
  have row: "ProfileByID sample_db 1 = Inr sample_profile"
    by (simp add: ProfileByID_def found_def row_by_def sample_db_def sample_profile_def)
  have m: "Get (peRegistry sample_profile_env) (pfProvider sample_profile) = Some (sample_manifest\<lparr>mfDir := ''/p/debian''\<rparr>)"
    by (simp add: Get_def sample_profile_env_def sample_preview_env_def sample_profile_def)
  have valid: "validProfileConfig sample_profile_env (sample_manifest\<lparr>mfDir := ''/p/debian''\<rparr>) ''{}'' = None"
    by (simp add: validProfileConfig_def sample_profile_env_def sample_preview_env_def sample_boot_env_def
        sample_manifest_def)
  obtain d1 p where u: "UpdateProfile 0 sample_db 1 ''q'' None (Some ''{}'') True = Inr (d1, p)"
    by (simp add: UpdateProfile_def taken_by_other_def iso_ref_ok_def appendProfileVersion_def max_version_def
        pv_key_def ProfileByID_def found_def row_by_def update_rows_def Let_def sample_defs)
  obtain d' where h: "handleUpdateProfile sample_profile_env 0 sample_user sample_db ''1'' sample_update =
      (d', writeJSON 200 (ProfileBody p))"
    by (simp add: handleUpdateProfile_def seg row m valid u sample_update_decoded)
  from h have "handleUpdateProfile sample_profile_env 0 sample_user sample_db ''1'' sample_update =
      (d', Reply 200 (ProfileBody p) None)" by (simp add: writeJSON_def)
  from accepted_config_is_current [OF sample_db_inv this sample_update_decoded _ seg row m]
  show ?thesis using h by auto
qed

end
