(* ===== verification/Migrations.thy ===== *)
theory Migrations
  imports Prelude "HOL-Library.List_Lexorder" "HOL-Library.Char_ord" "HOL-Library.Multiset"
begin

text \<open>
  \<open>Migrate\<close> of \<open>backend/internal/db/db.go\<close>: the embedded SQL files are applied in the order of
  their names, each at most once, each in a transaction of its own.  A schema is a value of any
  type and executing a file a partial function on it.
\<close>

record 's database =
  dbSchema :: 's
  dbApplied :: "string list"

text \<open>The embedded directory: names and contents.\<close>

type_synonym migration_fs = "(string \<times> string) list"

definition migrationNames :: "migration_fs \<Rightarrow> string list" where
  "migrationNames fs = sort (filter (\<lambda>n. has_suffix n ''.sql'') (map fst fs))"

definition isApplied :: "'s database \<Rightarrow> string \<Rightarrow> bool" where
  "isApplied d name \<longleftrightarrow> length (filter (\<lambda>v. v = name) (dbApplied d)) > 0"

text \<open>\<open>None\<close>: the transaction is rolled back.\<close>

definition apply_migration ::
    "(string \<Rightarrow> 's \<Rightarrow> 's option) \<Rightarrow> migration_fs \<Rightarrow> 's database \<Rightarrow> string \<Rightarrow> 's database option" where
  "apply_migration exec fs d name =
     (case map_of fs name of
        None \<Rightarrow> None
      | Some content \<Rightarrow>
          (case exec content (dbSchema d) of
             None \<Rightarrow> None
           | Some s \<Rightarrow> if name \<in> set (dbApplied d) then None
                       else Some (d\<lparr>dbSchema := s, dbApplied := dbApplied d @ [name]\<rparr>)))"

text \<open>The database afterwards, and the migration that failed if one did.\<close>

fun migrate_all ::
    "(string \<Rightarrow> 's \<Rightarrow> 's option) \<Rightarrow> migration_fs \<Rightarrow> string list \<Rightarrow> 's database \<Rightarrow> 's database \<times> string option" where
  "migrate_all exec fs [] d = (d, None)"
| "migrate_all exec fs (name # names) d =
     (if isApplied d name then migrate_all exec fs names d
      else case apply_migration exec fs d name of
             None \<Rightarrow> (d, Some name)
           | Some d' \<Rightarrow> migrate_all exec fs names d')"

definition Migrate ::
    "(string \<Rightarrow> 's \<Rightarrow> 's option) \<Rightarrow> migration_fs \<Rightarrow> 's database \<Rightarrow> 's database \<times> string option" where
  "Migrate exec fs d = migrate_all exec fs (migrationNames fs) d"

section \<open>Facts\<close>

lemma isApplied_iff [simp]: "isApplied d name \<longleftrightarrow> name \<in> set (dbApplied d)"
  by (auto simp: isApplied_def filter_empty_conv)

lemma apply_migration_applied:
  "apply_migration exec fs d name = Some d' \<Longrightarrow> dbApplied d' = dbApplied d @ [name]"
  by (auto simp: apply_migration_def split: option.splits if_splits)

text \<open>The specification: execute the files of the names one after the other.\<close>

fun execute :: "(string \<Rightarrow> 's \<Rightarrow> 's option) \<Rightarrow> migration_fs \<Rightarrow> string list \<Rightarrow> 's \<Rightarrow> 's option" where
  "execute exec fs [] s = Some s"
| "execute exec fs (n # ns) s =
     (case map_of fs n of
        None \<Rightarrow> None
      | Some c \<Rightarrow> (case exec c s of None \<Rightarrow> None | Some s' \<Rightarrow> execute exec fs ns s'))"

lemma migrate_all_prefix:
  assumes "distinct names" and "migrate_all exec fs names d = (d', failed)"
  shows "\<exists>ran. dbApplied d' = dbApplied d @ ran \<and> execute exec fs ran (dbSchema d) = Some (dbSchema d') \<and>
    (case failed of
       None \<Rightarrow> ran = filter (\<lambda>n. n \<notin> set (dbApplied d)) names
     | Some n \<Rightarrow> (\<exists>rest. filter (\<lambda>n. n \<notin> set (dbApplied d)) names = ran @ n # rest) \<and>
         execute exec fs [n] (dbSchema d') = None)"
  using assms
proof (induction names arbitrary: d)
  case Nil
  then show ?case by simp
next
  case (Cons n names)
  show ?case
  proof (cases "n \<in> set (dbApplied d)")
    case True
    have "\<exists>ran. dbApplied d' = dbApplied d @ ran \<and> execute exec fs ran (dbSchema d) = Some (dbSchema d') \<and>
      (case failed of
         None \<Rightarrow> ran = filter (\<lambda>n. n \<notin> set (dbApplied d)) names
       | Some n \<Rightarrow> (\<exists>rest. filter (\<lambda>n. n \<notin> set (dbApplied d)) names = ran @ n # rest) \<and>
         execute exec fs [n] (dbSchema d') = None)"
      using True Cons.prems by (intro Cons.IH) simp_all
    then show ?thesis using True by (auto simp del: execute.simps split: option.splits)
  next
    case new: False
    show ?thesis
    proof (cases "apply_migration exec fs d n")
      case None
      with Cons.prems new show ?thesis
        by (intro exI [of _ "[]"]) (auto simp: apply_migration_def split: option.splits if_splits)
    next
      case (Some d1)
      have d1: "dbApplied d1 = dbApplied d @ [n]" by (rule apply_migration_applied [OF Some])
      have s: "execute exec fs (n # r) (dbSchema d) = execute exec fs r (dbSchema d1)" for r
        using Some by (auto simp: apply_migration_def split: option.splits if_splits)
      have f: "filter (\<lambda>m. m \<noteq> n \<and> m \<notin> set (dbApplied d)) names = filter (\<lambda>m. m \<notin> set (dbApplied d)) names"
        using Cons.prems(1) by (intro filter_cong) auto
      obtain ran where "dbApplied d' = dbApplied d1 @ ran" "execute exec fs ran (dbSchema d1) = Some (dbSchema d')"
        "case failed of None \<Rightarrow> ran = filter (\<lambda>n. n \<notin> set (dbApplied d1)) names
         | Some n \<Rightarrow> (\<exists>rest. filter (\<lambda>n. n \<notin> set (dbApplied d1)) names = ran @ n # rest) \<and>
           execute exec fs [n] (dbSchema d') = None"
        using Cons.IH [of d1] Cons.prems new Some by auto
      then show ?thesis using new
        by (intro exI [of _ "n # ran"]) (auto simp: d1 s f simp del: execute.simps split: option.splits)
    qed
  qed
qed

section \<open>Properties\<close>

text \<open>C31: Migrations run in order and once.  The files whose names are missing, in the order of the names,
  split in those the run applied, one after the other, and the rest.  When the run succeeds there is
  no rest, and another run changes nothing.  When it fails, the rest begins with the migration it
  reports, and executing that one on the schema it leaves fails; nothing of it is kept.\<close>

theorem Migrate_exact:
  assumes "distinct (map fst fs)" and "Migrate exec fs d = (d', failed)"
  obtains applied rest where
    "sorted_list_of_set {n. n \<in> fst ` set fs \<and> has_suffix n ''.sql'' \<and> n \<notin> set (dbApplied d)} = applied @ rest"
    and "dbApplied d' = dbApplied d @ applied"
    and "execute exec fs applied (dbSchema d) = Some (dbSchema d')"
    and "case failed of
        None \<Rightarrow> rest = [] \<and> Migrate exec fs d' = (d', None)
      | Some n \<Rightarrow> (\<exists>later. rest = n # later) \<and> execute exec fs [n] (dbSchema d') = None"
proof -
  have dist: "distinct (migrationNames fs)" using assms(1) by (simp add: migrationNames_def)
  let ?todo = "filter (\<lambda>n. n \<notin> set (dbApplied d)) (migrationNames fs)"
  have "sorted ?todo" "distinct ?todo" using dist sorted_filter [of id "migrationNames fs"] by (simp_all add: migrationNames_def)
  then have "sorted_list_of_set (set ?todo) = ?todo" by (rule sorted_list_of_set.idem_if_sorted_distinct)
  moreover have "set ?todo = {n. n \<in> fst ` set fs \<and> has_suffix n ''.sql'' \<and> n \<notin> set (dbApplied d)}"
    by (auto simp: migrationNames_def)
  ultimately have todo: "sorted_list_of_set {n. n \<in> fst ` set fs \<and> has_suffix n ''.sql'' \<and> n \<notin> set (dbApplied d)} = ?todo"
    by simp
  obtain ran where ran: "dbApplied d' = dbApplied d @ ran" "execute exec fs ran (dbSchema d) = Some (dbSchema d')"
    "case failed of None \<Rightarrow> ran = ?todo
     | Some n \<Rightarrow> (\<exists>rest. ?todo = ran @ n # rest) \<and> execute exec fs [n] (dbSchema d') = None"
    using migrate_all_prefix [OF dist] assms(2) unfolding Migrate_def by blast
  show thesis
  proof (cases failed)
    case None
    then have "set (migrationNames fs) \<subseteq> set (dbApplied d')" using ran by auto
    then have "migrate_all exec fs ns d' = (d', None)" if "set ns \<subseteq> set (migrationNames fs)" for ns
      using that by (induction ns) auto
    then have "Migrate exec fs d' = (d', None)" by (simp add: Migrate_def)
    then show thesis using that [of ran "[]"] ran todo None by simp
  next
    case (Some n)
    then obtain rest where "?todo = ran @ n # rest" "execute exec fs [n] (dbSchema d') = None" using ran(3) by auto
    then show thesis using that [of ran "n # rest"] ran(1,2) todo Some by simp
  qed
qed

definition sample_exec :: "string \<Rightarrow> string \<Rightarrow> string option" where
  "sample_exec c s = (if c = ''bad'' then None else Some (s @ c))"

definition sample_migrations :: migration_fs where
  "sample_migrations = [(''2.sql'', ''B''), (''1.sql'', ''A''), (''x.txt'', ''C''), (''3.sql'', ''bad'')]"

lemma sample_Migrate:
  "Migrate sample_exec sample_migrations \<lparr>dbSchema = [], dbApplied = []\<rparr> =
   (\<lparr>dbSchema = ''AB'', dbApplied = [''1.sql'', ''2.sql'']\<rparr>, Some ''3.sql'')"
  by code_simp

theorem Migrate_exact_witness:
  "\<exists>d' applied rest. Migrate sample_exec sample_migrations \<lparr>dbSchema = [], dbApplied = []\<rparr> = (d', Some ''3.sql'') \<and>
     dbApplied d' = applied \<and> applied = [''1.sql'', ''2.sql''] \<and> (\<exists>later. rest = ''3.sql'' # later) \<and>
     execute sample_exec sample_migrations applied [] = Some (dbSchema d') \<and>
     execute sample_exec sample_migrations [''3.sql''] (dbSchema d') = None"
proof -
  have dist: "distinct (map fst sample_migrations)" by (simp add: sample_migrations_def)
  show ?thesis
  proof (rule Migrate_exact [OF dist sample_Migrate])
    fix applied rest
    assume a: "sorted_list_of_set {n. n \<in> fst ` set sample_migrations \<and> has_suffix n ''.sql'' \<and>
        n \<notin> set (dbApplied \<lparr>dbSchema = [] :: string, dbApplied = []\<rparr>)} = applied @ rest"
      and r: "dbApplied \<lparr>dbSchema = ''AB'', dbApplied = [''1.sql'', ''2.sql'']\<rparr> = dbApplied \<lparr>dbSchema = [] :: string, dbApplied = []\<rparr> @ applied"
        "execute sample_exec sample_migrations applied (dbSchema \<lparr>dbSchema = [], dbApplied = []\<rparr>) =
          Some (dbSchema \<lparr>dbSchema = ''AB'', dbApplied = [''1.sql'', ''2.sql'']\<rparr>)"
      and f: "case Some ''3.sql'' of
          None \<Rightarrow> rest = [] \<and> Migrate sample_exec sample_migrations \<lparr>dbSchema = ''AB'', dbApplied = [''1.sql'', ''2.sql'']\<rparr> =
            (\<lparr>dbSchema = ''AB'', dbApplied = [''1.sql'', ''2.sql'']\<rparr>, None)
        | Some n \<Rightarrow> (\<exists>later. rest = n # later) \<and>
            execute sample_exec sample_migrations [n] (dbSchema \<lparr>dbSchema = ''AB'', dbApplied = [''1.sql'', ''2.sql'']\<rparr>) = None"
    from r f show ?thesis
      by (intro exI [of _ "\<lparr>dbSchema = ''AB'', dbApplied = [''1.sql'', ''2.sql'']\<rparr>"] exI [of _ applied] exI [of _ rest])
        (simp add: sample_Migrate del: execute.simps)
  qed
qed

end
