(* ===== verification/Startup.thy ===== *)
theory Startup
  imports Server Backup Migrations Config
begin

text \<open>
  \<open>run\<close> of \<open>backend/cmd/helboot/main.go\<close> up to the start of the HTTP server, for what it decides: which
  files it opens and in which order.  A staged restore is applied before the database is opened,
  and the database is migrated before anything reads it.  \<open>open_db\<close> is SQLite: the schema and data
  in a file, a new database for no file, \<open>None\<close> when the file cannot be opened.
\<close>

datatype start_error = StartOpen | StartMigrate string | StartProviders

record 's start_env =
  stBackup :: backup_env
  stOpen :: "string option \<Rightarrow> 's database option"
  stExec :: "string \<Rightarrow> 's \<Rightarrow> 's option"
  stMigrations :: migration_fs
  stProviderFS :: files

text \<open>The directories \<open>run\<close> creates.\<close>

definition start_dirs :: "Config \<Rightarrow> string list" where
  "start_dirs cfg = [cfDataDir cfg, Join [cfDataDir cfg, ''isos''], Join [cfDataDir cfg, ''logs''],
     Join [AssetsPath cfg, ''tftp'']]"

text \<open>The data directory afterwards, and the database and registry the services get.\<close>

definition run_start ::
    "'s start_env \<Rightarrow> (string \<Rightarrow> string) \<Rightarrow> instant \<Rightarrow> disk \<Rightarrow> disk \<times> (start_error + 's database \<times> registry)" where
  "run_start env getenv now files =
     (let cfg = FromEnv getenv;
          files' = fst (ApplyPendingRestore ((stBackup env)\<lparr>bkDataDir := cfDataDir cfg\<rparr>) now files (DatabasePath cfg))
      in (files',
          case stOpen env (files' (DatabasePath cfg)) of
            None \<Rightarrow> Inl StartOpen
          | Some d \<Rightarrow>
              (case Migrate (stExec env) (stMigrations env) d of
                 (d', Some name) \<Rightarrow> Inl (StartMigrate name)
               | (d', None) \<Rightarrow>
                   (case LoadDirs (stProviderFS env) [cfProvidersDir cfg, Join [cfDataDir cfg, ''providers'']] of
                      None \<Rightarrow> Inl StartProviders
                    | Some reg \<Rightarrow> Inr (d', reg)))))"

section \<open>Properties\<close>

lemma Migrate_done:
  assumes "distinct (map fst fs)" and "Migrate exec fs d = (d', None)"
  shows "dbApplied d' = dbApplied d @ filter (\<lambda>n. n \<notin> set (dbApplied d)) (migrationNames fs)"
    and "execute exec fs (filter (\<lambda>n. n \<notin> set (dbApplied d)) (migrationNames fs)) (dbSchema d) = Some (dbSchema d')"
proof -
  have "distinct (migrationNames fs)" using assms(1) by (simp add: migrationNames_def)
  then have "dbApplied d' = dbApplied d @ filter (\<lambda>n. n \<notin> set (dbApplied d)) (migrationNames fs) \<and>
      execute exec fs (filter (\<lambda>n. n \<notin> set (dbApplied d)) (migrationNames fs)) (dbSchema d) = Some (dbSchema d')"
    using migrate_all_prefix [of "migrationNames fs" exec fs d d' None] assms(2) by (auto simp: Migrate_def)
  then show "dbApplied d' = dbApplied d @ filter (\<lambda>n. n \<notin> set (dbApplied d)) (migrationNames fs)"
    and "execute exec fs (filter (\<lambda>n. n \<notin> set (dbApplied d)) (migrationNames fs)) (dbSchema d) = Some (dbSchema d')"
    by simp_all
qed

text \<open>The database an archive carries, the last one if there are several.\<close>

definition is_database :: "string \<times> string option \<Rightarrow> bool" where
  "is_database e \<longleftrightarrow> Clean (fst e) = ''helboot.db''"

definition archive_database :: "archive \<Rightarrow> string option" where
  "archive_database a =
     (case a of
        NotGzip \<Rightarrow> None
      | Entries es ended \<Rightarrow> (if filter is_database es = [] then None else snd (last (filter is_database es))))"

lemma is_database_eq: "is_database (name, content) \<longleftrightarrow> Clean name = ''helboot.db''"
  by (simp add: is_database_def)

text \<open>What an accepted upload staged.\<close>

lemma import_entries_staged:
  assumes "import_entries env files sm sd es ended = (files1, None)"
  shows "if filter is_database es = [] then sd \<and> files1 = files
    else \<exists>c. snd (last (filter is_database es)) = Some c \<and> validateSQLite env c \<and>
      files1 = files(pendingPath (bkDataDir env) \<mapsto> c)"
  using assms
proof (induction env files sm sd es ended arbitrary: files1 rule: import_entries.induct)
  case (1 env files sm sd ended)
  then show ?case by (auto split: if_splits)
next
  case (2 env files sm sd name content es ended)
  consider "Clean name = ''manifest.json''" | "Clean name \<noteq> ''manifest.json''" "Clean name = ''helboot.db''"
    | "Clean name \<noteq> ''manifest.json''" "Clean name \<noteq> ''helboot.db''" by blast
  then show ?case
  proof cases
    case 1
    then obtain meta where "decodeManifest env content = Some meta" "\<not> maApplication meta \<noteq> ''helboot''"
      "import_entries env files True sd es ended = (files1, None)"
      using "2.prems" by (auto split: option.splits if_splits)
    moreover have other: "filter is_database ((name, content) # es) = filter is_database es"
      using 1 by (simp add: is_database_eq)
    ultimately show ?thesis unfolding other using "2.IH"(1) [OF 1, of meta files1] by blast
  next
    case 2
    then obtain c where c: "content = Some c" "validateSQLite env c"
      "import_entries env (files(pendingPath (bkDataDir env) \<mapsto> c)) sm True es ended = (files1, None)"
      using "2.prems" by (auto simp: stageDatabase_def split: option.splits if_splits)
    then have "stageDatabase env files content = Inr (files(pendingPath (bkDataDir env) \<mapsto> c))"
      by (simp add: stageDatabase_def)
    from "2.IH"(2) [OF 2 this c(3)] show ?thesis
      using c(1,2) 2(2) by (cases "filter is_database es = []") (auto simp: is_database_eq)
  next
    case 3
    then have other: "filter is_database ((name, content) # es) = filter is_database es"
      by (simp add: is_database_eq)
    have "import_entries env files sm sd es ended = (files1, None)" using 3 "2.prems" by simp
    then show ?thesis unfolding other by (rule "2.IH"(3) [OF 3])
  qed
qed

lemma import_staged:
  assumes "backup_Import env files a = (files1, None)"
  obtains c where "archive_database a = Some c" and "validateSQLite env c"
    and "files1 = files(pendingPath (bkDataDir env) \<mapsto> c)"
proof (cases a)
  case (Entries es ended)
  with assms have "import_entries env files False False es ended = (files1, None)" by (simp add: backup_Import_def)
  from import_entries_staged [OF this] that show thesis by (auto simp: archive_database_def Entries split: if_splits)
qed (use assms in \<open>simp add: backup_Import_def\<close>)

text \<open>C15: Restore at the next start.  When an upload was accepted, the archive carried a database that
  passed the checks; the next start puts exactly that one in place, keeps the old one, and hands
  the services the restored data with every missing migration applied.\<close>

theorem restore_at_startup:
  assumes cfg: "cfg = FromEnv getenv" "bk = (stBackup env)\<lparr>bkDataDir := cfDataDir cfg\<rparr>"
    and imp: "backup_Import bk files a = (files1, None)"
    and paths: "pendingPath (cfDataDir cfg) \<notin> {DatabasePath cfg, DatabasePath cfg @ ''.bak-'' @ bkStamp bk now,
      DatabasePath cfg @ ''-wal'', DatabasePath cfg @ ''-shm''}"
    and names: "distinct (map fst (stMigrations env))"
    and run: "run_start env getenv now files1 = (files2, Inr (d, reg))"
  obtains c d0 where "archive_database a = Some c" and "validateSQLite bk c" and "files2 (DatabasePath cfg) = Some c"
    and "files2 (pendingPath (cfDataDir cfg)) = None"
    and "files (DatabasePath cfg) \<noteq> None \<longrightarrow>
      files2 (DatabasePath cfg @ ''.bak-'' @ bkStamp bk now) = files (DatabasePath cfg)"
    and "stOpen env (Some c) = Some d0"
    and "execute (stExec env) (stMigrations env)
      (filter (\<lambda>n. n \<notin> set (dbApplied d0)) (migrationNames (stMigrations env))) (dbSchema d0) = Some (dbSchema d)"
proof -
  let ?p = "pendingPath (cfDataDir cfg)"
  have dir: "bkDataDir bk = cfDataDir cfg" by (simp add: cfg(2))
  obtain c where up: "archive_database a = Some c" and c: "validateSQLite bk c" "files1 = files(?p \<mapsto> c)"
    using import_staged [OF imp] unfolding dir .
  obtain applied where res: "ApplyPendingRestore bk now files1 (DatabasePath cfg) = (files2, applied)"
    using run by (cases "ApplyPendingRestore bk now files1 (DatabasePath cfg)") (simp add: run_start_def Let_def cfg)
  have pend: "files1 (pendingPath (bkDataDir bk)) = Some c" by (simp add: c(2) dir)
  have p: "?p \<noteq> DatabasePath cfg" "?p \<noteq> DatabasePath cfg @ ''.bak-'' @ bkStamp bk now"
    "?p \<noteq> DatabasePath cfg @ ''-wal''" "?p \<noteq> DatabasePath cfg @ ''-shm''" using paths by simp_all
  note after = restore_pending [OF pend p [folded dir] res, folded dir]
  have old: "files1 (DatabasePath cfg) = files (DatabasePath cfg)" using p(1) by (simp add: c(2))
  obtain d0 where d0: "stOpen env (Some c) = Some d0" "Migrate (stExec env) (stMigrations env) d0 = (d, None)"
    using run after(1) res
    by (auto simp: run_start_def Let_def cfg(2) [symmetric] cfg(1) [symmetric] split: option.splits prod.splits)
  show thesis
    using that [OF up c(1), of d0] after d0(1) Migrate_done(2) [OF names d0(2)] old
    by (cases "files (DatabasePath cfg)") (auto simp: dir)
qed

definition sample_start_env :: "string start_env" where
  "sample_start_env = \<lparr>stBackup = sample_backup_env,
     stOpen = (\<lambda>f. Some \<lparr>dbSchema = (case f of None \<Rightarrow> [] | Some c \<Rightarrow> c), dbApplied = []\<rparr>),
     stExec = sample_exec, stMigrations = [(''1.sql'', ''X'')],
     stProviderFS = \<lparr>fsReadDir = (\<lambda>d. DirMissing), fsManifest = (\<lambda>p. FileMissing)\<rparr>\<rparr>"

definition sample_getenv :: "string \<Rightarrow> string" where
  "sample_getenv k = (if k = ''HELBOOT_DATA_DIR'' then ''/data'' else [])"

lemma sample_config: "cfDataDir (FromEnv sample_getenv) = ''/data''" "DatabasePath (FromEnv sample_getenv) = ''/data/helboot.db''"
  by code_simp+

lemma sample_start_backup: "(stBackup sample_start_env)\<lparr>bkDataDir := ''/data''\<rparr> = sample_backup_env"
  by (simp add: sample_start_env_def sample_backup_env_def)

theorem restore_at_startup_witness:
  "\<exists>files1 files2 d reg. backup_Import sample_backup_env [''/data/helboot.db'' \<mapsto> ''B'']
       (Entries [(''manifest.json'', Some ''helboot''), (''helboot.db'', Some ''A'')] True) = (files1, None) \<and>
     run_start sample_start_env sample_getenv 9 files1 = (files2, Inr (d, reg)) \<and>
     files2 ''/data/helboot.db'' = Some ''A'' \<and> files2 ''/data/helboot.db.bak-20260101'' = Some ''B''"
proof -
  have ok: "validateSQLite sample_backup_env c" for c
    by (simp_all add: sample_backup_env_def validateSQLite_def)
  let ?files1 = "[''/data/helboot.db'' \<mapsto> ''B'', ''/data/restore-pending.db'' \<mapsto> ''A'']"
  have i: "backup_Import sample_backup_env [''/data/helboot.db'' \<mapsto> ''B'']
      (Entries [(''manifest.json'', Some ''helboot''), (''helboot.db'', Some ''A'')] True) = (?files1, None)"
    using import_export [OF sample_manifest_decodes _ ok] by (simp add: sample_paths)
  have m: "Migrate sample_exec [(''1.sql'', ''X'')] \<lparr>dbSchema = s, dbApplied = []\<rparr> =
      (\<lparr>dbSchema = s @ ''X'', dbApplied = [''1.sql'']\<rparr>, None)" for s
    by (simp add: Migrate_def migrationNames_def has_suffix_def apply_migration_def sample_exec_def)
  obtain files2 applied where a: "ApplyPendingRestore sample_backup_env 9 ?files1 ''/data/helboot.db'' = (files2, applied)"
    by (cases "ApplyPendingRestore sample_backup_env 9 ?files1 ''/data/helboot.db''")
  obtain s reg where r: "run_start sample_start_env sample_getenv 9 ?files1 =
      (files2, Inr (\<lparr>dbSchema = s @ ''X'', dbApplied = [''1.sql'']\<rparr>, reg))"
    using a
    by (simp add: run_start_def Let_def sample_config sample_start_backup)
       (simp add: sample_start_env_def m LoadDirs_def loadDir_def)
  have stamp: "bkStamp sample_backup_env 9 = ''20260101''" by (simp add: sample_backup_env_def)
  have sb: "sample_backup_env = (stBackup sample_start_env)\<lparr>bkDataDir := cfDataDir (FromEnv sample_getenv)\<rparr>"
    by (simp add: sample_config sample_start_backup)
  have p: "pendingPath ''/data'' = ''/data/restore-pending.db''"
    using sample_paths by (simp add: sample_backup_env_def)
  have names: "distinct (map fst (stMigrations sample_start_env))" by (simp add: sample_start_env_def)
  have db: "archive_database (Entries [(''manifest.json'', Some ''helboot''), (''helboot.db'', Some ''A'')] True) = Some ''A''"
    by (simp add: archive_database_def is_database_def clean_names)
  obtain "files2 ''/data/helboot.db'' = Some ''A''" "files2 ''/data/helboot.db.bak-20260101'' = Some ''B''"
    by (rule restore_at_startup [OF refl sb i _ names r]) (simp_all add: sample_config stamp p db)
  with i r show ?thesis by blast
qed

end
