(* ===== verification/Stored_Time.thy ===== *)
theory Stored_Time
  imports Store
begin

text \<open>
  How \<open>backend/internal/store/store.go\<close> keeps a time in a text column: \<open>formatTime\<close> prints UTC with the
  layout \<open>2006-01-02 15:04:05\<close>, which is also what SQLite's \<open>datetime('now')\<close> prints, and \<open>parseTime\<close>
  reads it with \<open>time.Parse\<close>, then tries RFC 3339, and gives the zero time for anything else.  The
  proleptic Gregorian calendar and \<open>time.Parse\<close> (for the elements the two layouts use) are Go's.
  \<open>Store\<close> works with \<open>stored_time\<close> and compares instants where SQL compares texts; the theorems here
  justify both.
\<close>

section \<open>The calendar\<close>

text \<open>Days are counted from 0001-01-01.\<close>

definition is_leap :: "int \<Rightarrow> bool" where
  "is_leap y \<longleftrightarrow> y mod 4 = 0 \<and> (y mod 100 \<noteq> 0 \<or> y mod 400 = 0)"

definition days_before_year :: "int \<Rightarrow> int" where
  "days_before_year y = 365 * (y - 1) + (y - 1) div 4 - (y - 1) div 100 + (y - 1) div 400"

definition month_lengths :: "bool \<Rightarrow> int list" where
  "month_lengths leap = [31, if leap then 29 else 28, 31, 30, 31, 30, 31, 31, 30, 31, 30, 31]"

definition month_start :: "bool \<Rightarrow> int \<Rightarrow> int" where
  "month_start leap m = sum_list (take (nat (m - 1)) (month_lengths leap))"

definition daysIn :: "int \<Rightarrow> int \<Rightarrow> int" where
  "daysIn m y = month_lengths (is_leap y) ! nat (m - 1)"

definition day_number :: "int \<Rightarrow> int \<Rightarrow> int \<Rightarrow> int" where
  "day_number y m d = days_before_year y + month_start (is_leap y) m + d - 1"

text \<open>The year and the day in it, by cycles of 400, 100, 4 years and one year.\<close>

definition year_day :: "int \<Rightarrow> int \<times> int" where
  "year_day n =
     (let a = n div 146097; r = n mod 146097;
          b = min 3 (r div 36524); r1 = r - 36524 * b;
          q = r1 div 1461; r2 = r1 mod 1461;
          k = min 3 (r2 div 365)
      in (400 * a + 100 * b + 4 * q + k + 1, r2 - 365 * k))"

text \<open>The month and the day in it of a day counted from the start of month \<open>m\<close>.\<close>

fun find_month :: "int \<Rightarrow> int list \<Rightarrow> int \<Rightarrow> int \<times> int" where
  "find_month m [] r = (m, r + 1)"
| "find_month m (n # ns) r = (if r < n then (m, r + 1) else find_month (m + 1) ns (r - n))"

definition month_day :: "bool \<Rightarrow> int \<Rightarrow> int \<times> int" where
  "month_day leap yday = find_month 1 (month_lengths leap) yday"

record time_fields =
  tfYear :: int
  tfMonth :: int
  tfDay :: int
  tfHour :: int
  tfMinute :: int
  tfSecond :: int
  tfNanos :: int
  tfOffset :: int  \<comment> \<open>seconds east of UTC\<close>

definition fields_of :: "instant \<Rightarrow> time_fields" where
  "fields_of t =
     (let s = t div second; sod = s mod 86400;
          yd = year_day (s div 86400 + 719162);
          md = month_day (is_leap (fst yd)) (snd yd)
      in \<lparr>tfYear = fst yd, tfMonth = fst md, tfDay = snd md,
          tfHour = sod div 3600, tfMinute = sod div 60 mod 60, tfSecond = sod mod 60,
          tfNanos = t mod second, tfOffset = 0\<rparr>)"

text \<open>\<open>time.Date\<close> of fields within their ranges.\<close>

definition instant_of :: "time_fields \<Rightarrow> instant" where
  "instant_of f =
     ((day_number (tfYear f) (tfMonth f) (tfDay f) - 719162) * 86400
      + tfHour f * 3600 + tfMinute f * 60 + tfSecond f - tfOffset f) * second + tfNanos f"

section \<open>Printing\<close>

definition pad :: "nat \<Rightarrow> int \<Rightarrow> string" where
  "pad w x = (if x < 0 then ''-'' else []) @
     (let s = nat_str (nat \<bar>x\<bar>) in replicate (w - length s) (CHR ''0'') @ s)"

definition formatTime :: "instant \<Rightarrow> string" where
  "formatTime t =
     (let f = fields_of t in
      pad 4 (tfYear f) @ ''-'' @ pad 2 (tfMonth f) @ ''-'' @ pad 2 (tfDay f) @ '' '' @
      pad 2 (tfHour f) @ '':'' @ pad 2 (tfMinute f) @ '':'' @ pad 2 (tfSecond f))"

section \<open>Parsing\<close>

text \<open>The elements of a layout, each after the literal text before it.\<close>

datatype std_chunk =
  StdLongYear | StdZeroMonth | StdZeroDay | StdHour | StdZeroMinute | StdZeroSecond | StdColonTZ

type_synonym layout = "(string \<times> std_chunk) list"

definition timeFormat :: layout where
  "timeFormat = [('''', StdLongYear), (''-'', StdZeroMonth), (''-'', StdZeroDay),
     ('' '', StdHour), ('':'', StdZeroMinute), ('':'', StdZeroSecond)]"

definition RFC3339 :: layout where
  "RFC3339 = [('''', StdLongYear), (''-'', StdZeroMonth), (''-'', StdZeroDay),
     (''T'', StdHour), ('':'', StdZeroMinute), ('':'', StdZeroSecond), ('''', StdColonTZ)]"

definition digit_val :: "char \<Rightarrow> int" where
  "digit_val c = int (of_char c) - 48"

definition getnum :: "bool \<Rightarrow> string \<Rightarrow> (int \<times> string) option" where
  "getnum fixed s =
     (case s of
        [] \<Rightarrow> None
      | c # r \<Rightarrow>
          if \<not> is_digit c then None
          else (case r of
                  d # r' \<Rightarrow> if is_digit d then Some (10 * digit_val c + digit_val d, r')
                           else if fixed then None else Some (digit_val c, r)
                | [] \<Rightarrow> if fixed then None else Some (digit_val c, r)))"

text \<open>A number in a range.\<close>

definition num_in :: "bool \<Rightarrow> int \<Rightarrow> int \<Rightarrow> string \<Rightarrow> (int \<times> string) option" where
  "num_in fixed lo hi s =
     (case getnum fixed s of None \<Rightarrow> None | Some (x, r) \<Rightarrow> if lo \<le> x \<and> x \<le> hi then Some (x, r) else None)"

definition cutspace :: "string \<Rightarrow> string" where
  "cutspace s = dropWhile (\<lambda>c. c = CHR '' '') s"

lemma length_cutspace [termination_simp]: "length (cutspace s) \<le> length s"
  by (simp add: cutspace_def length_dropWhile_le)

text \<open>\<open>skip\<close>: a run of spaces of the layout matches any run of spaces.\<close>

fun skip_literal :: "string \<Rightarrow> string \<Rightarrow> string option" where
  "skip_literal [] s = Some s"
| "skip_literal (p # ps) s =
     (if p = CHR '' ''
      then (if s \<noteq> [] \<and> hd s \<noteq> CHR '' '' then None else skip_literal (cutspace ps) (cutspace s))
      else case s of [] \<Rightarrow> None | c # r \<Rightarrow> if c = p then skip_literal ps r else None)"

text \<open>A fraction after the seconds is read although the layout has none.\<close>

definition fraction :: "string \<Rightarrow> int \<times> string" where
  "fraction s =
     (case s of
        c # d # r \<Rightarrow>
          if (c = CHR ''.'' \<or> c = CHR '','') \<and> is_digit d
          then let ds = takeWhile is_digit (d # r); n = take 9 ds in
               (int (digits_val n) * 10 ^ (9 - length n), dropWhile is_digit (d # r))
          else (0, s)
      | _ \<Rightarrow> (0, s))"

definition parse_zone :: "string \<Rightarrow> (int \<times> string) option" where
  "parse_zone s =
     (if s \<noteq> [] \<and> hd s = CHR ''Z'' then Some (0, tl s)
      else if length s < 6 \<or> s ! 3 \<noteq> CHR '':'' then None
      else case (num_in True 0 24 (take 2 (drop 1 s)), num_in True 0 60 (take 2 (drop 4 s))) of
             (Some (h, _), Some (m, _)) \<Rightarrow>
               if hd s = CHR ''+'' then Some (h * 3600 + m * 60, drop 6 s)
               else if hd s = CHR ''-'' then Some (- (h * 3600 + m * 60), drop 6 s)
               else None
           | _ \<Rightarrow> None)"

fun parse_chunk :: "std_chunk \<Rightarrow> string \<Rightarrow> time_fields \<Rightarrow> (time_fields \<times> string) option" where
  "parse_chunk StdLongYear s f =
     (if length s < 4 \<or> \<not> list_all is_digit (take 4 s) then None
      else Some (f\<lparr>tfYear := int (digits_val (take 4 s))\<rparr>, drop 4 s))"
| "parse_chunk StdZeroMonth s f = map_option (\<lambda>(x, r). (f\<lparr>tfMonth := x\<rparr>, r)) (num_in True 1 12 s)"
| "parse_chunk StdZeroDay s f = map_option (\<lambda>(x, r). (f\<lparr>tfDay := x\<rparr>, r)) (num_in True 0 99 s)"
| "parse_chunk StdHour s f = map_option (\<lambda>(x, r). (f\<lparr>tfHour := x\<rparr>, r)) (num_in False 0 23 s)"
| "parse_chunk StdZeroMinute s f = map_option (\<lambda>(x, r). (f\<lparr>tfMinute := x\<rparr>, r)) (num_in True 0 59 s)"
| "parse_chunk StdZeroSecond s f =
     map_option (\<lambda>(x, r). case fraction r of (ns, r') \<Rightarrow> (f\<lparr>tfSecond := x, tfNanos := ns\<rparr>, r')) (num_in True 0 59 s)"
| "parse_chunk StdColonTZ s f = map_option (\<lambda>(x, r). (f\<lparr>tfOffset := x\<rparr>, r)) (parse_zone s)"

fun parse_layout :: "layout \<Rightarrow> string \<Rightarrow> time_fields \<Rightarrow> time_fields option" where
  "parse_layout [] s f = (if s = [] then Some f else None)"
| "parse_layout ((lit, std) # cs) s f =
     (case skip_literal lit s of
        None \<Rightarrow> None
      | Some s1 \<Rightarrow> (case parse_chunk std s1 f of None \<Rightarrow> None | Some (f', s2) \<Rightarrow> parse_layout cs s2 f'))"

abbreviation zero_fields :: time_fields where
  "zero_fields \<equiv> \<lparr>tfYear = 0, tfMonth = 0, tfDay = 0, tfHour = 0, tfMinute = 0, tfSecond = 0, tfNanos = 0, tfOffset = 0\<rparr>"

definition time_Parse :: "layout \<Rightarrow> string \<Rightarrow> instant option" where
  "time_Parse l s =
     (case parse_layout l s zero_fields of
        None \<Rightarrow> None
      | Some f \<Rightarrow> if 1 \<le> tfDay f \<and> tfDay f \<le> daysIn (tfMonth f) (tfYear f) then Some (instant_of f) else None)"

text \<open>\<open>time.Time{}\<close>.\<close>

definition zero_time :: instant where
  "zero_time = - 62135596800 * second"

definition parseTime :: "string \<Rightarrow> instant" where
  "parseTime s =
     (case time_Parse timeFormat s of
        Some t \<Rightarrow> t
      | None \<Rightarrow> (case time_Parse RFC3339 s of Some t \<Rightarrow> t | None \<Rightarrow> zero_time))"

section \<open>The calendar is one\<close>

lemma cycle_div:
  assumes "0 \<le> b" "b \<le> 3" "0 \<le> q" "q \<le> 24" "0 \<le> k" "k \<le> (3::int)"
  shows "(400 * a + 100 * b + 4 * q + k) div 4 = 100 * a + 25 * b + q"
    and "(400 * a + 100 * b + 4 * q + k) div 100 = 4 * a + b"
    and "(400 * a + 100 * b + 4 * q + k) div 400 = a"
proof -
  show "(400 * a + 100 * b + 4 * q + k) div 4 = 100 * a + 25 * b + q"
    by (rule int_div_pos_eq [where r = k]) (use assms in simp_all)
  show "(400 * a + 100 * b + 4 * q + k) div 100 = 4 * a + b"
    by (rule int_div_pos_eq [where r = "4 * q + k"]) (use assms in simp_all)
  show "(400 * a + 100 * b + 4 * q + k) div 400 = a"
    by (rule int_div_pos_eq [where r = "100 * b + 4 * q + k"]) (use assms in simp_all)
qed

lemma days_before_cycle:
  assumes "0 \<le> b" "b \<le> 3" "0 \<le> q" "q \<le> 24" "0 \<le> k" "k \<le> (3::int)"
  shows "days_before_year (400 * a + 100 * b + 4 * q + k + 1) = 146097 * a + 36524 * b + 1461 * q + 365 * k"
  by (simp add: days_before_year_def cycle_div [OF assms])

lemma div_pred: "0 < n \<Longrightarrow> (y - 1) div n = y div n - (if y mod n = 0 then 1 else 0)" for y n :: int
proof -
  assume n: "0 < n"
  have eq: "y = n * (y div n) + y mod n" by simp
  have r: "0 \<le> y mod n" "y mod n < n" using n by simp_all
  show ?thesis
  proof (cases "y mod n = 0")
    case True
    show ?thesis unfolding if_P [OF True]
      by (rule int_div_pos_eq [where r = "n - 1"]) (use n eq True in \<open>simp_all add: algebra_simps\<close>)
  next
    case False
    show ?thesis unfolding if_not_P [OF False] diff_zero
      by (rule int_div_pos_eq [where r = "y mod n - 1"]) (use r False eq in simp_all)
  qed
qed

lemma year_length: "days_before_year (y + 1) = days_before_year y + (if is_leap y then 366 else 365)"
proof -
  have "y mod 100 = 0" if "y mod 400 = 0" using mod_mod_cancel [of 100 400 y] that by simp
  moreover have "y mod 4 = 0" if "y mod 100 = 0" using mod_mod_cancel [of 4 100 y] that by simp
  ultimately show ?thesis by (auto simp: days_before_year_def is_leap_def div_pred)
qed

lemma days_before_mono: "y \<le> z \<Longrightarrow> days_before_year y \<le> days_before_year z"
  by (induction z rule: int_ge_induct) (simp_all add: year_length)

lemma min_div:
  assumes "0 < d" "0 \<le> (r::int)" "r \<le> 4 * d"
  shows "0 \<le> min 3 (r div d)" "min 3 (r div d) \<le> 3" "0 \<le> r - d * min 3 (r div d)"
    "min 3 (r div d) < 3 \<Longrightarrow> r - d * min 3 (r div d) < d"
proof -
  have eq: "r = d * (r div d) + r mod d" and m: "0 \<le> r mod d" "r mod d < d" using assms(1) by simp_all
  show "0 \<le> min 3 (r div d)" using assms by (simp add: pos_imp_zdiv_nonneg_iff)
  show "min 3 (r div d) \<le> 3" by simp
  have "d * min 3 (r div d) \<le> d * (r div d)" using assms(1) by (intro mult_left_mono) simp_all
  then show "0 \<le> r - d * min 3 (r div d)" using eq m by linarith
  show "r - d * min 3 (r div d) < d" if "min 3 (r div d) < 3"
    using that m by (simp add: min_def minus_mult_div_eq_mod split: if_splits)
qed

lemma year_day_spec:
  assumes "year_day n = (y, r)"
  shows "0 \<le> r" and "n = days_before_year y + r" and "n < days_before_year (y + 1)"
proof -
  define a where "a = n div 146097"
  define r0 where "r0 = n mod 146097"
  define b where "b = min 3 (r0 div 36524)"
  define r1 where "r1 = r0 - 36524 * b"
  define q where "q = r1 div 1461"
  define r2 where "r2 = r1 mod 1461"
  define k where "k = min 3 (r2 div 365)"
  have "year_day n = (400 * a + 100 * b + 4 * q + k + 1, r2 - 365 * k)"
    unfolding year_day_def Let_def k_def r2_def q_def r1_def b_def r0_def a_def by (rule refl)
  with assms have yr: "y = 400 * a + 100 * b + 4 * q + k + 1" "r = r2 - 365 * k" by simp_all
  have n: "n = 146097 * a + r0" by (simp add: a_def r0_def)
  have r0: "0 \<le> r0" "r0 \<le> 146096" using pos_mod_bound [of 146097 n] by (auto simp: r0_def simp del: pos_mod_bound)
  have b: "0 \<le> b" "b \<le> 3" "0 \<le> r1" "b < 3 \<Longrightarrow> r1 < 36524"
    using min_div [of 36524 r0] r0 by (simp_all add: b_def r1_def)
  have r1: "r1 \<le> 36524" using b r0 by (cases "b < 3") (auto simp: r1_def)
  have eq1: "r1 = 1461 * q + r2" by (simp add: q_def r2_def)
  have r2: "0 \<le> r2" "r2 \<le> 1460" using pos_mod_bound [of 1461 r1] by (auto simp: r2_def simp del: pos_mod_bound)
  have q: "0 \<le> q" "q \<le> 24" using b(3) r1 r2 eq1 by linarith+
  have k: "0 \<le> k" "k \<le> 3" "0 \<le> r" "k < 3 \<Longrightarrow> r < 365"
    using min_div [of 365 r2] r2 by (simp_all add: k_def yr(2))
  show "0 \<le> r" by (rule k(3))
  have nr: "n = 146097 * a + 36524 * b + 1461 * q + 365 * k + r" using n eq1 by (simp add: yr(2) r1_def)
  show "n = days_before_year y + r"
    unfolding yr(1) days_before_cycle [OF b(1,2) q k(1,2)] by (rule nr)
  have next_year: "days_before_year (y + 1) = 146097 * a' + 36524 * b' + 1461 * q' + 365 * k'"
    if "y = 400 * a' + 100 * b' + 4 * q' + k'" "0 \<le> b'" "b' \<le> 3" "0 \<le> q'" "q' \<le> 24" "0 \<le> k'" "k' \<le> 3" for a' b' q' k'
    using days_before_cycle [OF that(2-7), of a'] that(1) by simp
  consider "k < 3" | "k = 3" "q < 24" | "k = 3" "q = 24" "b < 3" | "k = 3" "q = 24" "b = 3"
    using k(2) q(2) b(2) by (cases "k < 3"; cases "q < 24"; cases "b < 3") auto
  then show "n < days_before_year (y + 1)"
  proof cases
    case 1
    then show ?thesis using next_year [of a b q "k + 1"] b q k nr yr by simp
  next
    case 2
    then show ?thesis using next_year [of a b "q + 1" 0] b q nr yr r2 by simp
  next
    case 3
    then show ?thesis using next_year [of a "b + 1" 0 0] b nr yr eq1 by simp
  next
    case 4
    then show ?thesis using next_year [of "a + 1" 0 0 0] nr yr n r0 by simp
  qed
qed

lemma year_day_length: "year_day n = (y, r) \<Longrightarrow> r < (if is_leap y then 366 else 365)"
  using year_day_spec [of n y r] year_length [of y] by simp

lemma year_mono: "n \<le> n' \<Longrightarrow> year_day n = (y, r) \<Longrightarrow> year_day n' = (y', r') \<Longrightarrow> y \<le> y'"
  using year_day_spec [of n y r] year_day_spec [of n' y' r'] days_before_mono [of "y' + 1" y] by linarith

lemma find_month_spec:
  "find_month m ns r = (m', d) \<Longrightarrow> 0 \<le> r \<Longrightarrow> r < sum_list ns \<Longrightarrow>
     \<exists>i < length ns. m' = m + int i \<and> sum_list (take i ns) + d = r + 1 \<and> 1 \<le> d \<and> d \<le> ns ! i"
proof (induction m ns r rule: find_month.induct)
  case (2 m n ns r)
  show ?case
  proof (cases "r < n")
    case True
    then show ?thesis using 2 by (intro exI [of _ 0]) auto
  next
    case False
    then obtain i where "i < length ns" "m' = m + 1 + int i" "sum_list (take i ns) + d = r - n + 1" "1 \<le> d" "d \<le> ns ! i"
      using 2 by auto
    then show ?thesis by (intro exI [of _ "Suc i"]) auto
  qed
qed simp

lemma find_month_ge: "m \<le> fst (find_month m ns r)"
proof (induction m ns r rule: find_month.induct)
  case (2 m n ns r)
  then show ?case by (cases "r < n") auto
qed simp

lemma find_month_mono: "r \<le> r' \<Longrightarrow> fst (find_month m ns r) \<le> fst (find_month m ns r')"
proof (induction m ns r arbitrary: r' rule: find_month.induct)
  case (2 m n ns r)
  then show ?case using find_month_ge [of "m + 1" ns "r' - n"] by (cases "r' < n"; cases "r < n") auto
qed simp

lemma month_day_spec:
  assumes "month_day l r = (m, d)" and "0 \<le> r" and "r < (if l then 366 else 365)"
  shows "1 \<le> m" "m \<le> 12" "1 \<le> d" "month_start l m + d = r + 1" "d \<le> month_lengths l ! nat (m - 1)"
proof -
  have "sum_list (month_lengths l) = (if l then 366 else 365)" "length (month_lengths l) = 12"
    by (simp_all add: month_lengths_def)
  then obtain i where "i < 12" "m = 1 + int i" "sum_list (take i (month_lengths l)) + d = r + 1" "1 \<le> d" "d \<le> month_lengths l ! i"
    using find_month_spec [of 1 "month_lengths l" r m d] assms by (auto simp: month_day_def)
  then show "1 \<le> m" "m \<le> 12" "1 \<le> d" "month_start l m + d = r + 1" "d \<le> month_lengths l ! nat (m - 1)"
    by (simp_all add: month_start_def)
qed

lemma month_mono: "r \<le> r' \<Longrightarrow> month_day l r = (m, d) \<Longrightarrow> month_day l r' = (m', d') \<Longrightarrow> m \<le> m'"
  using find_month_mono [of r r' 1 "month_lengths l"] by (simp add: month_day_def)

text \<open>The fields of an instant are in their ranges and name it.\<close>

lemma fields_of_spec:
  fixes t :: instant
  defines "f \<equiv> fields_of t"
  shows "1 \<le> tfMonth f" "tfMonth f \<le> 12" "1 \<le> tfDay f" "tfDay f \<le> daysIn (tfMonth f) (tfYear f)"
    and "0 \<le> tfHour f" "tfHour f \<le> 23" "0 \<le> tfMinute f" "tfMinute f \<le> 59" "0 \<le> tfSecond f" "tfSecond f \<le> 59"
    and "instant_of f = t"
proof -
  define s where "s = t div second"
  obtain y r where yr: "year_day (s div 86400 + 719162) = (y, r)" by (cases "year_day (s div 86400 + 719162)")
  obtain m d where md: "month_day (is_leap y) r = (m, d)" by (cases "month_day (is_leap y) r")
  have f: "f = \<lparr>tfYear = y, tfMonth = m, tfDay = d, tfHour = s mod 86400 div 3600,
      tfMinute = s mod 86400 div 60 mod 60, tfSecond = s mod 86400 mod 60, tfNanos = t mod second, tfOffset = 0\<rparr>"
    by (simp add: f_def fields_of_def Let_def s_def [symmetric] yr md)
  note sp = year_day_spec [OF yr]
  note mp = month_day_spec [OF md sp(1) year_day_length [OF yr]]
  show "1 \<le> tfMonth f" "tfMonth f \<le> 12" "1 \<le> tfDay f" using mp by (simp_all add: f)
  show "tfDay f \<le> daysIn (tfMonth f) (tfYear f)" using mp by (simp add: f daysIn_def)
  show "0 \<le> tfHour f" "0 \<le> tfMinute f" "tfMinute f \<le> 59" "0 \<le> tfSecond f" "tfSecond f \<le> 59"
    using pos_mod_bound [of 60 "s mod 86400 div 60"] pos_mod_bound [of 60 "s mod 86400"]
    by (simp_all add: f pos_imp_zdiv_nonneg_iff del: pos_mod_bound)
  have u: "0 \<le> s mod 86400" "s mod 86400 < 86400" by simp_all
  then show "tfHour f \<le> 23" by (simp add: f)
  define v where "v = s mod 86400"
  define w where "w = v div 60"
  have "v = 60 * w + v mod 60" "w = 60 * (w div 60) + w mod 60" "v div 3600 = w div 60"
    using zdiv_zmult2_eq [of 60 v 60] by (simp_all add: w_def)
  then have "s mod 86400 = s mod 86400 div 3600 * 3600 + s mod 86400 div 60 mod 60 * 60 + s mod 86400 mod 60"
    by (fold v_def, fold w_def, linarith)
  then have "s = s div 86400 * 86400 + (s mod 86400 div 3600 * 3600 + s mod 86400 div 60 mod 60 * 60 + s mod 86400 mod 60)"
    using div_mult_mod_eq [of s 86400] by (simp only:)
  moreover have "day_number y m d - 719162 = s div 86400" using sp(2) mp(4) by (simp add: day_number_def)
  ultimately have "instant_of f = s * second + t mod second"
    unfolding f instant_of_def by (simp only: time_fields.simps diff_zero add.assoc)
  then show "instant_of f = t" by (simp add: s_def)
qed

section \<open>Printing and parsing agree\<close>

lemma digit_zero: "CHR ''0'' = digit 0"
  by code_simp

lemma pad2: "0 \<le> x \<Longrightarrow> x \<le> 99 \<Longrightarrow> pad 2 x = [digit (nat x div 10), digit (nat x mod 10)]"
  by (cases "nat x < 10") (simp_all add: pad_def Let_def nat_str.simps [of "nat x"] nat_str.simps [of "nat x div 10"] numeral_2_eq_2 digit_zero)

lemma pad4:
  assumes "0 \<le> x" "x \<le> 9999"
  shows "pad 4 x = [digit (nat x div 1000), digit (nat x div 100 mod 10), digit (nat x div 10 mod 10), digit (nat x mod 10)]"
proof -
  define n where "n = nat x"
  have n: "n < 10000" and p: "pad 4 x = replicate (4 - length (nat_str n)) (CHR ''0'') @ nat_str n"
    using assms by (simp_all add: n_def pad_def Let_def)
  have d: "n div 10 div 10 = n div 100" "n div 100 div 10 = n div 1000" "n div 10 div 10 div 10 = n div 1000"
    by (simp_all flip: div_mult2_eq)
  note z = digit_zero
  have r: "replicate 3 c = [c, c, c]" "replicate 2 c = [c, c]" for c :: char by (simp_all add: numeral_eq_Suc)
  consider "n < 10" | "10 \<le> n" "n < 100" | "100 \<le> n" "n < 1000" | "1000 \<le> n" by linarith
  then have "replicate (4 - length (nat_str n)) (CHR ''0'') @ nat_str n =
      [digit (n div 1000), digit (n div 100 mod 10), digit (n div 10 mod 10), digit (n mod 10)]"
  proof cases
    case 1
    then show ?thesis by (simp add: nat_str.simps [of n] z r)
  next
    case 2
    then show ?thesis
      by (simp add: nat_str.simps [of n] nat_str.simps [of "n div 10"] less_mult_imp_div_less z r)
  next
    case 3
    then have "\<not> n div 10 < 10" "n div 100 < 10" by simp_all
    with 3 show ?thesis using d
      by (simp add: nat_str.simps [of n] nat_str.simps [of "n div 10"] nat_str.simps [of "n div 100"] z r)
  next
    case 4
    then have "\<not> n div 10 < 10" "\<not> n div 100 < 10" "n div 1000 < 10" using n by simp_all
    with 4 show ?thesis using d
      by (simp add: nat_str.simps [of n] nat_str.simps [of "n div 10"] nat_str.simps [of "n div 100"]
          nat_str.simps [of "n div 1000"] z r)
  qed
  with p show ?thesis by (simp add: n_def)
qed

lemma digit_facts: "n < 10 \<Longrightarrow> is_digit (digit n)" "n < 10 \<Longrightarrow> digit_val (digit n) = int n" "n < 10 \<Longrightarrow> digit n \<noteq> CHR '' ''"
proof -
  show "is_digit (digit n)" "digit_val (digit n) = int n" if "n < 10"
    using that by (simp_all add: is_digit_def digit_val_def of_char_digit)
  then show "digit n \<noteq> CHR '' ''" if "n < 10"
    using that by (auto simp: is_digit_def)
qed

lemma num_in_pad2: "0 \<le> x \<Longrightarrow> x \<le> 99 \<Longrightarrow> num_in fixed lo hi (pad 2 x @ r) = (if lo \<le> x \<and> x \<le> hi then Some (x, r) else None)"
  by (simp add: num_in_def getnum_def pad2 digit_facts zdiv_int zmod_int)

lemma year_pad4:
  assumes "0 \<le> x" "x \<le> 9999"
  shows "parse_chunk StdLongYear (pad 4 x @ r) f = Some (f\<lparr>tfYear := x\<rparr>, r)"
proof -
  define n where "n = nat x"
  have n: "n < 10000" "x = int n" using assms by (simp_all add: n_def)
  have "digits_val (pad 4 x) = n"
  proof -
    define p where "p = n div 10"
    define q where "q = p div 10"
    have "n = 10 * p + n mod 10" "p = 10 * q + p mod 10" "q = 10 * (q div 10) + q mod 10"
      by (simp_all add: p_def q_def)
    moreover have "n div 100 = q" "n div 1000 = q div 10" by (simp_all add: p_def q_def flip: div_mult2_eq)
    ultimately show ?thesis
      using n(1) unfolding pad4 [OF assms, folded n_def]
      by (simp add: digits_val_def of_char_digit flip: p_def)
  qed
  moreover have "list_all is_digit (pad 4 x)" "length (pad 4 x) = 4"
    using n(1) unfolding pad4 [OF assms, folded n_def] by (simp_all add: digit_facts)
  ultimately show ?thesis using n(2) by simp
qed

text \<open>The instants from year 0 to the end of year 9999, the years of four digits.\<close>

definition four_digit_year :: "instant \<Rightarrow> bool" where
  "four_digit_year t \<longleftrightarrow> - 62167219200 * second \<le> t \<and> t < 253402300800 * second"

lemma four_digit_year_fields:
  assumes "four_digit_year t"
  shows "0 \<le> tfYear (fields_of t)" and "tfYear (fields_of t) \<le> 9999"
proof -
  define n where "n = t div second div 86400 + 719162"
  obtain y r where yr: "year_day n = (y, r)" by (cases "year_day n")
  have y: "tfYear (fields_of t) = y" by (simp add: fields_of_def Let_def yr flip: n_def)
  have "- 62167219200 \<le> t div second" "t div second < 253402300800"
    using assms div_mult_mod_eq [of t second] pos_mod_bound [of second t] pos_mod_sign [of second t]
    unfolding four_digit_year_def by linarith+
  then have n: "- 366 \<le> n" "n \<le> 3652058" by (simp_all add: n_def)
  have "year_day (- 366) = (0, 0)" "year_day 3652058 = (9999, 364)" by code_simp+
  then show "0 \<le> tfYear (fields_of t)" "tfYear (fields_of t) \<le> 9999"
    using year_mono [OF n(1) _ yr] year_mono [OF n(2) yr] y by auto
qed

lemma skip_char: "c \<noteq> CHR '' '' \<Longrightarrow> skip_literal [c] (c # s) = Some s"
  by simp

lemma skip_space: "0 \<le> x \<Longrightarrow> x \<le> 99 \<Longrightarrow> skip_literal '' '' (CHR '' '' # pad 2 x @ r) = Some (pad 2 x @ r)"
  by (simp add: cutspace_def pad2 digit_facts)

lemma fields_of_day: "tfDay (fields_of t) \<le> 99"
proof -
  let ?f = "fields_of t"
  have "\<forall>n\<in>set (month_lengths l). n \<le> 31" for l by (simp add: month_lengths_def)
  moreover have "nat (tfMonth ?f - 1) < length (month_lengths l)" for l
    using fields_of_spec(1,2) [of t] by (simp add: month_lengths_def)
  ultimately have "daysIn (tfMonth ?f) (tfYear ?f) \<le> 31" unfolding daysIn_def by (meson nth_mem)
  then show ?thesis using fields_of_spec(4) [of t] by simp
qed

lemma parse_format:
  assumes "four_digit_year t"
  shows "time_Parse timeFormat (formatTime t) = Some (stored_time t)"
proof -
  let ?f = "fields_of t"
  note sp = fields_of_spec [of t] and yr = four_digit_year_fields [OF assms]
  note d = fields_of_day [of t]
  have pad2_end: "num_in fixed lo hi (pad 2 x) = (if lo \<le> x \<and> x \<le> hi then Some (x, []) else None)"
    if "0 \<le> x" "x \<le> 99" for fixed lo hi x using num_in_pad2 [OF that, of fixed lo hi "[]"] by simp
  have "parse_layout timeFormat (formatTime t) zero_fields = Some (?f\<lparr>tfNanos := 0, tfOffset := 0\<rparr>)"
    using sp yr d
    by (simp add: timeFormat_def formatTime_def Let_def year_pad4 num_in_pad2 pad2_end skip_space skip_char fraction_def
        del: skip_literal.simps(2) parse_chunk.simps(1))
  moreover have "?f\<lparr>tfNanos := 0, tfOffset := 0\<rparr> = ?f\<lparr>tfNanos := 0\<rparr>" by (simp add: fields_of_def Let_def)
  moreover have "instant_of (?f\<lparr>tfNanos := 0\<rparr>) = stored_time t"
  proof -
    have "instant_of ?f = instant_of (?f\<lparr>tfNanos := 0\<rparr>) + t mod second"
      by (simp add: instant_of_def) (simp add: fields_of_def Let_def)
    with sp(11) div_mult_mod_eq [of t second] show ?thesis unfolding stored_time_def by linarith
  qed
  ultimately show ?thesis using sp(3,4) by (simp add: time_Parse_def)
qed


section \<open>Text order is time order\<close>

lemma digit_less: "a < 10 \<Longrightarrow> b < 10 \<Longrightarrow> digit a < digit b \<longleftrightarrow> a < b"
  by (simp add: less_char_def of_char_digit)

lemma div_lex: "m div k < n div k \<or> m div k = n div k \<and> m mod k < n mod k \<longleftrightarrow> m < n" for m n k :: nat
proof (cases "m div k" "n div k" rule: linorder_cases)
  case less
  then have "m < n" by (metis div_le_mono linorder_not_less)
  with less show ?thesis by simp
next
  case equal
  with div_mult_mod_eq [of m k] have "n div k * k + m mod k = m" by (simp only:)
  with div_mult_mod_eq [of n k] have "m < n \<longleftrightarrow> m mod k < n mod k" by linarith
  with equal show ?thesis by simp
next
  case greater
  then have "n < m" by (metis div_le_mono linorder_not_less)
  with greater show ?thesis by simp
qed

lemma div_mod_inject: "m div k = n div k \<and> m mod k = n mod k \<longleftrightarrow> m = n" for m n k :: nat
  by (metis div_mult_mod_eq)

text \<open>A smaller number comes first, an equal one leaves the rest to decide.\<close>

lemma pad2_less:
  assumes "0 \<le> x" "x \<le> 99" "0 \<le> y" "y \<le> 99"
  shows "pad 2 x @ u < pad 2 y @ v \<longleftrightarrow> x < y \<or> x = y \<and> u < v"
proof -
  define m n where "m = nat x" and "n = nat y"
  have mn: "m < 100" "n < 100" "x < y \<longleftrightarrow> m < n" "x = y \<longleftrightarrow> m = n" using assms by (auto simp: m_def n_def)
  show ?thesis
    unfolding pad2 [OF assms(1,2), folded m_def] pad2 [OF assms(3,4), folded n_def] mn(3,4)
    using mn(1,2) div_lex [of m 10 n] div_mod_inject [of m 10 n] by (simp add: digit_less digit_inj) blast
qed

lemma mod100: "n div 10 mod 10 = n mod 100 div 10" "n mod 100 mod 10 = n mod 10" for n :: nat
proof -
  show "n mod 100 mod 10 = n mod 10" by (rule mod_mod_cancel) simp
  have "n mod (10 * 10) = 10 * (n div 10 mod 10) + n mod 10" by (rule mod_mult2_eq)
  then show "n div 10 mod 10 = n mod 100 div 10" by simp
qed

lemma pad4_pad2:
  assumes "0 \<le> x" "x \<le> 9999"
  shows "pad 4 x = pad 2 (int (nat x div 100)) @ pad 2 (int (nat x mod 100))"
proof -
  have "nat x div 100 \<le> 99" "nat x mod 100 \<le> 99" using assms by auto
  moreover have "nat x div 100 div 10 = nat x div 1000" by (simp flip: div_mult2_eq)
  ultimately show ?thesis using assms mod100 [of "nat x"] by (simp add: pad4 pad2)
qed

lemma pad4_less:
  assumes "0 \<le> x" "x \<le> 9999" "0 \<le> y" "y \<le> 9999"
  shows "pad 4 x @ u < pad 4 y @ v \<longleftrightarrow> x < y \<or> x = y \<and> u < v"
proof -
  define m n where "m = nat x" and "n = nat y"
  have mn: "x < y \<longleftrightarrow> m < n" "x = y \<longleftrightarrow> m = n" using assms by (auto simp: m_def n_def)
  have b: "int (k div 100) \<le> 99" "int (k mod 100) \<le> 99" if "k \<le> 9999" for k :: nat using that by auto
  have le: "m \<le> 9999" "n \<le> 9999" using assms by (simp_all add: m_def n_def)
  show ?thesis
    unfolding mn pad4_pad2 [OF assms(1,2), folded m_def] pad4_pad2 [OF assms(3,4), folded n_def] append_assoc
      pad2_less [OF of_nat_0_le_iff b(1) [OF le(1)] of_nat_0_le_iff b(1) [OF le(2)]]
      pad2_less [OF of_nat_0_le_iff b(2) [OF le(1)] of_nat_0_le_iff b(2) [OF le(2)]]
    using div_lex [of m 100 n] div_mod_inject [of m 100 n] by (auto simp only: of_nat_less_iff of_nat_eq_iff)
qed

lemma two_digit_fields:
  "0 \<le> tfMonth (fields_of t)" "tfMonth (fields_of t) \<le> 99" "0 \<le> tfDay (fields_of t)" "tfDay (fields_of t) \<le> 99"
  "0 \<le> tfHour (fields_of t)" "tfHour (fields_of t) \<le> 99" "0 \<le> tfMinute (fields_of t)" "tfMinute (fields_of t) \<le> 99"
  "0 \<le> tfSecond (fields_of t)" "tfSecond (fields_of t) \<le> 99"
  using fields_of_spec [of t] fields_of_day [of t] by linarith+

lemma less_fields:
  fixes a b :: instant
  defines "f \<equiv> fields_of a" and "g \<equiv> fields_of b"
  assumes y: "0 \<le> tfYear f" "tfYear f \<le> 9999" "0 \<le> tfYear g" "tfYear g \<le> 9999"
  shows "pad 4 (tfYear f) @ ''-'' @ pad 2 (tfMonth f) @ ''-'' @ pad 2 (tfDay f) @ '' '' @
      pad 2 (tfHour f) @ '':'' @ pad 2 (tfMinute f) @ '':'' @ pad 2 (tfSecond f) <
    pad 4 (tfYear g) @ ''-'' @ pad 2 (tfMonth g) @ ''-'' @ pad 2 (tfDay g) @ '' '' @
      pad 2 (tfHour g) @ '':'' @ pad 2 (tfMinute g) @ '':'' @ pad 2 (tfSecond g) \<longleftrightarrow>
    tfYear f < tfYear g \<or> tfYear f = tfYear g \<and> (tfMonth f < tfMonth g \<or> tfMonth f = tfMonth g \<and>
      (tfDay f < tfDay g \<or> tfDay f = tfDay g \<and> (tfHour f < tfHour g \<or> tfHour f = tfHour g \<and>
        (tfMinute f < tfMinute g \<or> tfMinute f = tfMinute g \<and> tfSecond f < tfSecond g))))"
proof -
  note r = two_digit_fields [of a, folded f_def] and q = two_digit_fields [of b, folded g_def]
  have same: "[c] @ s < [c] @ t \<longleftrightarrow> s < t" for c :: char and s t by simp
  have last: "pad 2 (tfSecond f) < pad 2 (tfSecond g) \<longleftrightarrow> tfSecond f < tfSecond g"
    using pad2_less [OF r(9,10) q(9,10), of "[]" "[]"] by simp
  show ?thesis
    unfolding pad4_less [OF y] same pad2_less [OF r(1,2) q(1,2)] pad2_less [OF r(3,4) q(3,4)]
      pad2_less [OF r(5,6) q(5,6)] pad2_less [OF r(7,8) q(7,8)] last by (rule refl)
qed

lemma formatTime_less:
  assumes "four_digit_year a" "four_digit_year b" and less: "a div second < b div second"
  shows "formatTime a < formatTime b"
proof -
  define s t where "s = a div second" and "t = b div second"
  obtain y r where yr: "year_day (s div 86400 + 719162) = (y, r)" by (cases "year_day (s div 86400 + 719162)")
  obtain y' r' where yr': "year_day (t div 86400 + 719162) = (y', r')" by (cases "year_day (t div 86400 + 719162)")
  obtain m d where md: "month_day (is_leap y) r = (m, d)" by (cases "month_day (is_leap y) r")
  obtain m' d' where md': "month_day (is_leap y') r' = (m', d')" by (cases "month_day (is_leap y') r'")
  define v w where "v = s mod 86400" and "w = t mod 86400"
  have fa: "fields_of a = \<lparr>tfYear = y, tfMonth = m, tfDay = d, tfHour = v div 3600,
      tfMinute = v div 60 mod 60, tfSecond = v mod 60, tfNanos = a mod second, tfOffset = 0\<rparr>"
    by (simp add: fields_of_def Let_def yr md v_def flip: s_def)
  have fb: "fields_of b = \<lparr>tfYear = y', tfMonth = m', tfDay = d', tfHour = w div 3600,
      tfMinute = w div 60 mod 60, tfSecond = w mod 60, tfNanos = b mod second, tfOffset = 0\<rparr>"
    by (simp add: fields_of_def Let_def yr' md' w_def flip: t_def)
  have day: "s div 86400 \<le> t div 86400" using less by (simp add: s_def t_def zdiv_mono1)
  note sa = year_day_spec [OF yr] and sb = year_day_spec [OF yr']
  note ma = month_day_spec [OF md sa(1) year_day_length [OF yr]] and mb = month_day_spec [OF md' sb(1) year_day_length [OF yr']]
  have "y < y' \<or> y = y' \<and> (m < m' \<or> m = m' \<and> (d < d' \<or> d = d' \<and> v < w))"
  proof (cases "y = y'")
    case True
    then have rr: "r \<le> r'" using sa(2) sb(2) day by simp
    then have mm: "m \<le> m'" using month_mono [OF rr] md md' True by auto
    show ?thesis
    proof (cases "m = m'")
      case m: True
      then have dd: "d \<le> d'" using rr ma(4) mb(4) True by simp
      have "v < w" if "d = d'"
      proof -
        have "s div 86400 = t div 86400" using that m True ma(4) mb(4) sa(2) sb(2) by simp
        then show ?thesis using less div_mult_mod_eq [of s 86400] div_mult_mod_eq [of t 86400]
          unfolding v_def w_def s_def [symmetric] t_def [symmetric] by linarith
      qed
      with dd m True show ?thesis by auto
    qed (use mm True in simp)
  qed (use year_mono [OF _ yr yr'] day in simp)
  moreover have "v div 3600 < w div 3600 \<or> v div 3600 = w div 3600 \<and>
      (v div 60 mod 60 < w div 60 mod 60 \<or> v div 60 mod 60 = w div 60 mod 60 \<and> v mod 60 < w mod 60)" if "v < w"
  proof -
    have "x div 3600 = x div 60 div 60" for x :: int using zdiv_zmult2_eq [of 60 x 60] by simp
    moreover have "v div 60 \<le> w div 60" using that by (simp add: zdiv_mono1)
    moreover have "v div 60 div 60 \<le> w div 60 div 60" using that by (simp add: zdiv_mono1)
    moreover have "v mod 60 < w mod 60" if "v div 60 = w div 60"
      using that \<open>v < w\<close> div_mult_mod_eq [of v 60] div_mult_mod_eq [of w 60] by linarith
    moreover have "v div 60 mod 60 < w div 60 mod 60" if "v div 60 div 60 = w div 60 div 60" "v div 60 < w div 60"
      using that div_mult_mod_eq [of "v div 60" 60] div_mult_mod_eq [of "w div 60" 60] by linarith
    ultimately show ?thesis by (metis order_le_less)
  qed
  ultimately show ?thesis
    using less_fields [OF four_digit_year_fields [OF assms(1)] four_digit_year_fields [OF assms(2)]]
    unfolding formatTime_def Let_def fa fb time_fields.simps by blast
qed

lemma formatTime_le:
  assumes "four_digit_year a" and "four_digit_year b"
  shows "formatTime a \<le> formatTime b \<longleftrightarrow> stored_time a \<le> stored_time b"
proof -
  have eq: "formatTime a = formatTime b" if "a div second = b div second"
    using that by (simp add: formatTime_def fields_of_def Let_def)
  have le: "stored_time a \<le> stored_time b \<longleftrightarrow> a div second \<le> b div second" by (simp add: stored_time_def)
  show ?thesis
    unfolding le using formatTime_less [OF assms] formatTime_less [OF assms(2,1)] eq
    by (cases "a div second" "b div second" rule: linorder_cases) auto
qed

text \<open>C25: The database keeps an instant as text and loses only the fraction of its second, and texts
  compare as the instants do, for every year of four digits.\<close>

theorem stored_time_faithful:
  assumes "four_digit_year a" and "four_digit_year b"
  shows "parseTime (formatTime a) = stored_time a \<and>
    (formatTime a \<le> formatTime b \<longleftrightarrow> stored_time a \<le> stored_time b)"
  by (simp add: parseTime_def parse_format [OF assms(1)] formatTime_le [OF assms])

theorem stored_time_faithful_witness:
  "parseTime (formatTime 1767268800500000000) = 1767268800000000000 \<and>
   formatTime 1767268800500000000 \<le> formatTime 1767268801000000000"
proof -
  have "four_digit_year 1767268800500000000" "four_digit_year 1767268801000000000" by (simp_all add: four_digit_year_def)
  from stored_time_faithful [OF this] show ?thesis by (simp add: stored_time_def)
qed

end
