(* ===== verification/Json_Text.thy ===== *)
theory Json_Text
  imports Prelude
begin

text \<open>
  The JSON text of a list of strings, as \<open>encoding/json\<close> writes it for a \<open>[]string\<close> and reads it
  back into one: the column \<open>hosts.tags\<close> of \<open>backend/internal/store/hosts.go\<close>.  Any text that is not
  an array of strings and nulls (or \<open>null\<close>) is an error of \<open>json.Unmarshal\<close>, so the reader need not
  tell the other JSON values from malformed text.
\<close>

section \<open>UTF-8\<close>

text \<open>The length of a multi-byte sequence and the range of its second byte, by its first byte.\<close>

definition utf8_lead :: "nat \<Rightarrow> (nat \<times> nat \<times> nat) option" where
  "utf8_lead n =
     (if 0xC2 \<le> n \<and> n \<le> 0xDF then Some (2, 0x80, 0xBF)
      else if n = 0xE0 then Some (3, 0xA0, 0xBF)
      else if n = 0xED then Some (3, 0x80, 0x9F)
      else if 0xE1 \<le> n \<and> n \<le> 0xEF then Some (3, 0x80, 0xBF)
      else if n = 0xF0 then Some (4, 0x90, 0xBF)
      else if 0xF1 \<le> n \<and> n \<le> 0xF3 then Some (4, 0x80, 0xBF)
      else if n = 0xF4 then Some (4, 0x80, 0x8F)
      else None)"

text \<open>The size of the multi-byte rune a text starts with, 0 when there is none.\<close>

definition rune_size :: "string \<Rightarrow> nat" where
  "rune_size s =
     (case s of
        [] \<Rightarrow> 0
      | c # r \<Rightarrow>
          (case utf8_lead (of_char c) of
             None \<Rightarrow> 0
           | Some (k, lo, hi) \<Rightarrow>
               if k - 1 \<le> length r \<and> lo \<le> of_char (r ! 0) \<and> of_char (r ! 0) \<le> hi \<and>
                  list_all (\<lambda>d. 0x80 \<le> (of_char d :: nat) \<and> (of_char d :: nat) \<le> 0xBF) (take (k - 2) (drop 1 r))
               then k else 0))"

abbreviation ascii :: "char \<Rightarrow> bool" where "ascii c \<equiv> of_char c < (0x80 :: nat)"

function valid_utf8 :: "string \<Rightarrow> bool" where
  "valid_utf8 [] = True"
| "valid_utf8 (c # s) =
     (if ascii c then valid_utf8 s
      else rune_size (c # s) \<noteq> 0 \<and> valid_utf8 (drop (rune_size (c # s) - 1) s))"
  by pat_completeness auto
termination by (relation "measure length") auto

text \<open>\<open>utf8.AppendRune\<close>; a surrogate is written as U+FFFD.\<close>

abbreviation byte :: "nat \<Rightarrow> char" where "byte n \<equiv> char_of n"

definition encode_rune :: "nat \<Rightarrow> string" where
  "encode_rune r =
     (if r < 0x80 then [byte r]
      else if r < 0x800 then [byte (0xC0 + r div 64), byte (0x80 + r mod 64)]
      else if 0xD800 \<le> r \<and> r \<le> 0xDFFF then [byte 0xEF, byte 0xBF, byte 0xBD]
      else if r < 0x10000 then [byte (0xE0 + r div 4096), byte (0x80 + r div 64 mod 64), byte (0x80 + r mod 64)]
      else [byte (0xF0 + r div 262144), byte (0x80 + r div 4096 mod 64), byte (0x80 + r div 64 mod 64),
            byte (0x80 + r mod 64)])"

section \<open>Writing\<close>

definition hex_digit :: "nat \<Rightarrow> char" where
  "hex_digit n = (if n < 10 then char_of (48 + n) else char_of (87 + n))"

text \<open>The bytes below 0x80 that are written as they are.\<close>

definition html_safe :: "char \<Rightarrow> bool" where
  "html_safe c \<longleftrightarrow> 0x20 \<le> (of_char c :: nat) \<and> c \<notin> {CHR 0x22, CHR ''&'', CHR ''<'', CHR ''>'', CHR 0x5C}"

definition escape :: "char \<Rightarrow> string" where
  "escape c =
     (if html_safe c then [c]
      else if c = CHR 0x22 \<or> c = CHR 0x5C then [CHR 0x5C, c]
      else if c = CHR 0x08 then [CHR 0x5C, CHR ''b'']
      else if c = CHR 0x0C then [CHR 0x5C, CHR ''f'']
      else if c = CHR 0x0A then [CHR 0x5C, CHR ''n'']
      else if c = CHR 0x0D then [CHR 0x5C, CHR ''r'']
      else if c = CHR 0x09 then [CHR 0x5C, CHR ''t'']
      else [CHR 0x5C, CHR ''u'', CHR ''0'', CHR ''0'', hex_digit (of_char c div 16), hex_digit (of_char c mod 16)])"

text \<open>Line and paragraph separators are escaped, an invalid byte becomes \<open>\ufffd\<close>.\<close>

function quote_body :: "string \<Rightarrow> string" where
  "quote_body [] = []"
| "quote_body (c # s) =
     (if ascii c then escape c @ quote_body s
      else let k = rune_size (c # s) in
        if k = 0 then CHR 0x5C # ''ufffd'' @ quote_body s
        else (if take k (c # s) = [byte 0xE2, byte 0x80, byte 0xA8] then CHR 0x5C # ''u2028''
              else if take k (c # s) = [byte 0xE2, byte 0x80, byte 0xA9] then CHR 0x5C # ''u2029''
              else take k (c # s)) @ quote_body (drop (k - 1) s))"
  by pat_completeness auto
termination by (relation "measure length") auto

definition json_quote :: "string \<Rightarrow> string" where
  "json_quote s = CHR 0x22 # quote_body s @ [CHR 0x22]"

fun join_items :: "string list \<Rightarrow> string" where
  "join_items [] = []"
| "join_items [x] = x"
| "join_items (x # xs) = x @ CHR '','' # join_items xs"

text \<open>\<open>json.Marshal\<close> of a slice of strings that is not nil.\<close>

definition marshal_strings :: "string list \<Rightarrow> string" where
  "marshal_strings ts = CHR ''['' # join_items (map json_quote ts) @ '']''"

section \<open>Reading\<close>

definition hex_val :: "char \<Rightarrow> nat option" where
  "hex_val c =
     (let n = of_char c in
      if 48 \<le> n \<and> n \<le> 57 then Some (n - 48)
      else if 97 \<le> n \<and> n \<le> 102 then Some (n - 87)
      else if 65 \<le> n \<and> n \<le> 70 then Some (n - 55)
      else None)"

definition getu4 :: "string \<Rightarrow> nat option" where
  "getu4 s =
     (case s of
        a # b # c # d # _ \<Rightarrow>
          (case (hex_val a, hex_val b, hex_val c, hex_val d) of
             (Some w, Some x, Some y, Some z) \<Rightarrow> Some (((w * 16 + x) * 16 + y) * 16 + z)
           | _ \<Rightarrow> None)
      | _ \<Rightarrow> None)"

text \<open>
  What follows \<open>\u\<close>: four hexadecimal digits, and the second half of a surrogate pair when one
  follows; the bytes of the rune and the number of characters read.
\<close>

definition unicode_escape :: "string \<Rightarrow> (string \<times> nat) option" where
  "unicode_escape s =
     (case getu4 s of
        None \<Rightarrow> None
      | Some r \<Rightarrow>
          if 0xD800 \<le> r \<and> r < 0xDC00
          then (case (if take 2 (drop 4 s) = [CHR 0x5C, CHR ''u''] then getu4 (drop 6 s) else None) of
                  Some r2 \<Rightarrow>
                    if 0xDC00 \<le> r2 \<and> r2 < 0xE000
                    then Some (encode_rune ((r - 0xD800) * 1024 + (r2 - 0xDC00) + 0x10000), 10)
                    else Some (encode_rune 0xFFFD, 4)
                | None \<Rightarrow> Some (encode_rune 0xFFFD, 4))
          else Some (encode_rune r, 4))"

definition simple_escape :: "char \<Rightarrow> char option" where
  "simple_escape c =
     (if c = CHR 0x22 \<or> c = CHR 0x5C \<or> c = CHR ''/'' then Some c
      else if c = CHR ''b'' then Some (CHR 0x08)
      else if c = CHR ''f'' then Some (CHR 0x0C)
      else if c = CHR ''n'' then Some (CHR 0x0A)
      else if c = CHR ''r'' then Some (CHR 0x0D)
      else if c = CHR ''t'' then Some (CHR 0x09)
      else None)"

text \<open>The text up to the closing quote, and what follows it.\<close>

function unquote_body :: "string \<Rightarrow> (string \<times> string) option" where
  "unquote_body [] = None"
| "unquote_body (c # s) =
     (if c = CHR 0x22 then Some ([], s)
      else if c = CHR 0x5C
      then (case s of
              [] \<Rightarrow> None
            | e # r \<Rightarrow>
                if e = CHR ''u''
                then (case unicode_escape r of
                        None \<Rightarrow> None
                      | Some (bytes, n) \<Rightarrow> map_option (\<lambda>(t, rest). (bytes @ t, rest)) (unquote_body (drop n r)))
                else (case simple_escape e of
                        None \<Rightarrow> None
                      | Some b \<Rightarrow> map_option (\<lambda>(t, rest). (b # t, rest)) (unquote_body r)))
      else if of_char c < (0x20 :: nat) then None
      else if ascii c then map_option (\<lambda>(t, rest). (c # t, rest)) (unquote_body s)
      else let k = rune_size (c # s) in
        if k = 0 then map_option (\<lambda>(t, rest). (encode_rune 0xFFFD @ t, rest)) (unquote_body s)
        else map_option (\<lambda>(t, rest). (take k (c # s) @ t, rest)) (unquote_body (drop (k - 1) s)))"
  by pat_completeness auto
termination by (relation "measure length") auto

definition skip_space :: "string \<Rightarrow> string" where
  "skip_space s = dropWhile (\<lambda>c. c \<in> {CHR 0x20, CHR 0x09, CHR 0x0A, CHR 0x0D}) s"

text \<open>An element of the array; a null leaves the element empty.\<close>

definition read_item :: "string \<Rightarrow> (string \<times> string) option" where
  "read_item s =
     (if has_prefix s ''null'' then Some ([], drop 4 s)
      else case s of c # r \<Rightarrow> if c = CHR 0x22 then unquote_body r else None | [] \<Rightarrow> None)"

lemma length_skip_space: "length (skip_space s) \<le> length s"
  by (simp add: skip_space_def length_dropWhile_le)

lemma unicode_escape_length: "unicode_escape s = Some (b, n) \<Longrightarrow> 0 < n"
  by (auto simp: unicode_escape_def split: option.splits if_splits)

lemma unquote_length: "unquote_body s = Some (t, rest) \<Longrightarrow> length rest < length s"
proof (induction s arbitrary: t rest rule: length_induct)
  case (1 s)
  have sub: "length rest < length s" if "unquote_body y = Some (a, rest)" "length y < length s" for y a
    using 1(1) that less_trans by blast
  show ?case
  proof (cases s)
    case (Cons c r)
    show ?thesis
      using "1.prems" unfolding Cons
      by (auto simp: Let_def Cons split: if_splits list.splits option.splits prod.splits dest!: sub)
  qed (use "1.prems" in simp)
qed

function read_items :: "string \<Rightarrow> (string list \<times> string) option" where
  "read_items s =
     (case read_item (skip_space s) of
        None \<Rightarrow> None
      | Some (t, r) \<Rightarrow>
          (case skip_space r of
             [] \<Rightarrow> None
           | c # r' \<Rightarrow>
               if c = CHR '']'' then Some ([t], r')
               else if c = CHR '','' then map_option (\<lambda>(ts, rest). (t # ts, rest)) (read_items r')
               else None))"
  by pat_completeness auto
termination
proof (relation "measure length")
  fix s p t r c r'
  assume "read_item (skip_space s) = Some p" "(t, r) = p" "skip_space r = c # r'"
  moreover have "length r \<le> length u" if "read_item u = Some (t, r)" for u
    using that by (auto simp: read_item_def split: if_splits list.splits dest!: unquote_length)
  ultimately show "(r', s) \<in> measure length"
    using length_skip_space [of s] length_skip_space [of r] by fastforce
qed simp

declare read_items.simps [simp del]

text \<open>\<open>json.Unmarshal\<close> into a nil slice of strings: the slice, or an error.\<close>

definition unmarshal_strings :: "string \<Rightarrow> string list option" where
  "unmarshal_strings s =
     (let u = skip_space s in
      if has_prefix u ''null'' then (if skip_space (drop 4 u) = [] then Some [] else None)
      else case u of
             c # r \<Rightarrow>
               if c \<noteq> CHR ''['' then None
               else (case (if has_prefix (skip_space r) '']'' then Some ([], tl (skip_space r)) else read_items r) of
                       None \<Rightarrow> None
                     | Some (ts, rest) \<Rightarrow> if skip_space rest = [] then Some ts else None)
           | [] \<Rightarrow> None)"

section \<open>Reading what was written\<close>

lemma rune_size_spec:
  assumes "rune_size s \<noteq> 0"
  shows "2 \<le> rune_size s" "rune_size s \<le> length s" "rune_size (take (rune_size s) s @ t) = rune_size s"
proof -
  let ?tail = "\<lambda>k r lo hi. k - 1 \<le> length r \<and> lo \<le> of_char (r ! 0) \<and> of_char (r ! 0) \<le> hi \<and>
    list_all (\<lambda>d. 0x80 \<le> (of_char d :: nat) \<and> (of_char d :: nat) \<le> 0xBF) (take (k - 2) (drop 1 r))"
  obtain c r k lo hi where s: "s = c # r" "utf8_lead (of_char c) = Some (k, lo, hi)" "?tail k r lo hi" "rune_size s = k"
    using assms by (auto simp: rune_size_def split: list.splits option.splits prod.splits if_splits)
  have k: "2 \<le> k" using s(2) by (auto simp: utf8_lead_def split: if_splits)
  show "2 \<le> rune_size s" "rune_size s \<le> length s" using k s by auto
  have "take (k - 2) (drop 1 (take (k - 1) r @ t)) = take (k - 2) (drop 1 r)"
  proof -
    have "drop 1 (take (k - 1) r @ t) = take (k - 2) (drop 1 r) @ t" using s(3) k by (simp add: drop_take numeral_2_eq_2)
    moreover have "length (take (k - 2) (drop 1 r)) = k - 2" using s(3) k by simp linarith
    ultimately show ?thesis by simp
  qed
  moreover have "(take (k - 1) r @ t) ! 0 = r ! 0" using s(3) k by (simp add: nth_append)
  moreover have "k - 1 \<le> length (take (k - 1) r @ t)" using s(3) by simp
  ultimately have "?tail k (take (k - 1) r @ t) lo hi" using s(3) by (simp only: simp_thms)
  then have "rune_size (c # take (k - 1) r @ t) = k" by (simp add: rune_size_def s(2))
  moreover have "take k s = c # take (k - 1) r" using k s(1) by (cases k) auto
  ultimately show "rune_size (take (rune_size s) s @ t) = rune_size s" by (simp add: s(4))
qed

lemma hex_val_digit: "n < 16 \<Longrightarrow> hex_val (hex_digit n) = Some n"
  by (auto simp: hex_val_def hex_digit_def Let_def)

lemma hex_byte: "of_char c < (0x80 :: nat) \<Longrightarrow> getu4 (CHR ''0'' # CHR ''0'' # hex_digit (of_char c div 16) # hex_digit (of_char c mod 16) # s) = Some (of_char c)"
proof -
  assume "of_char c < (0x80 :: nat)"
  moreover have "hex_val (CHR ''0'') = Some 0" by code_simp
  ultimately show ?thesis by (simp add: getu4_def hex_val_digit)
qed

lemma unquote_escape:
  assumes "ascii c"
  shows "unquote_body (escape c @ s) = map_option (\<lambda>(t, rest). (c # t, rest)) (unquote_body s)"
proof -
  have u: "unicode_escape (CHR ''0'' # CHR ''0'' # hex_digit (of_char c div 16) # hex_digit (of_char c mod 16) # s) = Some ([c], 4)"
    using assms by (simp add: unicode_escape_def hex_byte encode_rune_def)
  consider "html_safe c" | "\<not> html_safe c" "c \<in> {CHR 0x22, CHR 0x5C, CHR 0x08, CHR 0x0C, CHR 0x0A, CHR 0x0D, CHR 0x09}"
    | "\<not> html_safe c" "c \<notin> {CHR 0x22, CHR 0x5C, CHR 0x08, CHR 0x0C, CHR 0x0A, CHR 0x0D, CHR 0x09}" by blast
  then show ?thesis
  proof cases
    case 1
    then show ?thesis using assms by (auto simp: escape_def html_safe_def)
  next
    case 2
    then show ?thesis by (auto simp: escape_def simple_escape_def html_safe_def)
  next
    case 3
    then show ?thesis using u by (simp add: escape_def)
  qed
qed

lemma separator_escapes: "unicode_escape (''2028'' @ s) = Some ([byte 0xE2, byte 0x80, byte 0xA8], 4)"
  "unicode_escape (''2029'' @ s) = Some ([byte 0xE2, byte 0x80, byte 0xA9], 4)"
proof -
  have "hex_val (CHR ''2'') = Some 2" "hex_val (CHR ''0'') = Some 0" "hex_val (CHR ''8'') = Some 8" "hex_val (CHR ''9'') = Some 9"
    by code_simp+
  then show "unicode_escape (''2028'' @ s) = Some ([byte 0xE2, byte 0x80, byte 0xA8], 4)"
    "unicode_escape (''2029'' @ s) = Some ([byte 0xE2, byte 0x80, byte 0xA9], 4)"
    by (simp_all add: unicode_escape_def getu4_def encode_rune_def)
qed

lemma unquote_multibyte:
  "\<not> ascii c \<Longrightarrow> rune_size (c # y @ x) = Suc (length y) \<Longrightarrow>
     unquote_body (c # y @ x) = map_option (\<lambda>(t, rest). (c # y @ t, rest)) (unquote_body x)"
  by (auto simp: Let_def)

lemma unquote_quote:
  "valid_utf8 s \<Longrightarrow> unquote_body (quote_body s @ CHR 0x22 # rest) = Some (s, rest)"
proof (induction s rule: quote_body.induct)
  case (2 c s)
  show ?case
  proof (cases "ascii c")
    case True
    then show ?thesis using 2 by (simp add: unquote_escape)
  next
    case False
    define k where "k = rune_size (c # s)"
    have k: "k \<noteq> 0" "valid_utf8 (drop (k - 1) s)" using "2.prems" False by (auto simp: k_def)
    note rs = rune_size_spec [of "c # s", folded k_def, OF k(1)]
    have IH: "unquote_body (quote_body (drop (k - 1) s) @ CHR 0x22 # rest) = Some (drop (k - 1) s, rest)"
      using "2.IH"(3) [OF False k_def k(1) k(2)] .
    have td: "take k (c # s) @ drop (k - 1) s = c # s" using rs(1) by (cases k) auto
    show ?thesis
    proof (cases "take k (c # s) = [byte 0xE2, byte 0x80, byte 0xA8] \<or> take k (c # s) = [byte 0xE2, byte 0x80, byte 0xA9]")
      case True
      then show ?thesis using False k IH td separator_escapes
        by (auto simp: Let_def simp flip: k_def)
    next
      case plain: False
      define k' where "k' = k - 1"
      have k': "take k (c # s) = c # take k' s" "length (take k' s) = k'"
        using rs(1,2) by (auto simp: k'_def take_Cons' min_def)
      let ?X = "quote_body (drop k' s) @ CHR 0x22 # rest"
      have "rune_size (c # take k' s @ ?X) = Suc (length (take k' s))"
        using rs(3) [of ?X] rs(1) k' by (simp add: k'_def)
      from unquote_multibyte [OF False this]
      have "unquote_body (take k (c # s) @ ?X) = map_option (\<lambda>(t, rest). (take k (c # s) @ t, rest)) (unquote_body ?X)"
        by (simp add: k'(1))
      moreover have "quote_body (c # s) = take k (c # s) @ quote_body (drop k' s)"
        using False plain k(1) by (simp add: Let_def k'_def flip: k_def)
      ultimately show ?thesis using IH [folded k'_def] td [folded k'_def] by (simp del: quote_body.simps)
    qed
  qed
qed simp


lemma skip_space_cons [simp]: "c \<notin> {CHR 0x20, CHR 0x09, CHR 0x0A, CHR 0x0D} \<Longrightarrow> skip_space (c # s) = c # s"
  by (simp add: skip_space_def)

lemma read_item_quote: "valid_utf8 t \<Longrightarrow> read_item (json_quote t @ rest) = Some (t, rest)"
  using unquote_quote [of t rest] by (simp add: read_item_def json_quote_def has_prefix_def)

lemma read_items_join:
  "ts \<noteq> [] \<Longrightarrow> list_all valid_utf8 ts \<Longrightarrow> read_items (join_items (map json_quote ts) @ CHR '']'' # rest) = Some (ts, rest)"
proof (induction ts rule: join_items.induct)
  case (2 t)
  have "skip_space (json_quote t @ r) = json_quote t @ r" for r by (simp add: json_quote_def)
  with 2 show ?case by (subst read_items.simps) (simp add: read_item_quote)
next
  case (3 t u ts)
  have "skip_space (json_quote t @ r) = json_quote t @ r" for r by (simp add: json_quote_def)
  with 3 show ?case by (subst read_items.simps) (simp add: read_item_quote)
qed simp

text \<open>Every list of valid texts survives.\<close>

lemma marshal_round_trip: "list_all valid_utf8 ts \<Longrightarrow> unmarshal_strings (marshal_strings ts) = Some ts"
proof (cases ts)
  case Nil
  then show ?thesis by (simp add: unmarshal_strings_def marshal_strings_def has_prefix_def skip_space_def Let_def)
next
  case (Cons t us)
  assume "list_all valid_utf8 ts"
  with Cons have "read_items (join_items (map json_quote ts) @ [CHR '']'']) = Some (ts, [])" by (intro read_items_join) simp_all
  moreover have "\<exists>r. join_items (map json_quote ts) = CHR 0x22 # r" unfolding Cons by (cases us) (simp_all add: json_quote_def)
  ultimately show ?thesis
    by (auto simp: unmarshal_strings_def marshal_strings_def has_prefix_def Let_def) (simp add: skip_space_def)+
qed

end
