(* ===== verification/Rows.thy ===== *)
theory Rows
  imports Store_Inv Stored_Time Json_Text "HOL-Library.Monad_Syntax"
begin

text \<open>
  The SQL side of \<open>backend/internal/store\<close>: a row as the driver delivers it, \<open>database/sql\<close>'s
  conversions into Go variables, and the \<open>scan\<close> functions that build a record from a row.  \<open>host_row\<close>
  and its companions are the rows the statements store, in the order of the \<open>SELECT\<close> constants: times
  printed by \<open>formatTime\<close>, tags as JSON, a pointer that is nil as \<open>NULL\<close>.  The theorem at the end says
  that for these rows the lookups of \<open>Store\<close>, which work on records, are what scanning the selected
  rows gives.
\<close>

section \<open>Values\<close>

datatype sqlval = SNull | SInt int | SText string

type_synonym sqlrow = "sqlval list"

text \<open>\<open>convertAssign\<close> into a \<open>string\<close>, an \<open>int64\<close> (or \<open>int\<close>), a \<open>sql.NullString\<close> and a \<open>sql.NullInt64\<close>.\<close>

fun scan_string :: "sqlval \<Rightarrow> string option" where
  "scan_string SNull = None"
| "scan_string (SInt i) = Some (int_str i)"
| "scan_string (SText s) = Some s"

fun scan_int :: "sqlval \<Rightarrow> int option" where
  "scan_int SNull = None"
| "scan_int (SInt i) = Some i"
| "scan_int (SText s) = (case Atoi s of (i, err) \<Rightarrow> if err then None else Some i)"

definition scan_null :: "(sqlval \<Rightarrow> 'a option) \<Rightarrow> sqlval \<Rightarrow> 'a option option" where
  "scan_null scan v = (if v = SNull then Some None else map_option Some (scan v))"

text \<open>The error of a scan function: every error but a missing row is wrapped.\<close>

definition scanned :: "'a option \<Rightarrow> store_error + 'a" where
  "scanned r = (case r of None \<Rightarrow> Inl ErrSQL | Some x \<Rightarrow> Inr x)"

section \<open>The columns with a format of their own\<close>

definition orEmpty :: "string list option \<Rightarrow> string list" where
  "orEmpty tags = (case tags of None \<Rightarrow> [] | Some ts \<Rightarrow> ts)"

text \<open>Tags that do not parse are dropped.\<close>

definition scan_tags :: "string \<Rightarrow> string list" where
  "scan_tags s = orEmpty (unmarshal_strings s)"

text \<open>The \<open>CHECK\<close> clauses admit no other status.\<close>

definition host_status_text :: "HostStatus \<Rightarrow> string" where
  "host_status_text s =
     (case s of HostDiscovered \<Rightarrow> ''discovered'' | HostReady \<Rightarrow> ''ready''
              | HostInstalling \<Rightarrow> ''installing'' | HostError \<Rightarrow> ''error'')"

definition host_status :: "string \<Rightarrow> HostStatus option" where
  "host_status s = List.find (\<lambda>x. host_status_text x = s) [HostDiscovered, HostReady, HostInstalling, HostError]"

definition install_status_text :: "InstallationStatus \<Rightarrow> string" where
  "install_status_text s =
     (case s of InstallDiscovered \<Rightarrow> ''discovered'' | InstallWaiting \<Rightarrow> ''waiting''
              | InstallRunning \<Rightarrow> ''installing'' | InstallSuccess \<Rightarrow> ''success'' | InstallError \<Rightarrow> ''error'')"

definition install_status :: "string \<Rightarrow> InstallationStatus option" where
  "install_status s = List.find (\<lambda>x. install_status_text x = s)
     [InstallDiscovered, InstallWaiting, InstallRunning, InstallSuccess, InstallError]"

section \<open>Scanning\<close>

text \<open>\<open>QueryRow\<close>: \<open>None\<close> is \<open>sql.ErrNoRows\<close>.\<close>

definition scanUser :: "sqlrow option \<Rightarrow> store_error + User" where
  "scanUser row =
     (case row of
        None \<Rightarrow> Inl ErrNotFound
      | Some [c1, c2, c3, c4, c5, c6] \<Rightarrow> scanned (do {
          i \<leftarrow> scan_int c1; username \<leftarrow> scan_string c2; password \<leftarrow> scan_string c3;
          role \<leftarrow> scan_string c4; locale' \<leftarrow> scan_string c5; created \<leftarrow> scan_string c6;
          Some \<lparr>uID = i, uUsername = username, uPasswordHash = password, uRole = role,
            uLocale = locale', uCreatedAt = parseTime created\<rparr> })
      | _ \<Rightarrow> Inl ErrSQL)"

definition oneProfileVersion :: "sqlrow option \<Rightarrow> store_error + ProfileVersion" where
  "oneProfileVersion row =
     (case row of
        None \<Rightarrow> Inl ErrNotFound
      | Some [c1, c2, c3, c4, c5, c6] \<Rightarrow> scanned (do {
          i \<leftarrow> scan_int c1; profile \<leftarrow> scan_int c2; version \<leftarrow> scan_int c3;
          config \<leftarrow> scan_string c4; override \<leftarrow> scan_string c5; created \<leftarrow> scan_string c6;
          Some \<lparr>pvID = i, pvProfileID = profile, pvVersion = version, pvConfig = config,
            pvAnswerOverride = override, pvCreatedAt = parseTime created\<rparr> })
      | _ \<Rightarrow> Inl ErrSQL)"

text \<open>The functions on \<open>sql.Rows\<close>, whose \<open>Scan\<close> never reports a missing row.\<close>

definition scanISO :: "sqlrow \<Rightarrow> store_error + ISOImage" where
  "scanISO row =
     (case row of
        [c1, c2, c3, c4, c5, c6, c7, c8, c9, c10, c11, c12] \<Rightarrow> scanned (do {
          i \<leftarrow> scan_int c1; filename \<leftarrow> scan_string c2; provider \<leftarrow> scan_string c3;
          os \<leftarrow> scan_string c4; version \<leftarrow> scan_string c5; arch \<leftarrow> scan_string c6;
          loader \<leftarrow> scan_string c7; method \<leftarrow> scan_string c8; bytes \<leftarrow> scan_int c9;
          sum \<leftarrow> scan_string c10; status \<leftarrow> scan_string c11; created \<leftarrow> scan_string c12;
          Some \<lparr>isID = i, isFilename = filename, isProvider = provider, isOSName = os, isVersion = version,
            isArch = arch, isBootloader = loader, isInstallMethod = method, isSizeBytes = bytes,
            isSHA256 = sum, isStatus = status, isCreatedAt = parseTime created\<rparr> })
      | _ \<Rightarrow> Inl ErrSQL)"

definition scanProfile :: "sqlrow \<Rightarrow> store_error + Profile" where
  "scanProfile row =
     (case row of
        [c1, c2, c3, c4, c5, c6, c7] \<Rightarrow> scanned (do {
          i \<leftarrow> scan_int c1; name \<leftarrow> scan_string c2; provider \<leftarrow> scan_string c3;
          isoID \<leftarrow> scan_null scan_int c4; current \<leftarrow> scan_int c5;
          created \<leftarrow> scan_string c6; updated \<leftarrow> scan_string c7;
          Some \<lparr>pfID = i, pfName = name, pfProvider = provider, pfISOID = isoID, pfCurrentVersion = current,
            pfCreatedAt = parseTime created, pfUpdatedAt = parseTime updated\<rparr> })
      | _ \<Rightarrow> Inl ErrSQL)"

definition scanHost :: "sqlrow \<Rightarrow> store_error + Host" where
  "scanHost row =
     (case row of
        [c1, c2, c3, c4, c5, c6, c7, c8, c9, c10, c11, c12, c13, c14, c15] \<Rightarrow> scanned (do {
          i \<leftarrow> scan_int c1; mac \<leftarrow> scan_string c2; hostname \<leftarrow> scan_string c3;
          vendor \<leftarrow> scan_string c4; model \<leftarrow> scan_string c5; serial \<leftarrow> scan_string c6;
          asset \<leftarrow> scan_string c7; tags \<leftarrow> scan_string c8; firmware \<leftarrow> scan_string c9;
          arch \<leftarrow> scan_string c10; profileID \<leftarrow> scan_null scan_int c11; version \<leftarrow> scan_int c12;
          status \<leftarrow> Option.bind (scan_string c13) host_status;
          created \<leftarrow> scan_string c14; updated \<leftarrow> scan_string c15;
          Some \<lparr>hID = i, hMAC = mac, hHostname = hostname, hVendor = vendor, hModel = model,
            hSerial = serial, hAssetID = asset, hTags = scan_tags tags, hFirmware = firmware, hArch = arch,
            hProfileID = profileID, hProfileVersion = version, hStatus = status,
            hCreatedAt = parseTime created, hUpdatedAt = parseTime updated\<rparr> })
      | _ \<Rightarrow> Inl ErrSQL)"

definition scanInstallation :: "sqlrow \<Rightarrow> store_error + Installation" where
  "scanInstallation row =
     (case row of
        [c1, c2, c3, c4, c5, c6, c7, c8, c9] \<Rightarrow> scanned (do {
          i \<leftarrow> scan_int c1; host \<leftarrow> scan_int c2; version \<leftarrow> scan_int c3;
          status \<leftarrow> Option.bind (scan_string c4) install_status;
          started \<leftarrow> scan_null scan_string c5; finished \<leftarrow> scan_null scan_string c6;
          log \<leftarrow> scan_string c7; token \<leftarrow> scan_string c8; created \<leftarrow> scan_string c9;
          Some \<lparr>inID = i, inHostID = host, inProfileVersionID = version, inStatus = status,
            inStartedAt = map_option parseTime started, inFinishedAt = map_option parseTime finished,
            inLog = log, inToken = token, inCreatedAt = parseTime created\<rparr> })
      | _ \<Rightarrow> Inl ErrSQL)"

text \<open>The first row of a query, or \<open>ErrNotFound\<close>; all rows of a query.\<close>

definition one_row :: "(sqlrow \<Rightarrow> store_error + 'a) \<Rightarrow> sqlrow list \<Rightarrow> store_error + 'a" where
  "one_row scan rows = (case rows of [] \<Rightarrow> Inl ErrNotFound | r # _ \<Rightarrow> scan r)"

definition oneInstallation :: "sqlrow list \<Rightarrow> store_error + Installation" where
  "oneInstallation rows = one_row scanInstallation rows"

fun all_rows :: "(sqlrow \<Rightarrow> store_error + 'a) \<Rightarrow> sqlrow list \<Rightarrow> store_error + 'a list" where
  "all_rows scan [] = Inr []"
| "all_rows scan (r # rs) =
     (case scan r of
        Inl e \<Rightarrow> Inl e
      | Inr x \<Rightarrow> (case all_rows scan rs of Inl e \<Rightarrow> Inl e | Inr xs \<Rightarrow> Inr (x # xs)))"

section \<open>The stored rows\<close>

definition null_int :: "int option \<Rightarrow> sqlval" where
  "null_int x = (case x of None \<Rightarrow> SNull | Some i \<Rightarrow> SInt i)"

definition time_text :: "instant \<Rightarrow> sqlval" where
  "time_text t = SText (formatTime t)"

definition null_time :: "instant option \<Rightarrow> sqlval" where
  "null_time x = (case x of None \<Rightarrow> SNull | Some t \<Rightarrow> time_text t)"

definition user_row :: "User \<Rightarrow> sqlrow" where
  "user_row u = [SInt (uID u), SText (uUsername u), SText (uPasswordHash u), SText (uRole u),
     SText (uLocale u), time_text (uCreatedAt u)]"

definition version_row :: "ProfileVersion \<Rightarrow> sqlrow" where
  "version_row v = [SInt (pvID v), SInt (pvProfileID v), SInt (pvVersion v), SText (pvConfig v),
     SText (pvAnswerOverride v), time_text (pvCreatedAt v)]"

definition iso_row :: "ISOImage \<Rightarrow> sqlrow" where
  "iso_row x = [SInt (isID x), SText (isFilename x), SText (isProvider x), SText (isOSName x),
     SText (isVersion x), SText (isArch x), SText (isBootloader x), SText (isInstallMethod x),
     SInt (isSizeBytes x), SText (isSHA256 x), SText (isStatus x), time_text (isCreatedAt x)]"

definition profile_row :: "Profile \<Rightarrow> sqlrow" where
  "profile_row p = [SInt (pfID p), SText (pfName p), SText (pfProvider p), null_int (pfISOID p),
     SInt (pfCurrentVersion p), time_text (pfCreatedAt p), time_text (pfUpdatedAt p)]"

definition host_row :: "Host \<Rightarrow> sqlrow" where
  "host_row h = [SInt (hID h), SText (hMAC h), SText (hHostname h), SText (hVendor h), SText (hModel h),
     SText (hSerial h), SText (hAssetID h), SText (marshal_strings (orEmpty (Some (hTags h)))),
     SText (hFirmware h), SText (hArch h), null_int (hProfileID h), SInt (hProfileVersion h),
     SText (host_status_text (hStatus h)), time_text (hCreatedAt h), time_text (hUpdatedAt h)]"

definition install_row :: "Installation \<Rightarrow> sqlrow" where
  "install_row i = [SInt (inID i), SInt (inHostID i), SInt (inProfileVersionID i),
     SText (install_status_text (inStatus i)), null_time (inStartedAt i), null_time (inFinishedAt i),
     SText (inLog i), SText (inToken i), time_text (inCreatedAt i)]"

section \<open>Scanning a stored row\<close>

text \<open>An instant a column can hold.\<close>

definition storable :: "instant \<Rightarrow> bool" where
  "storable t \<longleftrightarrow> four_digit_year t \<and> stored_time t = t"

lemma parse_storable: "storable t \<Longrightarrow> parseTime (formatTime t) = t"
  using parse_format [of t] by (simp add: storable_def parseTime_def)

lemma host_status_round_trip: "host_status (host_status_text s) = Some s"
  by (cases s) (simp_all add: host_status_def host_status_text_def)

lemma install_status_round_trip: "install_status (install_status_text s) = Some s"
  by (cases s) (simp_all add: install_status_def install_status_text_def)

lemma scan_null_int: "scan_null scan_int (null_int x) = Some x"
  by (cases x) (simp_all add: scan_null_def null_int_def)

lemma scan_null_time:
  "pred_option storable x \<Longrightarrow> scan_null scan_string (null_time x) = Some (map_option formatTime x)"
  by (cases x) (simp_all add: scan_null_def null_time_def time_text_def)

lemma parse_null_time: "pred_option storable x \<Longrightarrow> map_option (\<lambda>t. parseTime (formatTime t)) x = x"
  by (cases x) (simp_all add: parse_storable)

lemma scan_time [simp]: "scan_string (time_text t) = Some (formatTime t)"
  by (simp add: time_text_def)

lemma scan_tags_round_trip: "list_all valid_utf8 ts \<Longrightarrow> scan_tags (marshal_strings ts) = ts"
  by (simp add: scan_tags_def marshal_round_trip orEmpty_def)

lemma scan_user_row: "storable (uCreatedAt u) \<Longrightarrow> scanUser (Some (user_row u)) = Inr u"
  by (simp add: scanUser_def user_row_def scanned_def parse_storable)

lemma scan_version_row: "storable (pvCreatedAt v) \<Longrightarrow> oneProfileVersion (Some (version_row v)) = Inr v"
  by (simp add: oneProfileVersion_def version_row_def scanned_def parse_storable)

lemma scan_iso_row: "storable (isCreatedAt x) \<Longrightarrow> scanISO (iso_row x) = Inr x"
  by (simp add: scanISO_def iso_row_def scanned_def parse_storable)

lemma scan_profile_row: "storable (pfCreatedAt p) \<Longrightarrow> storable (pfUpdatedAt p) \<Longrightarrow> scanProfile (profile_row p) = Inr p"
  by (simp add: scanProfile_def profile_row_def scanned_def parse_storable scan_null_int)

lemma scan_host_row:
  "storable (hCreatedAt h) \<Longrightarrow> storable (hUpdatedAt h) \<Longrightarrow> list_all valid_utf8 (hTags h) \<Longrightarrow> scanHost (host_row h) = Inr h"
  by (simp add: scanHost_def host_row_def scanned_def parse_storable scan_null_int orEmpty_def [of "Some _"]
      scan_tags_round_trip host_status_round_trip)

lemma scan_install_row:
  "storable (inCreatedAt i) \<Longrightarrow> pred_option storable (inStartedAt i) \<Longrightarrow> pred_option storable (inFinishedAt i) \<Longrightarrow>
     scanInstallation (install_row i) = Inr i"
  by (simp add: scanInstallation_def install_row_def scanned_def parse_storable scan_null_time
      install_status_round_trip option.map_comp comp_def parse_null_time)

section \<open>Every stored instant is a whole second\<close>

text \<open>The instants in the columns of a table, of a database.\<close>

definition rows_times :: "('r \<Rightarrow> instant set) \<Rightarrow> 'r list \<Rightarrow> instant set" where
  "rows_times g rows = (\<Union>r\<in>set rows. g r)"

definition install_times :: "Installation \<Rightarrow> instant set" where
  "install_times i = {inCreatedAt i} \<union> set_option (inStartedAt i) \<union> set_option (inFinishedAt i)"

definition db_times :: "db \<Rightarrow> instant set" where
  "db_times d =
     rows_times (\<lambda>u. {uCreatedAt u}) (users d) \<union> rows_times (\<lambda>s. {sCreatedAt s, sExpiresAt s}) (sessions d) \<union>
     rows_times (\<lambda>x. {isCreatedAt x}) (isos d) \<union> rows_times (\<lambda>p. {pfCreatedAt p, pfUpdatedAt p}) (profiles d) \<union>
     rows_times (\<lambda>v. {pvCreatedAt v}) (versions d) \<union> rows_times (\<lambda>h. {hCreatedAt h, hUpdatedAt h}) (hosts d) \<union>
     rows_times install_times (installs d) \<union> rows_times (\<lambda>l. {leExpiresAt l}) (leases d) \<union>
     rows_times (\<lambda>a. {auAt a}) (audit d)"

lemma times_keep: "rows_times g xs \<subseteq> rows_times g xs \<union> S" by blast

lemma times_snoc: "g x \<subseteq> S \<Longrightarrow> rows_times g (xs @ [x]) \<subseteq> rows_times g xs \<union> S"
  by (auto simp: rows_times_def)

lemma times_delete: "rows_times g (delete_rows P xs) \<subseteq> rows_times g xs \<union> S"
  by (auto simp: rows_times_def)

lemma times_update: "(\<And>r. g (f r) \<subseteq> g r \<union> S) \<Longrightarrow> rows_times g (update_rows P f xs) \<subseteq> rows_times g xs \<union> S"
  by (fastforce simp: rows_times_def set_update_rows)

lemmas times_intros = times_keep times_delete times_snoc times_update

text \<open>A write adds only instants read off the clock, to the second.\<close>

definition adds_seconds :: "db \<Rightarrow> db \<Rightarrow> bool" where
  "adds_seconds d d' \<longleftrightarrow> db_times d' \<subseteq> db_times d \<union> range stored_time"

lemma adds_seconds_refl [simp]: "adds_seconds d d"
  by (simp add: adds_seconds_def)

lemma adds_seconds_step:
  fixes d d' :: db
  defines "S \<equiv> range stored_time"
  assumes "rows_times (\<lambda>u. {uCreatedAt u}) (users d') \<subseteq> rows_times (\<lambda>u. {uCreatedAt u}) (users d) \<union> S"
    and "rows_times (\<lambda>s. {sCreatedAt s, sExpiresAt s}) (sessions d') \<subseteq> rows_times (\<lambda>s. {sCreatedAt s, sExpiresAt s}) (sessions d) \<union> S"
    and "rows_times (\<lambda>x. {isCreatedAt x}) (isos d') \<subseteq> rows_times (\<lambda>x. {isCreatedAt x}) (isos d) \<union> S"
    and "rows_times (\<lambda>p. {pfCreatedAt p, pfUpdatedAt p}) (profiles d') \<subseteq> rows_times (\<lambda>p. {pfCreatedAt p, pfUpdatedAt p}) (profiles d) \<union> S"
    and "rows_times (\<lambda>v. {pvCreatedAt v}) (versions d') \<subseteq> rows_times (\<lambda>v. {pvCreatedAt v}) (versions d) \<union> S"
    and "rows_times (\<lambda>h. {hCreatedAt h, hUpdatedAt h}) (hosts d') \<subseteq> rows_times (\<lambda>h. {hCreatedAt h, hUpdatedAt h}) (hosts d) \<union> S"
    and "rows_times install_times (installs d') \<subseteq> rows_times install_times (installs d) \<union> S"
    and "rows_times (\<lambda>l. {leExpiresAt l}) (leases d') \<subseteq> rows_times (\<lambda>l. {leExpiresAt l}) (leases d) \<union> S"
    and "rows_times (\<lambda>a. {auAt a}) (audit d') \<subseteq> rows_times (\<lambda>a. {auAt a}) (audit d) \<union> S"
  shows "adds_seconds d d'"
  unfolding adds_seconds_def db_times_def S_def [symmetric] using assms(2-) by (intro Un_least) (erule order_trans, blast)+

lemma appendProfileVersion_times:
  "appendProfileVersion now d i c = Inr (d', x) \<Longrightarrow> adds_seconds d d'"
  by (clarsimp simp: appendProfileVersion_def Let_def split: if_splits;
      rule adds_seconds_step; ((simp; fail) | (simp, rule times_snoc times_update, auto)))

lemma editHeadVersion_times:
  "editHeadVersion d i c = Inr (d', x) \<Longrightarrow> adds_seconds d d'"
  by (clarsimp simp: editHeadVersion_def Let_def split: if_splits option.splits;
      rule adds_seconds_step; ((simp; fail) | (simp, rule times_update, auto)))

lemma update_host_times:
  "rows_times (\<lambda>h. {hCreatedAt h, hUpdatedAt h})
     (update_rows P (\<lambda>r. h\<lparr>hID := hID r, hCreatedAt := hCreatedAt r, hUpdatedAt := stored_time now\<rparr>) hs) \<subseteq>
   rows_times (\<lambda>h. {hCreatedAt h, hUpdatedAt h}) hs \<union> range stored_time"
  by (rule times_update) auto

lemma db_step_seconds: "db_step d d' \<Longrightarrow> adds_seconds d d'"
proof (induction rule: db_step.induct)
  case (step_UpdateProfile now d i n isoID c nv d' pr)
  let ?d1 = "d\<lparr>profiles := update_rows (\<lambda>p. pfID p = i)
                    (\<lambda>p. p\<lparr>pfName := n, pfISOID := isoID, pfUpdatedAt := stored_time now\<rparr>) (profiles d)\<rparr>"
  have d1: "adds_seconds d ?d1"
    by (rule adds_seconds_step; ((simp; fail) | (simp, rule times_update, auto)))
  obtain x where "(case c of None \<Rightarrow> Inr (?d1, ()) | Some c \<Rightarrow>
      if nv then appendProfileVersion now ?d1 i c else editHeadVersion ?d1 i c) = Inr (d', x)"
    using step_UpdateProfile by (auto simp: UpdateProfile_def Let_def split: if_splits sum.splits option.splits prod.splits)
  then have "adds_seconds ?d1 d'"
    by (auto split: option.splits if_splits dest!: appendProfileVersion_times editHeadVersion_times)
  with d1 show ?case by (auto simp: adds_seconds_def)
qed (clarsimp simp: CreateUser_def UpdateUserRole_def UpdateUserPassword_def DeleteUser_def AddAudit_def CreateSession_def DeleteSession_def DeleteExpiredSessions_def SetSetting_def CreateISO_def DeleteISO_def CreateProfile_def DeleteProfile_def SetAnswerOverride_def CreateHost_def DeleteHost_def CreateInstallation_def MarkInstallationStarted_def MarkInstallationFinished_def DeleteInstallation_def store_UpsertLease_def
      store_DeleteLease_def UpdateHost_def Let_def split: if_splits sum.splits;
    rule adds_seconds_step; ((simp; fail) | (simp, (rule times_snoc times_delete update_host_times times_update; auto simp: install_times_def))))+


lemma stored_whole_seconds:
  assumes "db_step\<^sup>*\<^sup>* empty_db d" and "t \<in> db_times d"
  shows "stored_time t = t"
proof -
  have "db_times d \<subseteq> range stored_time"
    using assms(1)
  proof (induction rule: rtranclp_induct)
    case base
    then show ?case by (simp add: db_times_def empty_db_def rows_times_def)
  next
    case (step d d')
    then show ?case using db_step_seconds [of d d'] by (auto simp: adds_seconds_def)
  qed
  with assms(2) show ?thesis by auto
qed

section \<open>The record store is what scanning gives\<close>

text \<open>\<open>WHERE col = v\<close> and the row \<open>QueryRow\<close> takes.\<close>

definition where_col :: "nat \<Rightarrow> sqlval \<Rightarrow> sqlrow list \<Rightarrow> sqlrow list" where
  "where_col c v rows = filter (\<lambda>r. r ! c = v) rows"

definition first_row :: "sqlrow list \<Rightarrow> sqlrow option" where
  "first_row rows = (case rows of [] \<Rightarrow> None | r # _ \<Rightarrow> Some r)"

text \<open>A database whose columns the driver gives back unchanged.\<close>

definition readable :: "db \<Rightarrow> bool" where
  "readable d \<longleftrightarrow> (\<forall>t\<in>db_times d. storable t) \<and> (\<forall>h\<in>set (hosts d). list_all valid_utf8 (hTags h))"

lemma one_row_found:
  "\<forall>x\<in>set xs. scan (row x) = Inr x \<Longrightarrow> one_row scan (filter Q (map row xs)) = found (List.find (\<lambda>x. Q (row x)) xs)"
  by (induction xs) (auto simp: one_row_def found_def)

lemma first_row_found:
  "\<forall>x\<in>set xs. scan (Some (row x)) = Inr x \<Longrightarrow> scan None = Inl ErrNotFound \<Longrightarrow>
     scan (first_row (filter Q (map row xs))) = found (List.find (\<lambda>x. Q (row x)) xs)"
  by (induction xs) (auto simp: first_row_def found_def)

lemma all_rows_scan: "\<forall>x\<in>set xs. scan (row x) = Inr x \<Longrightarrow> all_rows scan (map row xs) = Inr xs"
  by (induction xs) auto

lemma readable_times:
  assumes "readable d"
  shows "u \<in> set (users d) \<Longrightarrow> storable (uCreatedAt u)"
    and "v \<in> set (versions d) \<Longrightarrow> storable (pvCreatedAt v)"
    and "x \<in> set (isos d) \<Longrightarrow> storable (isCreatedAt x)"
    and "p \<in> set (profiles d) \<Longrightarrow> storable (pfCreatedAt p) \<and> storable (pfUpdatedAt p)"
    and "h \<in> set (hosts d) \<Longrightarrow> storable (hCreatedAt h) \<and> storable (hUpdatedAt h)"
    and "i \<in> set (installs d) \<Longrightarrow> t \<in> install_times i \<Longrightarrow> storable t"
    and "s \<in> set (sessions d) \<Longrightarrow> storable (sCreatedAt s) \<and> storable (sExpiresAt s)"
    and "l \<in> set (leases d) \<Longrightarrow> storable (leExpiresAt l)"
  using assms by (simp_all add: readable_def db_times_def rows_times_def ball_Un)

lemma readable_rows:
  assumes "readable d"
  shows "\<forall>u\<in>set (users d). scanUser (Some (user_row u)) = Inr u"
    and "\<forall>v\<in>set (versions d). oneProfileVersion (Some (version_row v)) = Inr v"
    and "\<forall>x\<in>set (isos d). scanISO (iso_row x) = Inr x"
    and "\<forall>p\<in>set (profiles d). scanProfile (profile_row p) = Inr p"
    and "\<forall>h\<in>set (hosts d). scanHost (host_row h) = Inr h"
    and "\<forall>i\<in>set (installs d). scanInstallation (install_row i) = Inr i"
proof -
  have "scanInstallation (install_row i) = Inr i" if "i \<in> set (installs d)" for i
    using readable_times(6) [OF assms that]
    by (intro scan_install_row) (auto simp: install_times_def option.pred_set)
  then show "\<forall>i\<in>set (installs d). scanInstallation (install_row i) = Inr i" by blast
  have "scanHost (host_row h) = Inr h" if "h \<in> set (hosts d)" for h
    using readable_times(5) [OF assms that] assms that by (intro scan_host_row) (auto simp: readable_def)
  then show "\<forall>h\<in>set (hosts d). scanHost (host_row h) = Inr h" by blast
qed (use readable_times [OF assms] in \<open>auto intro: scan_user_row scan_version_row scan_iso_row scan_profile_row\<close>)

lemma where_ext: "(\<And>x. Q (row x) \<longleftrightarrow> P x) \<Longrightarrow> List.find (\<lambda>x. Q (row x)) xs = List.find P xs"
  by (simp cong: find_cong)

lemma active_row: "inHostID i = h \<and> install_active i \<longleftrightarrow>
    install_row i ! 1 = SInt h \<and> install_row i ! 3 \<in> {SText ''waiting'', SText ''installing''}"
  by (cases "inStatus i") (auto simp: install_row_def install_active_def install_status_text_def)

text \<open>C11: The store on records is the store on rows.  In every database the writes can produce, with
  years of four digits and tags in UTF-8, each lookup gives what the scan function makes of the first
  row the SQL statement selects, a listing what it makes of all rows, and the statements that compare
  times pick by the texts the rows that \<open>Store\<close> picks by the instants.\<close>

theorem store_reads_rows:
  assumes reach: "db_step\<^sup>*\<^sup>* empty_db d"
    and years: "\<forall>t\<in>db_times d. four_digit_year t" "four_digit_year now"
    and tags: "\<forall>h\<in>set (hosts d). list_all valid_utf8 (hTags h)"
  shows "UserByID d i = scanUser (first_row (where_col 0 (SInt i) (map user_row (users d)))) \<and>
    ProfileVersionByID d i = oneProfileVersion (first_row (where_col 0 (SInt i) (map version_row (versions d)))) \<and>
    ISOByFilename d f = one_row scanISO (where_col 1 (SText f) (map iso_row (isos d))) \<and>
    ProfileByID d i = one_row scanProfile (where_col 0 (SInt i) (map profile_row (profiles d))) \<and>
    HostByID d i = one_row scanHost (where_col 0 (SInt i) (map host_row (hosts d))) \<and>
    HostByMAC d mac = one_row scanHost (where_col 1 (SText mac) (map host_row (hosts d))) \<and>
    InstallationByID d i = oneInstallation (where_col 0 (SInt i) (map install_row (installs d))) \<and>
    ActiveInstallationForHost d i = oneInstallation (rev (filter (\<lambda>r. r ! 1 = SInt i \<and>
      r ! 3 \<in> {SText ''waiting'', SText ''installing''}) (map install_row (installs d)))) \<and>
    all_rows scanHost (map host_row (hosts d)) = Inr (ListHosts d) \<and>
    DeleteExpiredSessions d now =
      Inr (d\<lparr>sessions := filter (\<lambda>s. \<not> formatTime (sExpiresAt s) \<le> formatTime now) (sessions d)\<rparr>, ()) \<and>
    ActiveLeases d now = filter (\<lambda>l. formatTime (leExpiresAt l) > formatTime now) (leases d)"
proof (intro conjI)
  have rd: "readable d"
    using years(1) tags stored_whole_seconds [OF reach] by (simp add: readable_def storable_def)
  note rows = readable_rows [OF rd]
  have none: "scanUser None = Inl ErrNotFound" "oneProfileVersion None = Inl ErrNotFound"
    by (simp_all add: scanUser_def oneProfileVersion_def)
  show "UserByID d i = scanUser (first_row (where_col 0 (SInt i) (map user_row (users d))))"
    unfolding where_col_def first_row_found [of "users d" scanUser user_row, OF rows(1) none(1)] by (simp add: UserByID_def row_by_def user_row_def)
  show "ProfileVersionByID d i = oneProfileVersion (first_row (where_col 0 (SInt i) (map version_row (versions d))))"
    unfolding where_col_def first_row_found [of "versions d" oneProfileVersion version_row, OF rows(2) none(2)] by (simp add: ProfileVersionByID_def row_by_def version_row_def)
  show "ISOByFilename d f = one_row scanISO (where_col 1 (SText f) (map iso_row (isos d)))"
    unfolding where_col_def one_row_found [of "isos d" scanISO iso_row, OF rows(3)] by (simp add: ISOByFilename_def row_by_def iso_row_def)
  show "ProfileByID d i = one_row scanProfile (where_col 0 (SInt i) (map profile_row (profiles d)))"
    unfolding where_col_def one_row_found [of "profiles d" scanProfile profile_row, OF rows(4)] by (simp add: ProfileByID_def row_by_def profile_row_def)
  show "HostByID d i = one_row scanHost (where_col 0 (SInt i) (map host_row (hosts d)))"
    unfolding where_col_def one_row_found [of "hosts d" scanHost host_row, OF rows(5)] by (simp add: HostByID_def row_by_def host_row_def)
  show "HostByMAC d mac = one_row scanHost (where_col 1 (SText mac) (map host_row (hosts d)))"
    unfolding where_col_def one_row_found [of "hosts d" scanHost host_row, OF rows(5)] by (simp add: HostByMAC_def row_by_def host_row_def)
  show "InstallationByID d i = oneInstallation (where_col 0 (SInt i) (map install_row (installs d)))"
    unfolding where_col_def oneInstallation_def one_row_found [of "installs d" scanInstallation install_row, OF rows(6)]
    by (simp add: InstallationByID_def row_by_def install_row_def)
  have rev_rows: "\<forall>n\<in>set (rev (installs d)). scanInstallation (install_row n) = Inr n"
    using rows(6) by simp
  show "ActiveInstallationForHost d i = oneInstallation (rev (filter (\<lambda>r. r ! 1 = SInt i \<and>
      r ! 3 \<in> {SText ''waiting'', SText ''installing''}) (map install_row (installs d))))"
    unfolding oneInstallation_def rev_filter rev_map one_row_found [of "rev (installs d)" scanInstallation install_row, OF rev_rows] ActiveInstallationForHost_def active_row ..
  show "all_rows scanHost (map host_row (hosts d)) = Inr (ListHosts d)"
    by (simp add: ListHosts_def all_rows_scan [of "hosts d" scanHost host_row, OF rows(5)])
  have le: "formatTime t \<le> formatTime now \<longleftrightarrow> t \<le> stored_time now" if "storable t" for t
    using formatTime_le [of t now] that years(2) by (simp add: storable_def)
  show "DeleteExpiredSessions d now =
      Inr (d\<lparr>sessions := filter (\<lambda>s. \<not> formatTime (sExpiresAt s) \<le> formatTime now) (sessions d)\<rparr>, ())"
    using readable_times(7) [OF rd] by (simp add: DeleteExpiredSessions_def delete_rows_def le cong: filter_cong)
  show "ActiveLeases d now = filter (\<lambda>l. formatTime (leExpiresAt l) > formatTime now) (leases d)"
    using readable_times(8) [OF rd] by (simp add: ActiveLeases_def le flip: not_le cong: filter_cong)
qed

definition sample_host :: Host where
  "sample_host = \<lparr>hID = 0, hMAC = ''52:54:00:12:34:56'', hHostname = ''node-1'', hVendor = [], hModel = [], hSerial = [],
     hAssetID = [], hTags = [''rack 1'', ''R&D''], hFirmware = ''uefi'', hArch = ''x86_64'', hProfileID = None,
     hProfileVersion = 0, hStatus = HostReady, hCreatedAt = 0, hUpdatedAt = 0\<rparr>"

theorem store_reads_rows_witness:
  "\<exists>d h. CreateHost 1767268800500000000 empty_db sample_host = Inr (d, h) \<and>
     one_row scanHost (where_col 1 (SText ''52:54:00:12:34:56'') (map host_row (hosts d))) = Inr h \<and>
     hTags h = [''rack 1'', ''R&D''] \<and> hCreatedAt h = 1767268800000000000"
proof -
  obtain d h where c: "CreateHost 1767268800500000000 empty_db sample_host = Inr (d, h)"
    by (simp add: CreateHost_def empty_db_def sample_host_def firmware_ok_def profile_ref_ok_def Let_def)
  then have h: "hosts d = [h]" "h = sample_host\<lparr>hID := 1, hCreatedAt := 1767268800000000000, hUpdatedAt := 1767268800000000000\<rparr>"
    "db_times d = {1767268800000000000}"
    by (auto simp: CreateHost_def empty_db_def firmware_ok_def profile_ref_ok_def Let_def stored_time_def
        db_times_def rows_times_def split: if_splits)
  have reach: "db_step\<^sup>*\<^sup>* empty_db d" using step_CreateHost [OF c] by (rule r_into_rtranclp)
  have "HostByMAC d ''52:54:00:12:34:56'' = one_row scanHost (where_col 1 (SText ''52:54:00:12:34:56'') (map host_row (hosts d)))"
    using store_reads_rows [OF reach, where now = 0 and mac = "''52:54:00:12:34:56''"] by (auto simp: h four_digit_year_def sample_host_def)
  moreover have "HostByMAC d ''52:54:00:12:34:56'' = Inr h"
    by (simp add: HostByMAC_def row_by_def found_def h sample_host_def)
  ultimately show ?thesis using c h(2) by (auto simp: sample_host_def)
qed

end
