(* ===== verification/Middleware.thy ===== *)
theory Middleware
  imports Server_Safety
begin

text \<open>
  The wrappers around every handler, \<open>backend/internal/api/middleware.go\<close>: \<open>recoverPanics\<close>,
  \<open>securityHeaders\<close>, \<open>logRequests\<close> with its \<open>statusRecorder\<close>, and the request context \<open>require\<close> hands the
  user in.  A handler is what it does to its \<open>ResponseWriter\<close>: the list of its calls, and whether it
  then panics.  The semantics of the calls is \<open>net/http\<close>'s: the first \<open>WriteHeader\<close> sends the status
  with the headers set so far, a write before it sends 200, and what comes later changes neither.
  \<open>Server\<close> keeps only the outcome of a handler; the theorem here says that the wrapped writer sends
  that outcome, and the headers, whatever happens.
\<close>

section \<open>The response writer\<close>

datatype writer_op =
  SetHeader string string
| SetCookie string int
| WriteHeader int
| Write payload

type_synonym trace = "writer_op list \<times> bool"  \<comment> \<open>the calls, and a panic after them\<close>

record response =
  rsHeader :: "string \<rightharpoonup> string"
  rsCookie :: "(string \<times> int) option"
  rsSent :: "(int \<times> (string \<rightharpoonup> string) \<times> (string \<times> int) option) option"
  rsWritten :: "payload list"

definition new_response :: response where
  "new_response = \<lparr>rsHeader = Map.empty, rsCookie = None, rsSent = None, rsWritten = []\<rparr>"

definition send_header :: "int \<Rightarrow> response \<Rightarrow> response" where
  "send_header code w = (if rsSent w = None then w\<lparr>rsSent := Some (code, rsHeader w, rsCookie w)\<rparr> else w)"

fun writer_step :: "writer_op \<Rightarrow> response \<Rightarrow> response" where
  "writer_step (SetHeader k v) w = w\<lparr>rsHeader := (rsHeader w)(k \<mapsto> v)\<rparr>"
| "writer_step (SetCookie val maxAge) w = w\<lparr>rsCookie := Some (val, maxAge)\<rparr>"
| "writer_step (WriteHeader code) w = send_header code w"
| "writer_step (Write p) w = (let w' = send_header 200 w in w'\<lparr>rsWritten := rsWritten w' @ [p]\<rparr>)"

text \<open>The reply the server sends for the calls: one that wrote nothing is an empty 200.\<close>

definition reply_of :: "writer_op list \<Rightarrow> response" where
  "reply_of ops = send_header 200 (fold writer_step ops new_response)"

section \<open>The wrappers\<close>

definition error_ops :: "int \<Rightarrow> string \<Rightarrow> writer_op list" where
  "error_ops code err =
     [SetHeader ''Content-Type'' ''application/json; charset=utf-8'', WriteHeader code, Write (ErrorCode err)]"

definition recover_panics :: "trace \<Rightarrow> trace" where
  "recover_panics t = (case t of (ops, panics) \<Rightarrow> (if panics then ops @ error_ops 500 ''internal'' else ops, False))"

definition securityHeaders :: "trace \<Rightarrow> trace" where
  "securityHeaders t =
     (case t of (ops, panics) \<Rightarrow>
        ([SetHeader ''X-Content-Type-Options'' ''nosniff'', SetHeader ''X-Frame-Options'' ''DENY'',
          SetHeader ''Referrer-Policy'' ''same-origin''] @ ops, panics))"

text \<open>\<open>statusRecorder\<close>: the last status of the calls that pass through it, 200 before any.\<close>

definition record_status :: "writer_op list \<Rightarrow> int" where
  "record_status ops = fold (\<lambda>op st. case op of WriteHeader code \<Rightarrow> code | _ \<Rightarrow> st) ops 200"

text \<open>The calls pass through; the log line is written when the handler returns.\<close>

definition logRequests :: "request \<Rightarrow> trace \<Rightarrow> trace \<times> (string \<times> string list \<times> int) option" where
  "logRequests r t =
     (case t of (ops, panics) \<Rightarrow>
        (t, if panics then None else Some (rqMethod r, rqPath r, record_status ops)))"

definition wrapped_handler :: "request \<Rightarrow> trace \<Rightarrow> trace \<times> (string \<times> string list \<times> int) option" where
  "wrapped_handler r t =
     (case logRequests r t of (t', entry) \<Rightarrow> (recover_panics (securityHeaders t'), entry))"

section \<open>The request context\<close>

datatype contextKey = CtxUser | CtxSession
datatype context_value = UserValue User | SessionValue Session

type_synonym request_context = "contextKey \<rightharpoonup> context_value"

definition userFrom :: "request_context \<Rightarrow> User option" where
  "userFrom ctx = (case ctx CtxUser of Some (UserValue u) \<Rightarrow> Some u | _ \<Rightarrow> None)"

definition sessionFrom :: "request_context \<Rightarrow> Session option" where
  "sessionFrom ctx = (case ctx CtxSession of Some (SessionValue s) \<Rightarrow> Some s | _ \<Rightarrow> None)"

text \<open>The context of the wrapped handler, or the reply of \<open>require\<close> itself.\<close>

definition require_context :: "instant \<Rightarrow> db \<Rightarrow> Role \<Rightarrow> request \<Rightarrow> request_context \<Rightarrow> outcome + request_context" where
  "require_context now d least r ctx =
     (case require now d least r of
        Inl out \<Rightarrow> Inl out
      | Inr (u, s) \<Rightarrow> Inr (ctx(CtxUser \<mapsto> UserValue u, CtxSession \<mapsto> SessionValue s)))"

section \<open>What a handler does for its outcome\<close>

text \<open>
  \<open>hs\<close> are the constant headers of the reply, which the model of the handlers leaves out; a reply
  without a body only sends its status.
\<close>

definition trace_of :: "(string \<times> string) list \<Rightarrow> outcome \<Rightarrow> trace" where
  "trace_of hs out =
     (case out of
        Panic \<Rightarrow> ([], True)
      | Reply st p c \<Rightarrow>
          ((case c of None \<Rightarrow> [] | Some (val, maxAge) \<Rightarrow> [SetCookie val maxAge]) @
           map (\<lambda>(k, v). SetHeader k v) hs @ [WriteHeader st] @ (if p = NoBody then [] else [Write p]), False))"

section \<open>Facts\<close>

definition security_header :: "string \<Rightarrow> string option" where
  "security_header =
     [''X-Content-Type-Options'' \<mapsto> ''nosniff'', ''X-Frame-Options'' \<mapsto> ''DENY'', ''Referrer-Policy'' \<mapsto> ''same-origin'']"

text \<open>A handler that leaves the security headers alone.\<close>

definition keeps_headers :: "writer_op list \<Rightarrow> bool" where
  "keeps_headers ops = list_all (\<lambda>op. case op of SetHeader k v \<Rightarrow> security_header k \<in> {None, Some v} | _ \<Rightarrow> True) ops"

definition secured :: "(string \<rightharpoonup> string) \<Rightarrow> bool" where
  "secured h \<longleftrightarrow> security_header \<subseteq>\<^sub>m h"

definition response_secured :: "response \<Rightarrow> bool" where
  "response_secured w \<longleftrightarrow> secured (rsHeader w) \<and> (case rsSent w of None \<Rightarrow> True | Some (st, h, c) \<Rightarrow> secured h)"

lemma keeps_headers_append: "keeps_headers (a @ b) \<longleftrightarrow> keeps_headers a \<and> keeps_headers b"
  by (simp add: keeps_headers_def)

lemma secured_upd: "secured h \<Longrightarrow> security_header k \<in> {None, Some v} \<Longrightarrow> secured (h(k \<mapsto> v))"
  by (auto simp: secured_def map_le_def dom_def)

lemma send_header_secured: "response_secured w \<Longrightarrow> response_secured (send_header st w)"
  by (simp add: send_header_def response_secured_def)

lemma writer_secured: "keeps_headers ops \<Longrightarrow> response_secured w \<Longrightarrow> response_secured (fold writer_step ops w)"
proof (induction ops arbitrary: w)
  case (Cons op ops)
  have "response_secured (writer_step op w)"
    using Cons.prems send_header_secured [of w]
    by (cases op) (auto simp: keeps_headers_def response_secured_def secured_upd Let_def split: option.splits)
  then show ?case using Cons by (simp add: keeps_headers_def)
qed simp

lemma fold_sent: "rsSent w = Some x \<Longrightarrow> rsSent (fold writer_step ops w) = Some x"
proof (induction ops arbitrary: w)
  case (Cons op ops)
  then have "rsSent (writer_step op w) = Some x" by (cases op) (simp_all add: send_header_def Let_def)
  then show ?case using Cons.IH by simp
qed simp

lemma new_response_secured:
  "response_secured (fold writer_step [SetHeader ''X-Content-Type-Options'' ''nosniff'', SetHeader ''X-Frame-Options'' ''DENY'',
     SetHeader ''Referrer-Policy'' ''same-origin''] new_response)"
  by (auto simp: response_secured_def new_response_def secured_def security_header_def map_le_def)

text \<open>Whatever a handler does, panicking in the middle of its reply included, the client gets a reply with
  the security headers; if the handler had sent nothing when it panicked, it is the opaque 500.\<close>

lemma wrapped_reply_secured:
  assumes "keeps_headers ops"
  shows "\<exists>st h c. rsSent (reply_of (fst (fst (wrapped_handler r (ops, panics))))) = Some (st, h, c) \<and> secured h"
    and "\<not> snd (fst (wrapped_handler r (ops, panics)))"
proof -
  let ?ops = "fst (recover_panics (securityHeaders (ops, panics)))"
  have "keeps_headers (error_ops 500 ''internal'')"
    by (simp add: keeps_headers_def error_ops_def security_header_def)
  then have "keeps_headers (ops @ (if panics then error_ops 500 ''internal'' else []))"
    using assms by (auto simp: keeps_headers_append keeps_headers_def [of "[]"])
  from writer_secured [OF this new_response_secured]
  have "response_secured (fold writer_step ?ops new_response)"
    by (simp add: recover_panics_def securityHeaders_def split: if_splits)
  then have "response_secured (reply_of ?ops)" unfolding reply_of_def by (rule send_header_secured)
  then show "\<exists>st h c. rsSent (reply_of (fst (fst (wrapped_handler r (ops, panics))))) = Some (st, h, c) \<and> secured h"
    by (auto simp: wrapped_handler_def logRequests_def response_secured_def reply_of_def send_header_def
        split: option.splits if_splits)
  show "\<not> snd (fst (wrapped_handler r (ops, panics)))"
    by (simp add: wrapped_handler_def logRequests_def recover_panics_def securityHeaders_def)
qed

lemma fold_set_headers:
  "fold writer_step (map (\<lambda>(k, v). SetHeader k v) hs) w = w\<lparr>rsHeader := rsHeader w ++ map_of (rev hs)\<rparr>"
  by (induction hs arbitrary: w) (simp_all add: case_prod_beta map_add_assoc)

text \<open>What a handler with that outcome sends, from a writer that sent nothing.\<close>

lemma trace_of_reply:
  assumes "rsSent w = None" and "rsCookie w = None" and "rsWritten w = []"
  shows "\<exists>h. rsSent (fold writer_step (fst (trace_of hs (Reply st p c))) w) = Some (st, h, c)"
    and "rsWritten (fold writer_step (fst (trace_of hs (Reply st p c))) w) = (if p = NoBody then [] else [p])"
  using assms by (auto simp: trace_of_def fold_set_headers send_header_def Let_def split: option.splits)

text \<open>The context \<open>require\<close> makes has the user and the session, so the handlers never find them missing.\<close>

lemma require_context_user:
  "require_context now d least r ctx = Inr ctx' \<Longrightarrow>
     \<exists>u s. require now d least r = Inr (u, s) \<and> userFrom ctx' = Some u \<and> sessionFrom ctx' = Some s"
  by (auto simp: require_context_def userFrom_def sessionFrom_def split: sum.splits)

section \<open>Properties\<close>

text \<open>C24: The wrapped handler sends what the model of the server says.  For every request the status, the
  cookie and the body on the wire are those of \<open>serve\<close>, a panic included, under the three security
  headers, and the request is logged with that status unless its handler panicked.\<close>

theorem wrapped_server_replies:
  assumes hs: "list_all (\<lambda>(k, v). security_header k \<in> {None, Some v}) hs"
    and out: "serve env mo s r = (s', Reply st p c)"
    and wrap: "wrapped_handler r (trace_of hs (snd (dispatch env mo s r))) = ((ops, panics), entry)"
  shows "(\<exists>h. rsSent (reply_of ops) = Some (st, h, c) \<and> secured h) \<and>
    rsWritten (reply_of ops) = (if p = NoBody then [] else [p]) \<and>
    \<not> panics \<and>
    (entry = (if snd (dispatch env mo s r) = Panic then None else Some (rqMethod r, rqPath r, st)))"
proof (intro conjI)
  let ?t = "trace_of hs (snd (dispatch env mo s r))"
  have keeps: "keeps_headers (fst ?t)"
    using hs by (auto simp: keeps_headers_def trace_of_def list_all_iff split: outcome.splits option.splits)
  note sec = wrapped_reply_secured [OF keeps, of r "snd ?t"]
  then show "\<not> panics" using wrap by simp
  have sent: "\<exists>st h c. rsSent (reply_of ops) = Some (st, h, c) \<and> secured h" using sec(1) wrap by simp
  define w where "w = fold writer_step [SetHeader ''X-Content-Type-Options'' ''nosniff'', SetHeader ''X-Frame-Options'' ''DENY'',
     SetHeader ''Referrer-Policy'' ''same-origin''] new_response"
  have w: "rsSent w = None" "rsCookie w = None" "rsWritten w = []" by (simp_all add: w_def new_response_def)
  have ops: "reply_of ops = send_header 200 (fold writer_step (if snd ?t then fst ?t @ error_ops 500 ''internal'' else fst ?t) w)"
    and entry: "entry = (if snd ?t then None else Some (rqMethod r, rqPath r, record_status (fst ?t)))"
    using wrap by (auto simp: wrapped_handler_def logRequests_def recover_panics_def securityHeaders_def reply_of_def w_def
        split: prod.splits if_splits)
  have "(\<exists>h. rsSent (reply_of ops) = Some (st, h, c)) \<and> rsWritten (reply_of ops) = (if p = NoBody then [] else [p]) \<and>
    entry = (if snd (dispatch env mo s r) = Panic then None else Some (rqMethod r, rqPath r, st))"
  proof (cases "snd (dispatch env mo s r)")
    case Panic
    then have "st = 500" "p = ErrorCode ''internal''" "c = None"
      using out by (auto simp: serve_def recoverPanics_def reply_defs split: prod.splits outcome.splits)
    then show ?thesis using Panic w ops entry
      by (simp add: trace_of_def error_ops_def send_header_def Let_def)
  next
    case (Reply st' p' c')
    then have "st' = st" "p' = p" "c' = c"
      using out by (auto simp: serve_def recoverPanics_def split: prod.splits outcome.splits)
    then have t: "?t = trace_of hs (Reply st p c)" "\<not> snd ?t" "record_status (fst ?t) = st"
      using Reply by (auto simp: trace_of_def record_status_def fold_append split: option.splits)
    show ?thesis using trace_of_reply [OF w, of hs st p c] ops entry t Reply by (auto simp: send_header_def)
  qed
  with sent show "\<exists>h. rsSent (reply_of ops) = Some (st, h, c) \<and> secured h"
    and "rsWritten (reply_of ops) = (if p = NoBody then [] else [p])"
    and "entry = (if snd (dispatch env mo s r) = Panic then None else Some (rqMethod r, rqPath r, st))" by auto
qed

theorem wrapped_server_replies_witness:
  "\<exists>ops entry h. wrapped_handler sample_logout (trace_of [(''Content-Type'', ''application/json; charset=utf-8'')]
       (snd (dispatch sample_server_env sample_moment sample_server sample_logout))) = ((ops, False), entry) \<and>
     rsSent (reply_of ops) = Some (200, h, Some (sessionCookie '''' (- hour))) \<and>
     h ''X-Frame-Options'' = Some ''DENY'' \<and> entry = Some (''POST'', [''api'', ''v1'', ''auth'', ''logout''], 200)"
proof -
  let ?hs = "[(''Content-Type'', ''application/json; charset=utf-8'')]"
  let ?out = "Reply 200 (Object [(''loggedOut'', VBool True)]) (Some (sessionCookie '''' (- hour)))"
  have "handleLogout sample_db sample_session = (sample_db\<lparr>sessions := []\<rparr>, ?out)"
    by (simp add: handleLogout_def DeleteSession_def delete_rows_def sample_db_def)
  moreover have "svDB sample_server = sample_db" "moNow sample_moment = 5"
    by (simp_all add: sample_server_def NewServer_def sample_moment_def)
  ultimately have d: "dispatch sample_server_env sample_moment sample_server sample_logout =
      (sample_server\<lparr>svDB := sample_db\<lparr>sessions := []\<rparr>\<rparr>, ?out)"
    by (simp add: dispatch_def sample_routes sample_require on_db_def)
  then have s: "serve sample_server_env sample_moment sample_server sample_logout =
      (sample_server\<lparr>svDB := sample_db\<lparr>sessions := []\<rparr>\<rparr>, ?out)"
    by (simp add: serve_def recoverPanics_def)
  obtain ops panics entry where w: "wrapped_handler sample_logout
      (trace_of ?hs (snd (dispatch sample_server_env sample_moment sample_server sample_logout))) = ((ops, panics), entry)"
    by (cases "wrapped_handler sample_logout (trace_of ?hs (snd (dispatch sample_server_env sample_moment sample_server sample_logout)))";
        cases "fst (wrapped_handler sample_logout (trace_of ?hs (snd (dispatch sample_server_env sample_moment sample_server sample_logout))))")
       (simp only: fst_conv prod.inject)
  have hs: "list_all (\<lambda>(k, v). security_header k \<in> {None, Some v}) ?hs" by (simp add: security_header_def)
  note all = wrapped_server_replies [OF hs s w]
  obtain h where h: "rsSent (reply_of ops) = Some (200, h, Some (sessionCookie '''' (- hour)))" "secured h"
    using all by blast
  have "security_header ''X-Frame-Options'' = Some ''DENY''" by (simp add: security_header_def)
  then have x: "h ''X-Frame-Options'' = Some ''DENY''"
    using h(2) unfolding secured_def map_le_def by force
  have e: "entry = Some (''POST'', [''api'', ''v1'', ''auth'', ''logout''], 200)"
    using conjunct2 [OF conjunct2 [OF conjunct2 [OF all]]] unfolding d by (simp add: sample_post_def)
  have "panics = False" using conjunct1 [OF conjunct2 [OF conjunct2 [OF all]]] by simp
  with w have w': "wrapped_handler sample_logout
      (trace_of ?hs (snd (dispatch sample_server_env sample_moment sample_server sample_logout))) = ((ops, False), entry)"
    by (simp only:)
  show ?thesis
    by (rule exI [of _ ops], rule exI [of _ entry], rule exI [of _ h]) (rule conjI [OF w' conjI [OF h(1) conjI [OF x e]]])
qed

end
