(* ===== verification/Network_Run.thy ===== *)
theory Network_Run
  imports Services Supervisor Tftp
begin

text \<open>
  The life of the network services: \<open>Run\<close> of the DHCP server, the ProxyDHCP service
  (\<open>backend/internal/network/dhcpserver.go\<close>, \<open>proxydhcp.go\<close>) and the TFTP server (\<open>tftp.go\<close>), which
  \<open>service.Manager\<close> starts, restarts and stops.  What \<open>Run\<close> does to its sockets is a list of socket
  operations; the operating system (which listens fail) and the race of the \<open>select\<close> are in the
  argument.  \<open>attempts\<close> turns such runs into what \<open>supervise\<close> of \<open>Supervisor\<close> sees, so that the life of
  a service is a list of runs.
\<close>

section \<open>Errors\<close>

text \<open>An error by what \<open>errors.Is\<close> can find in it; \<open>%w\<close> of a nil error wraps nothing.\<close>

datatype go_error = Canceled | DeadlineExceeded | OpaqueError string | Wrapped string "go_error option"

fun is_canceled :: "go_error \<Rightarrow> bool" where
  "is_canceled Canceled = True"
| "is_canceled (Wrapped _ (Some e)) = is_canceled e"
| "is_canceled _ = False"

definition run_error_of :: "go_error option \<Rightarrow> run_error" where
  "run_error_of e = (case e of None \<Rightarrow> RunNil | Some e \<Rightarrow> if is_canceled e then RunCanceled else RunFailed)"

section \<open>The services\<close>

abbreviation ServerPort :: int where "ServerPort \<equiv> 67"

record DHCPServer =
  dsCfg :: DHCPConfig
  dsPool :: LeasePool
  dsObserver :: "DHCPObserver option"
  dsPort :: int

definition NewDHCPServer :: "DHCPConfig \<Rightarrow> LeasePool \<Rightarrow> DHCPServer" where
  "NewDHCPServer cfg pool = \<lparr>dsCfg = cfg, dsPool = pool, dsObserver = None, dsPort = ServerPort\<rparr>"

record ProxyDHCP =
  pxCfg :: BootConfig
  pxObserver :: "DHCPObserver option"
  pxPort67 :: int
  pxPort4011 :: int

definition NewProxyDHCP :: "BootConfig \<Rightarrow> ProxyDHCP" where
  "NewProxyDHCP cfg = \<lparr>pxCfg = cfg, pxObserver = None, pxPort67 = 67, pxPort4011 = 4011\<rparr>"

record TFTPServer =
  tsRoot :: string
  tsAddr :: string

definition NewTFTPServer :: "string \<Rightarrow> TFTPServer" where
  "NewTFTPServer root = \<lparr>tsRoot = root, tsAddr = '':69''\<rparr>"

section \<open>Run\<close>

text \<open>
  The operations on sockets of a run.  \<open>ListenAndServe\<close> of the TFTP library opens a socket and, when it
  returns (\<open>ReturnTFTP\<close>), has closed it; \<open>Shutdown\<close> closes it from outside.  A context that ends before
  the library has opened the socket is not distinguished from one that ends later.
\<close>

datatype socket_op = Listen int | Close int | ServeTFTP string | ReturnTFTP string | ShutdownTFTP string

text \<open>
  What the \<open>select\<close> of \<open>Run\<close> takes: \<open>ctx.Done()\<close>, with \<open>ctx.Err()\<close>, or the result of the server that
  stopped first.
\<close>

datatype wake = CtxDone go_error | ServeReturned "go_error option"

definition DHCPServer_Run ::
    "DHCPServer \<Rightarrow> (int \<Rightarrow> go_error option) \<Rightarrow> wake \<Rightarrow> socket_op list \<times> go_error option" where
  "DHCPServer_Run d listen w =
     (case listen (dsPort d) of
        Some e \<Rightarrow> ([], Some (Wrapped (''dhcp: listen :'' @ int_str (dsPort d) @ '': '') (Some e)))
      | None \<Rightarrow>
          (case w of
             CtxDone e \<Rightarrow> ([Listen (dsPort d), Close (dsPort d)], Some e)
           | ServeReturned e \<Rightarrow> ([Listen (dsPort d), Close (dsPort d)], Some (Wrapped ''dhcp: '' e))))"

definition ProxyDHCP_Run ::
    "ProxyDHCP \<Rightarrow> (int \<Rightarrow> go_error option) \<Rightarrow> wake \<Rightarrow> socket_op list \<times> go_error option" where
  "ProxyDHCP_Run p listen w =
     (case listen (pxPort67 p) of
        Some e \<Rightarrow> ([], Some (Wrapped (''proxydhcp: listen :'' @ int_str (pxPort67 p) @ '': '') (Some e)))
      | None \<Rightarrow>
          (case listen (pxPort4011 p) of
             Some e \<Rightarrow> ([Listen (pxPort67 p), Close (pxPort67 p)],
               Some (Wrapped (''proxydhcp: listen :'' @ int_str (pxPort4011 p) @ '': '') (Some e)))
           | None \<Rightarrow>
               (let both = [Listen (pxPort67 p), Listen (pxPort4011 p), Close (pxPort67 p), Close (pxPort4011 p)] in
                case w of
                  CtxDone e \<Rightarrow> (both, Some e)
                | ServeReturned e \<Rightarrow> (both, Some (Wrapped ''proxydhcp: '' e)))))"

definition TFTPServer_Run :: "TFTPServer \<Rightarrow> wake \<Rightarrow> socket_op list \<times> go_error option" where
  "TFTPServer_Run t w =
     (case w of
        CtxDone e \<Rightarrow> ([ServeTFTP (tsAddr t), ShutdownTFTP (tsAddr t)], Some e)
      | ServeReturned e \<Rightarrow> ([ServeTFTP (tsAddr t), ReturnTFTP (tsAddr t)], Some (Wrapped ''tftp: '' e)))"

text \<open>The services \<open>buildNetworkServices\<close> makes, by the constructors above.\<close>

datatype service = TFTP TFTPServer | DHCP DHCPServer | Proxy ProxyDHCP

definition make_service :: "net_service \<Rightarrow> service" where
  "make_service s =
     (case s of
        SvcTFTP root \<Rightarrow> TFTP (NewTFTPServer root)
      | SvcDHCP cfg pool ob \<Rightarrow> DHCP ((NewDHCPServer cfg pool)\<lparr>dsObserver := ob\<rparr>)
      | SvcProxy cfg ob \<Rightarrow> Proxy ((NewProxyDHCP cfg)\<lparr>pxObserver := ob\<rparr>))"

definition service_Name :: "service \<Rightarrow> string" where
  "service_Name s = (case s of TFTP _ \<Rightarrow> ''tftp'' | DHCP _ \<Rightarrow> ''dhcp'' | Proxy _ \<Rightarrow> ''proxydhcp'')"

definition service_Run :: "service \<Rightarrow> (int \<Rightarrow> go_error option) \<Rightarrow> wake \<Rightarrow> socket_op list \<times> go_error option" where
  "service_Run s listen w =
     (case s of
        TFTP t \<Rightarrow> TFTPServer_Run t w
      | DHCP d \<Rightarrow> DHCPServer_Run d listen w
      | Proxy p \<Rightarrow> ProxyDHCP_Run p listen w)"

section \<open>The manager\<close>

record Manager =
  mgServices :: "service list"

definition NewManager :: Manager where
  "NewManager = \<lparr>mgServices = []\<rparr>"

definition Manager_Add :: "Manager \<Rightarrow> service \<Rightarrow> Manager" where
  "Manager_Add m s = m\<lparr>mgServices := mgServices m @ [s]\<rparr>"

text \<open>
  One turn of the supervision loop around a run: how the operating system and the context behaved.
  \<open>rdCtxErr\<close> is \<open>ctx.Err() != nil\<close> when \<open>Run\<close> returned, \<open>rdCtxDone\<close> that it became done during the wait.
\<close>

record round =
  rdListen :: "int \<Rightarrow> go_error option"
  rdWake :: wake
  rdElapsed :: duration
  rdCtxErr :: bool
  rdCtxDone :: bool

definition attempt_of :: "service \<Rightarrow> round \<Rightarrow> attempt" where
  "attempt_of s r =
     \<lparr>atError = run_error_of (snd (service_Run s (rdListen r) (rdWake r))), atCtxErr = rdCtxErr r,
      atElapsed = rdElapsed r, atCtxDone = rdCtxDone r\<rparr>"

text \<open>
  The sockets that are open after some operations; opening an open socket or closing a closed one has
  no result.
\<close>

datatype socket = UDPPort int | TFTPSocket string

fun socket_of :: "socket_op \<Rightarrow> socket" where
  "socket_of (Listen p) = UDPPort p"
| "socket_of (Close p) = UDPPort p"
| "socket_of (ServeTFTP a) = TFTPSocket a"
| "socket_of (ReturnTFTP a) = TFTPSocket a"
| "socket_of (ShutdownTFTP a) = TFTPSocket a"

fun opens :: "socket_op \<Rightarrow> bool" where
  "opens (Listen p) = True"
| "opens (ServeTFTP a) = True"
| "opens _ = False"

fun track_sockets :: "socket list \<Rightarrow> socket_op list \<Rightarrow> socket list option" where
  "track_sockets ss [] = Some ss"
| "track_sockets ss (op # ops) =
     (let s = socket_of op in
      if opens op then (if s \<in> set ss then None else track_sockets (s # ss) ops)
      else (if s \<in> set ss then track_sockets (removeAll s ss) ops else None))"

text \<open>The rounds \<open>supervise\<close> goes through, and what they do to the sockets.\<close>

fun rounds_taken :: "service \<Rightarrow> round list \<Rightarrow> round list" where
  "rounds_taken s [] = []"
| "rounds_taken s (r # rs) = r # (if crash (attempt_of s r) then rounds_taken s rs else [])"

definition service_life :: "service \<Rightarrow> round list \<Rightarrow> socket_op list \<times> duration list \<times> service_end" where
  "service_life s rs =
     (concat (map (\<lambda>r. fst (service_Run s (rdListen r) (rdWake r))) (rounds_taken s rs)),
      supervise (map (attempt_of s) rs))"

section \<open>Properties\<close>

text \<open>
  What the network stack and the context package promise: an error of a socket is not
  \<open>context.Canceled\<close>, and \<open>ctx.Done()\<close> is ready only once \<open>ctx.Err()\<close> is set.
\<close>

definition sane_round :: "round \<Rightarrow> bool" where
  "sane_round r \<longleftrightarrow>
     (\<forall>p. pred_option (\<lambda>e. \<not> is_canceled e) (rdListen r p)) \<and>
     (case rdWake r of CtxDone e \<Rightarrow> rdCtxErr r | ServeReturned e \<Rightarrow> pred_option (\<lambda>e. \<not> is_canceled e) e)"

lemma is_canceled_wrapped [simp]: "is_canceled (Wrapped m e) \<longleftrightarrow> (\<exists>e'. e = Some e' \<and> is_canceled e')"
  by (cases e) auto

lemma track_append: "track_sockets ps (a @ b) = Option.bind (track_sockets ps a) (\<lambda>qs. track_sockets qs b)"
  by (induction ps a rule: track_sockets.induct) (auto simp: Let_def)

lemma run_closes_sockets: "track_sockets [] (fst (service_Run (make_service n) listen w)) = Some []"
  by (cases n; cases w)
     (auto simp: make_service_def service_Run_def TFTPServer_Run_def DHCPServer_Run_def ProxyDHCP_Run_def
       NewProxyDHCP_def Let_def split: option.splits)

lemma run_never_nil: "snd (service_Run s listen w) \<noteq> None"
  by (auto simp: service_Run_def TFTPServer_Run_def DHCPServer_Run_def ProxyDHCP_Run_def Let_def
      split: service.splits option.splits wake.splits)

lemma run_canceled:
  assumes "sane_round r" and "snd (service_Run s (rdListen r) (rdWake r)) = Some e" and "is_canceled e"
  shows "rdCtxErr r"
  using assms
  by (auto simp: sane_round_def service_Run_def TFTPServer_Run_def DHCPServer_Run_def ProxyDHCP_Run_def Let_def
      option.pred_set split: service.splits option.splits wake.splits)

lemma crash_iff: "sane_round r \<Longrightarrow> crash (attempt_of s r) \<longleftrightarrow> \<not> rdCtxErr r \<and> \<not> rdCtxDone r"
  using run_never_nil [of s "rdListen r" "rdWake r"] run_canceled [of r s]
  by (auto simp: crash_def attempt_of_def run_error_of_def split: option.splits)

lemma supervise_loop_rounds:
  "list_all sane_round rs \<Longrightarrow> snd (supervise_loop b (map (attempt_of s) rs)) =
     (if list_ex (\<lambda>r. rdCtxErr r \<or> rdCtxDone r) rs then ServiceStopped else Supervising)"
proof (induction rs arbitrary: b)
  case (Cons r rs)
  have r: "sane_round r" "list_all sane_round rs" using Cons.prems by simp_all
  show ?case
  proof (cases "rdCtxErr r \<or> rdCtxDone r")
    case True
    moreover have "atError (attempt_of s r) = RunFailed" if "\<not> rdCtxErr r"
      using run_never_nil [of s "rdListen r" "rdWake r"] run_canceled [OF r(1)] that
      by (auto simp: attempt_of_def run_error_of_def split: option.splits)
    ultimately show ?thesis by (auto simp: Let_def attempt_of_def)
  next
    case False
    then have "crash (attempt_of s r)" using crash_iff [OF r(1)] by simp
    with False Cons.IH [OF r(2)] show ?thesis by (simp add: crash_def Let_def split_beta)
  qed
qed simp

text \<open>C23: A network service lives until the process is told to stop.  However often its sockets fail to open
  or its server gives up, the supervisor starts it again, and it stops as soon as the context ends;
  whatever happens, each run opens only sockets that are closed, the TFTP server's included, and leaves
  none open for the next one.\<close>

theorem network_service_life:
  assumes "list_all sane_round rs"
  shows "snd (snd (service_life (make_service n) rs)) =
      (if list_ex (\<lambda>r. rdCtxErr r \<or> rdCtxDone r) rs then ServiceStopped else Supervising) \<and>
    track_sockets [] (fst (service_life (make_service n) rs)) = Some []"
proof (intro conjI)
  show "snd (snd (service_life (make_service n) rs)) =
      (if list_ex (\<lambda>r. rdCtxErr r \<or> rdCtxDone r) rs then ServiceStopped else Supervising)"
    by (simp add: service_life_def supervise_def supervise_loop_rounds [OF assms])
  have "track_sockets [] (concat (map (\<lambda>r. fst (service_Run (make_service n) (rdListen r) (rdWake r))) xs)) = Some []" for xs
    by (induction xs) (simp_all add: track_append run_closes_sockets)
  then show "track_sockets [] (fst (service_life (make_service n) rs)) = Some []"
    by (simp add: service_life_def)
qed

definition sample_rounds :: "round list" where
  "sample_rounds =
     [\<lparr>rdListen = (\<lambda>p. if p = 4011 then Some (OpaqueError ''address already in use'') else None),
       rdWake = ServeReturned None, rdElapsed = second, rdCtxErr = False, rdCtxDone = False\<rparr>,
      \<lparr>rdListen = (\<lambda>p. None), rdWake = CtxDone Canceled, rdElapsed = hour, rdCtxErr = True, rdCtxDone = False\<rparr>]"

definition sample_proxy :: service where
  "sample_proxy = make_service (SvcProxy \<lparr>bcServerIP = [10, 0, 0, 1], bcScriptURL = ''http://10.0.0.1:8080/boot/ipxe''\<rparr> None)"

theorem network_service_life_witness:
  "fst (service_life sample_proxy sample_rounds) = [Listen 67, Close 67, Listen 67, Listen 4011, Close 67, Close 4011] \<and>
   track_sockets [] (fst (service_life sample_proxy sample_rounds)) = Some [] \<and>
   snd (service_life sample_proxy sample_rounds) = ([second], ServiceStopped) \<and>
   fst (service_life (make_service (SvcTFTP ''/assets/tftp'')) sample_rounds) =
     [ServeTFTP '':69'', ReturnTFTP '':69'', ServeTFTP '':69'', ShutdownTFTP '':69'']"
proof -
  have sane: "list_all sane_round sample_rounds" by (simp add: sample_rounds_def sane_round_def)
  have run: "fst (service_life sample_proxy sample_rounds) = [Listen 67, Close 67, Listen 67, Listen 4011, Close 67, Close 4011]"
    "fst (snd (service_life sample_proxy sample_rounds)) = [second]"
    by (simp_all add: service_life_def sample_proxy_def make_service_def service_Run_def ProxyDHCP_Run_def NewProxyDHCP_def
        attempt_of_def crash_def run_error_of_def sample_rounds_def supervise_def reset_backoff_def Let_def)
  have tftp: "fst (service_life (make_service (SvcTFTP ''/assets/tftp'')) sample_rounds) =
      [ServeTFTP '':69'', ReturnTFTP '':69'', ServeTFTP '':69'', ShutdownTFTP '':69'']"
    by (simp add: service_life_def make_service_def service_Run_def TFTPServer_Run_def NewTFTPServer_def
        attempt_of_def crash_def run_error_of_def sample_rounds_def)
  have "snd (snd (service_life sample_proxy sample_rounds)) = ServiceStopped"
    using conjunct1 [OF network_service_life [OF sane]] by (simp add: sample_proxy_def sample_rounds_def)
  with run tftp conjunct2 [OF network_service_life [OF sane]] show ?thesis by (simp add: prod_eq_iff flip: sample_proxy_def)
qed

end
