(* ===== verification/Main_Process.thy ===== *)
theory Main_Process
  imports Startup Server_Safety Network_Run
begin

text \<open>
  \<open>main\<close> and \<open>run\<close> of \<open>backend/cmd/helboot/main.go\<close> as a whole: create the directories, start up
  (\<open>Startup\<close>), wire the components (\<open>New\<close> of the packages, \<open>buildNetworkServices\<close>), serve until the
  listener fails or a signal ends the context, then shut down within ten seconds.  What happens
  up to the signal is a list of events, what happens after it a list of timed ones; the hourly clean-up
  of \<open>main.go\<close> is the \<open>Housekeeping\<close> event of \<open>Server\<close>.
\<close>

section \<open>Opening the database\<close>

definition data_source :: "string \<Rightarrow> string" where
  "data_source path = ''file:'' @ path @ ''?_pragma=journal_mode(WAL)&_pragma=foreign_keys(ON)&_pragma=busy_timeout(5000)''"

datatype open_error = OpenDatabase | PingDatabase

text \<open>\<open>driver\<close> opens a handle for a data source, \<open>ping\<close> connects.\<close>

definition db_Open :: "(string \<Rightarrow> 'h option) \<Rightarrow> ('h \<Rightarrow> bool) \<Rightarrow> string \<Rightarrow> open_error + 'h" where
  "db_Open driver ping path =
     (case driver (data_source path) of
        None \<Rightarrow> Inl OpenDatabase
      | Some h \<Rightarrow> if ping h then Inr h else Inl PingDatabase)"

section \<open>Wiring\<close>

text \<open>What the components use of code outside, and what the build embeds in the binary.\<close>

record outside =
  ouVersion :: string
  ouOpenAPISpec :: string
  ouStatic :: web_env
  ouRender :: render_env
  ouOpenImage :: "string \<Rightarrow> iso_image option"
  ouSHA :: "string \<Rightarrow> string"
  ouTimestamp :: "instant \<Rightarrow> string"
  ouBackup :: backup_env
  ouUnpack :: "string option \<Rightarrow> archive"
  ouAuth :: auth_env
  ouValid :: "string \<Rightarrow> bool"
  ouCompact :: "string \<Rightarrow> string"
  ouAssets :: "string \<Rightarrow> outcome"

definition iso_NewManager :: "outside \<Rightarrow> registry \<Rightarrow> iso_env" where
  "iso_NewManager o' reg = \<lparr>ieOpenImage = ouOpenImage o', ieSHA = ouSHA o', ieRegistry = reg\<rparr>"

definition boot_New :: "outside \<Rightarrow> registry \<Rightarrow> iso_env \<Rightarrow> string \<Rightarrow> boot_env" where
  "boot_New o' reg imgs providersDir = \<lparr>beRegistry = reg, beRender = ouRender o', beISO = imgs,
     beProvidersDir = providersDir, beTimestamp = ouTimestamp o'\<rparr>"

definition backup_NewManager :: "outside \<Rightarrow> string \<Rightarrow> string \<Rightarrow> backup_env" where
  "backup_NewManager o' dataDir version = (ouBackup o')\<lparr>bkDataDir := dataDir, bkVersion := version\<rparr>"

definition wire_server :: "outside \<Rightarrow> Config \<Rightarrow> registry \<Rightarrow> server_env" where
  "wire_server o' cfg reg =
     (let imgs = iso_NewManager o' reg in
      \<lparr>seVersion = ouVersion o', seOpenAPISpec = ouOpenAPISpec o', seStaticFiles = Some (ouStatic o'),
       seBoot = Some (boot_New o' reg imgs (cfProvidersDir cfg)), seISOs = Some imgs,
       seBackup = Some (backup_NewManager o' (cfDataDir cfg) (ouVersion o')), seUnpack = ouUnpack o',
       seDatabasePath = DatabasePath cfg, seAuth = ouAuth o',
       seProfiles = \<lparr>peRegistry = reg, peRender = ouRender o', peValid = ouValid o', peCompact = ouCompact o'\<rparr>,
       seAssetsDir = AssetsPath cfg, seAssets = ouAssets o'\<rparr>)"

definition network_manager :: "net_service list \<Rightarrow> Manager" where
  "network_manager svcs = foldl Manager_Add NewManager (map make_service svcs)"

text \<open>The observer is shared: \<open>buildNetworkServices\<close> tells it the server's own address.\<close>

definition started_observer :: "net_ip list option \<Rightarrow> db \<Rightarrow> DHCPObserver option \<Rightarrow> DHCPObserver option" where
  "started_observer addrs d ob =
     (let ip = detectServerIP addrs (getSetting d settingServerIP) in
      if SetupCompleted d = Inr True \<and> ip \<noteq> [] then SetSelfIP ob ip else ob)"

lemma services_share_observer:
  assumes "svc \<in> set (buildNetworkServices now addrs cfg d ob)"
  shows "(\<exists>root. svc = SvcTFTP root) \<or> (\<exists>dc pool. svc = SvcDHCP dc pool (started_observer addrs d ob)) \<or>
    (\<exists>bc. svc = SvcProxy bc (started_observer addrs d ob))"
  using assms
  by (auto simp: buildNetworkServices_def started_observer_def Let_def split: sum.splits if_splits option.splits prod.splits)

section \<open>After the signal\<close>

text \<open>
  \<open>Shutdown\<close> closes the listener and lets the connections that are serving a request finish it, each
  one request, while the network services wind down.  Requests on new connections are refused.
  Each event has its time after the signal, that of its effect; \<open>Background\<close> is a lease the DHCP
  service still stores or a clean-up that had begun.
\<close>

datatype late_event = Finishing nat moment request | NewConnection moment request | Background server_event

text \<open>
  \<open>sdOpen\<close>: the connections that have, or have just been accepted and will send, a request at the signal; \<open>sdPoll t\<close>: when \<open>Shutdown\<close>, which polls,
  notices that the last of them was done at \<open>t\<close>; \<open>sdManager\<close>: when \<open>manager.Run\<close> had returned, \<open>None\<close> for
  never; \<open>sdTie\<close> decides the \<open>select\<close> when both its channels are ready, for the manager when true.
\<close>

record shutdown_env =
  sdOpen :: "nat list"
  sdLate :: "(duration \<times> late_event) list"
  sdPoll :: "duration \<Rightarrow> duration"
  sdManager :: "duration option"
  sdTie :: bool

text \<open>The server, and the connections still open, when the process ends at \<open>stop\<close>.\<close>

fun after_signal ::
    "server_env \<Rightarrow> duration \<Rightarrow> nat list \<Rightarrow> server \<Rightarrow> (duration \<times> late_event) list \<Rightarrow> server \<times> nat list" where
  "after_signal env stop conns s [] = (s, conns)"
| "after_signal env stop conns s ((t, ev) # evs) =
     (if stop < t then (s, conns)
      else case ev of
        Finishing c mo r \<Rightarrow>
          if c \<in> set conns then after_signal env stop (removeAll c conns) (server_step env s (Request mo r)) evs
          else after_signal env stop conns s evs
      | NewConnection mo r \<Rightarrow> after_signal env stop conns s evs
      | Background e \<Rightarrow> after_signal env stop conns (server_step env s e) evs)"

text \<open>When the last of the connections has finished, \<open>None\<close> for never.\<close>

fun drained_at :: "duration \<Rightarrow> nat list \<Rightarrow> (duration \<times> late_event) list \<Rightarrow> duration option" where
  "drained_at t conns [] = (if conns = [] then Some t else None)"
| "drained_at t conns ((t', ev) # evs) =
     (if conns = [] then Some t
      else case ev of
        Finishing c mo r \<Rightarrow> drained_at t' (removeAll c conns) evs
      | _ \<Rightarrow> drained_at t' conns evs)"

section \<open>Shutting down\<close>

abbreviation shutdownTimeout :: duration where "shutdownTimeout \<equiv> 10 * second"

datatype shutdown_result =
  ShutdownResult (srElapsed: duration) (srError: "go_error option") (srWarned: bool)

definition http_Shutdown :: "shutdown_env \<Rightarrow> duration \<times> go_error option" where
  "http_Shutdown sd =
     (case drained_at 0 (sdOpen sd) (sdLate sd) of
        Some t \<Rightarrow> if sdPoll sd t < shutdownTimeout then (sdPoll sd t, None) else (shutdownTimeout, Some DeadlineExceeded)
      | None \<Rightarrow> (shutdownTimeout, Some DeadlineExceeded))"

definition shut_down :: "shutdown_env \<Rightarrow> shutdown_result" where
  "shut_down sd =
     (case http_Shutdown sd of (t, err) \<Rightarrow>
        (case sdManager sd of
           None \<Rightarrow> ShutdownResult shutdownTimeout err True
         | Some m \<Rightarrow>
             if max t m < shutdownTimeout then ShutdownResult (max t m) err False
             else if m \<le> shutdownTimeout then ShutdownResult shutdownTimeout err (\<not> sdTie sd)
             else ShutdownResult shutdownTimeout err True))"

section \<open>The process\<close>

datatype main_error = MkdirFailed string | StartFailed start_error | HTTPFailed string | ShutdownFailed go_error

record 's main_env =
  mnStart :: "'s start_env"
  mnMkdir :: "string \<Rightarrow> bool"
  mnRows :: "'s database \<Rightarrow> db"  \<comment> \<open>the rows of the migrated database\<close>
  mnLibrary :: library
  mnOutside :: outside
  mnAddrs :: "net_ip list option"

text \<open>The server and the services after start-up, or why there are none.\<close>

definition run_setup ::
    "'s main_env \<Rightarrow> (string \<Rightarrow> string) \<Rightarrow> instant \<Rightarrow> disk \<Rightarrow> main_error + server_env \<times> server \<times> Manager" where
  "run_setup env getenv now files =
     (let cfg = FromEnv getenv in
      case List.find (\<lambda>dir. \<not> mnMkdir env dir) (start_dirs cfg) of
        Some dir \<Rightarrow> Inl (MkdirFailed dir)
      | None \<Rightarrow>
          (case run_start (mnStart env) getenv now files of
             (files', Inl e) \<Rightarrow> Inl (StartFailed e)
           | (files', Inr (d, reg)) \<Rightarrow>
               Inr (wire_server (mnOutside env) cfg reg,
                    NewServer (mnRows env d) (mnLibrary env) files'
                      (started_observer (mnAddrs env) (mnRows env d) (Some NewDHCPObserver)),
                    network_manager (buildNetworkServices now (mnAddrs env) cfg (mnRows env d) (Some NewDHCPObserver)))))"

text \<open>How serving ends: \<open>ListenAndServe\<close> failed, a signal ended the context, or not yet.\<close>

datatype ending = ListenFailed string | Signal shutdown_env | StillServing

text \<open>
  What the process has completed at the end, how long the shutdown took, and the error; \<open>None\<close> while it
  serves.  The exit cuts off requests in the middle: see \<open>run_stops\<close> for what they may have written.
\<close>

definition run ::
    "'s main_env \<Rightarrow> (string \<Rightarrow> string) \<Rightarrow> instant \<Rightarrow> disk \<Rightarrow> server_event list \<Rightarrow> ending
     \<Rightarrow> (server option \<times> duration \<times> main_error option) option" where
  "run env getenv now files evs end' =
     (case run_setup env getenv now files of
        Inl e \<Rightarrow> Some (None, 0, Some e)
      | Inr (senv, s, mgr) \<Rightarrow>
          (let s1 = server_run senv s evs in
           case end' of
             StillServing \<Rightarrow> None
           | ListenFailed e \<Rightarrow> Some (Some s1, 0, Some (HTTPFailed e))
           | Signal sd \<Rightarrow>
               (case shut_down sd of ShutdownResult t err warned \<Rightarrow>
                  Some (Some (fst (after_signal senv t (sdOpen sd) s1 (sdLate sd))), t, map_option ShutdownFailed err))))"

text \<open>The exit status of \<open>main\<close>.\<close>

definition main_exit :: "main_error option \<Rightarrow> int" where
  "main_exit err = (case err of None \<Rightarrow> 0 | Some _ \<Rightarrow> 1)"

section \<open>Properties\<close>

definition sane_shutdown :: "shutdown_env \<Rightarrow> bool" where
  "sane_shutdown sd \<longleftrightarrow> sorted (0 # map fst (sdLate sd)) \<and> (\<forall>t. t \<le> sdPoll sd t) \<and> pred_option ((\<le>) 0) (sdManager sd)"

lemma drained_at_later: "drained_at t conns late = Some t' \<Longrightarrow> sorted (t # map fst late) \<Longrightarrow> t \<le> t'"
proof (induction t conns late rule: drained_at.induct)
  case (2 t conns t1 ev evs)
  then show ?case by (cases ev) (auto split: if_splits intro: order_trans)
qed (simp split: if_splits)

lemma after_signal_none_left: "snd (after_signal env stop [] s late) = []"
proof (induction late arbitrary: s)
  case (Cons e late)
  obtain t ev where "e = (t, ev)" by (cases e)
  then show ?case using Cons.IH by (cases ev) simp_all
qed simp

text \<open>When the connections are done before the end, all their requests have been served.\<close>

lemma after_signal_drained:
  "drained_at t conns late = Some t' \<Longrightarrow> t' \<le> stop \<Longrightarrow> sorted (t # map fst late) \<Longrightarrow>
     snd (after_signal env stop conns s late) = []"
proof (induction t conns late arbitrary: s rule: drained_at.induct)
  case (2 t conns t1 ev evs)
  show ?case
  proof (cases "conns = []")
    case True
    show ?thesis unfolding True by (rule after_signal_none_left)
  next
    case False
    then have d: "drained_at t1 (case ev of Finishing c mo r \<Rightarrow> removeAll c conns | _ \<Rightarrow> conns) evs = Some t'"
      using "2.prems"(1) by (cases ev) simp_all
    then have "t1 \<le> stop" using drained_at_later [OF d] "2.prems"(2,3) by simp
    note IH = "2.IH" [OF False] and later = this d "2.prems"
    show ?thesis
    proof (cases ev)
      case (Finishing c mo r)
      then show ?thesis using IH(1) [OF Finishing] later by (cases "c \<in> set conns") (auto simp: removeAll_id)
    qed (use IH later in auto)
  qed
qed (simp split: if_splits)

text \<open>New connections change nothing, and everything is a sequence of writes.\<close>

definition accepted :: "duration \<times> late_event \<Rightarrow> bool" where
  "accepted e \<longleftrightarrow> (case snd e of NewConnection mo r \<Rightarrow> False | _ \<Rightarrow> True)"

lemma after_signal_past:
  "stop < t \<Longrightarrow> sorted (t # map fst late) \<Longrightarrow> after_signal env stop conns s late = (s, conns)"
  by (cases late) auto

lemma after_signal_accepted:
  "sorted (map fst late) \<Longrightarrow> after_signal env stop conns s (filter accepted late) = after_signal env stop conns s late"
proof (induction late arbitrary: conns s)
  case (Cons e late)
  obtain t ev where e: "e = (t, ev)" by (cases e)
  have tail: "sorted (t # map fst (filter accepted late))"
    using Cons.prems by (auto simp: e intro: sorted_filter)
  show ?case
  proof (cases "stop < t")
    case True
    then show ?thesis using after_signal_past [OF True tail] by (simp add: e)
  next
    case False
    then show ?thesis using Cons by (cases ev) (simp_all add: e accepted_def)
  qed
qed simp

lemma after_signal_writes: "db_step\<^sup>*\<^sup>* (svDB s) (svDB (fst (after_signal env stop conns s late)))"
proof (induction late arbitrary: conns s)
  case (Cons e late)
  obtain t ev where e: "e = (t, ev)" by (cases e)
  have step: "db_step\<^sup>*\<^sup>* (svDB s) (svDB (fst (after_signal env stop cs (server_step env s x) late)))" for cs x
    using rtranclp_trans [OF server_step_db Cons.IH] .
  show ?case using step Cons.IH by (cases ev) (simp_all add: e del: server_step.simps)
qed simp

lemma shut_down_bounded:
  assumes "sane_shutdown sd"
  shows "0 \<le> srElapsed (shut_down sd)" and "srElapsed (shut_down sd) \<le> shutdownTimeout"
    and "srError (shut_down sd) = None \<longleftrightarrow> (\<exists>t. drained_at 0 (sdOpen sd) (sdLate sd) = Some t \<and> sdPoll sd t < shutdownTimeout)"
    and "drained_at 0 (sdOpen sd) (sdLate sd) = Some t \<Longrightarrow> sdPoll sd t < shutdownTimeout \<Longrightarrow> t \<le> srElapsed (shut_down sd)"
proof -
  have "0 \<le> sdPoll sd t" if "drained_at 0 (sdOpen sd) (sdLate sd) = Some t" for t
    using drained_at_later [OF that] assms by (auto simp: sane_shutdown_def intro: order_trans)
  then show "0 \<le> srElapsed (shut_down sd)" "srElapsed (shut_down sd) \<le> shutdownTimeout"
    "srError (shut_down sd) = None \<longleftrightarrow> (\<exists>t. drained_at 0 (sdOpen sd) (sdLate sd) = Some t \<and> sdPoll sd t < shutdownTimeout)"
    using assms
    by (auto simp: sane_shutdown_def shut_down_def http_Shutdown_def Let_def split: option.splits prod.splits if_splits)
  assume "drained_at 0 (sdOpen sd) (sdLate sd) = Some t" "sdPoll sd t < shutdownTimeout"
  moreover have "t \<le> sdPoll sd t" using assms by (simp add: sane_shutdown_def)
  ultimately show "t \<le> srElapsed (shut_down sd)"
    by (auto simp: shut_down_def http_Shutdown_def Let_def split: option.splits)
qed


definition sample_outside :: outside where
  "sample_outside = \<lparr>ouVersion = ''1'', ouOpenAPISpec = '''', ouStatic = \<lparr>weStat = (\<lambda>_. StatNotExist), weFileServer = (\<lambda>_. http_NotFound)\<rparr>,
     ouRender = \<lparr>reUnmarshal = (\<lambda>_. DecodeError), reEngine = (\<lambda>_ _. None), reReadFile = (\<lambda>_. None)\<rparr>,
     ouOpenImage = (\<lambda>_. None), ouSHA = (\<lambda>_. ''''), ouTimestamp = (\<lambda>_. ''''), ouBackup = sample_backup_env,
     ouUnpack = (\<lambda>_. NotGzip), ouAuth = sample_auth_env, ouValid = (\<lambda>_. True), ouCompact = (\<lambda>s. s), ouAssets = (\<lambda>_. http_NotFound)\<rparr>"

definition sample_main_env :: "string main_env" where
  "sample_main_env = \<lparr>mnStart = sample_start_env, mnMkdir = (\<lambda>_. True), mnRows = (\<lambda>_. empty_db),
     mnLibrary = Map.empty, mnOutside = sample_outside, mnAddrs = None\<rparr>"

definition slow_services :: shutdown_env where
  "slow_services = \<lparr>sdOpen = [1], sdLate = [(second, Finishing 1 sample_moment sample_logout), (hour, Background (Housekeeping 5))],
     sdPoll = (\<lambda>t. t), sdManager = None, sdTie = True\<rparr>"

lemma sample_setup_runs: "\<exists>senv s mgr. run_setup sample_main_env sample_getenv 9 Map.empty = Inr (senv, s, mgr)"
proof -
  have "\<exists>files d reg. run_start sample_start_env sample_getenv 9 Map.empty = (files, Inr (d, reg))"
    by (simp add: run_start_def Let_def ApplyPendingRestore_def)
       (simp add: sample_start_env_def Migrate_def migrationNames_def has_suffix_def apply_migration_def sample_exec_def
         LoadDirs_def loadDir_def)
  moreover have "List.find (\<lambda>dir. \<not> mnMkdir sample_main_env dir) dirs = None" for dirs
    by (simp add: find_None_iff sample_main_env_def)
  moreover have "mnStart sample_main_env = sample_start_env" by (simp add: sample_main_env_def)
  ultimately show ?thesis by (auto simp: run_setup_def Let_def)
qed


end
