(* ===== verification/Disk_Faults.thy ===== *)
theory Disk_Faults
  imports Backup Iso
begin

text \<open>
  What \<open>internal/iso/iso.go\<close> and \<open>internal/backup/backup.go\<close> do when the disk fails or the process
  stops half-way.  \<open>Iso\<close> and \<open>Backup\<close> give the result of an operation on a disk that works; here
  \<open>Import\<close>, \<open>stageDatabase\<close>, \<open>ApplyPendingRestore\<close> and \<open>Export\<close> are the lists of the effects they
  have had on the files, in order, so that a process that stops at any moment has done a prefix
  of the list.  Every system call of an operation is a different value of \<open>call\<close>, so one
  predicate \<open>fails\<close> covers every combination of failures.
\<close>

section \<open>Effects on the files\<close>

datatype file_op = Put string string | Rename string string | Remove string

fun effect :: "file_op \<Rightarrow> disk \<Rightarrow> disk" where
  "effect (Put p c) files = files(p \<mapsto> c)"
| "effect (Rename a b) files = rename_file files a b"
| "effect (Remove p) files = files(p := None)"

definition disk_after :: "file_op list \<Rightarrow> disk \<Rightarrow> disk" where
  "disk_after ops files = fold effect ops files"

lemma disk_after_simps [simp]:
  "disk_after [] files = files"
  "disk_after (op # ops) files = disk_after ops (effect op files)"
  "disk_after (ops @ ops2) files = disk_after ops2 (disk_after ops files)"
  by (simp_all add: disk_after_def)

datatype call =
  StatFile string | CreateFile string | WriteFile string | CloseFile string | OpenFile string | ReopenFile string | ReadFile string
| RenameFile string string | RemoveFile string

text \<open>
  One operation on a disk: the calls that fail, the name \<open>os.CreateTemp\<close> chooses, and what is in
  the temporary file when writing it stops early.
\<close>

record disk_run =
  drFails :: "call \<Rightarrow> bool"
  drTemp :: string
  drPartial :: string

text \<open>The deferred \<open>os.Remove\<close> of a temporary file.\<close>

definition cleanup :: "disk_run \<Rightarrow> file_op list" where
  "cleanup dr = (if drFails dr (RemoveFile (drTemp dr)) then [] else [Remove (drTemp dr)])"

text \<open>The temporary file while \<open>io.Copy\<close> writes \<open>content\<close> into it.\<close>

definition copied :: "disk_run \<Rightarrow> string \<Rightarrow> file_op list" where
  "copied dr content = [Put (drTemp dr) [], Put (drTemp dr) (drPartial dr), Put (drTemp dr) content]"

section \<open>Uploading an image\<close>

datatype upload_error = Refused iso_error | CreateFailed | WriteFailed | CloseFailed | RenameFailed

text \<open>The analysis opens the stored file again; when it cannot, the image is recorded as unsupported.\<close>

definition record_stored :: "disk_run \<Rightarrow> iso_env \<Rightarrow> string \<Rightarrow> string \<Rightarrow> string \<Rightarrow> ISOImage" where
  "record_stored dr env target filename content =
     (if drFails dr (ReopenFile target) then blank_image filename (int (length content)) (ieSHA env content)
      else record_image env filename content)"

definition Import_run ::
    "disk_run \<Rightarrow> iso_env \<Rightarrow> string \<Rightarrow> instant \<Rightarrow> db \<Rightarrow> disk \<Rightarrow> string \<Rightarrow> string option
     \<Rightarrow> file_op list \<times> db \<times> (upload_error + ISOImage)" where
  "Import_run dr env dir now d files filename upload =
     (let target = Join [dir, filename]; tmp = drTemp dr in
      if \<not> filenameRe filename then ([], d, Inl (Refused ErrInvalidFilename))
      else if \<not> drFails dr (StatFile target) \<and> files target \<noteq> None then ([], d, Inl (Refused ErrExists))
      else case ISOByFilename d filename of
        Inr _ \<Rightarrow> ([], d, Inl (Refused ErrExists))
      | Inl _ \<Rightarrow>
          if drFails dr (CreateFile tmp) then ([], d, Inl CreateFailed)
          else case (if drFails dr (WriteFile tmp) then None else upload) of
            None \<Rightarrow> ([Put tmp [], Put tmp (drPartial dr)] @ cleanup dr, d, Inl WriteFailed)
          | Some content \<Rightarrow>
              if drFails dr (CloseFile tmp) then (copied dr content @ cleanup dr, d, Inl CloseFailed)
              else if drFails dr (RenameFile tmp target) then (copied dr content @ cleanup dr, d, Inl RenameFailed)
              else
                (let ops = copied dr content @ [Rename tmp target] @ cleanup dr in
                 case CreateISO now d (record_stored dr env target filename content) of
                   Inl e \<Rightarrow> (ops, d, Inl (Refused (IsoStore e)))
                 | Inr (d', img) \<Rightarrow> (ops, d', Inr img)))"

section \<open>Indexing images in place\<close>

definition hashFile :: "disk_run \<Rightarrow> iso_env \<Rightarrow> disk \<Rightarrow> string \<Rightarrow> string option" where
  "hashFile dr env files path =
     (case (if drFails dr (OpenFile path) then None else files path) of
        None \<Rightarrow> None
      | Some content \<Rightarrow> if drFails dr (ReadFile path) then None else Some (ieSHA env content))"

text \<open>\<open>ScanDir\<close> on the entries it read: what cannot be looked at or hashed is skipped.\<close>

fun scan_run ::
    "disk_run \<Rightarrow> iso_env \<Rightarrow> string \<Rightarrow> instant \<Rightarrow> disk \<Rightarrow> db \<Rightarrow> (string \<times> bool) list \<Rightarrow> db \<times> (iso_error + ISOImage list)" where
  "scan_run dr env dir now files d [] = (d, Inr [])"
| "scan_run dr env dir now files d ((name, isDir) # es) =
     (let path = Join [dir, name] in
      if isDir \<or> \<not> filenameRe name then scan_run dr env dir now files d es
      else case ISOByFilename d name of
             Inr _ \<Rightarrow> scan_run dr env dir now files d es
           | Inl _ \<Rightarrow>
               (case (if drFails dr (StatFile path) then None else files path) of
                  None \<Rightarrow> scan_run dr env dir now files d es
                | Some content \<Rightarrow>
                    if hashFile dr env files path = None then scan_run dr env dir now files d es
                    else (case CreateISO now d (record_stored dr env path name content) of
                       Inl e \<Rightarrow> (d, Inl (IsoStore e))
                     | Inr (d', img) \<Rightarrow>
                         (case scan_run dr env dir now files d' es of
                            (d'', Inl e) \<Rightarrow> (d'', Inl e)
                          | (d'', Inr imgs) \<Rightarrow> (d'', Inr (img # imgs))))))"

section \<open>Staging and restoring a database\<close>

datatype stage_error = StageCreate | StageWrite | StageClose | StageUnusable | StageRename

definition stageDatabase_run ::
    "disk_run \<Rightarrow> backup_env \<Rightarrow> string option \<Rightarrow> file_op list \<times> stage_error option" where
  "stageDatabase_run dr env entry =
     (let pending = pendingPath (bkDataDir env); tmp = drTemp dr in
      if drFails dr (CreateFile tmp) then ([], Some StageCreate)
      else case (if drFails dr (WriteFile tmp) then None else entry) of
        None \<Rightarrow> ([Put tmp [], Put tmp (drPartial dr)] @ cleanup dr, Some StageWrite)
      | Some content \<Rightarrow>
          if drFails dr (CloseFile tmp) then (copied dr content @ cleanup dr, Some StageClose)
          else if drFails dr (OpenFile tmp) \<or> \<not> validateSQLite env content then
            (copied dr content @ cleanup dr, Some StageUnusable)
          else if drFails dr (RenameFile tmp pending) then (copied dr content @ cleanup dr, Some StageRename)
          else (copied dr content @ [Rename tmp pending] @ cleanup dr, None))"

datatype restore_error = RestoreStat | RestorePreserve | RestoreActivate

definition ApplyPendingRestore_run ::
    "(call \<Rightarrow> bool) \<Rightarrow> backup_env \<Rightarrow> instant \<Rightarrow> disk \<Rightarrow> string \<Rightarrow> file_op list \<times> (restore_error + bool)" where
  "ApplyPendingRestore_run fails env now files dbPath =
     (let pending = pendingPath (bkDataDir env); bak = dbPath @ ''.bak-'' @ bkStamp env now in
      if fails (StatFile pending) then ([], Inl RestoreStat)
      else if files pending = None then ([], Inr False)
      else
        (let present = (\<not> fails (StatFile dbPath) \<and> files dbPath \<noteq> None);
             keep = (if present
                     then Rename dbPath bak # [Remove p. p \<leftarrow> [dbPath @ ''-wal'', dbPath @ ''-shm''], \<not> fails (RemoveFile p)]
                     else [])
         in if present \<and> fails (RenameFile dbPath bak) then ([], Inl RestorePreserve)
            else if fails (RenameFile pending dbPath) then (keep, Inl RestoreActivate)
            else (keep @ [Rename pending dbPath], Inr True)))"

section \<open>Publishing a file\<close>

text \<open>
  Both uploads write a temporary file and rename it when it is complete.  The contract: a run that
  does not publish touches only its temporary file; one that does renames it, complete, to the target.
\<close>

fun scratch :: "string \<Rightarrow> file_op \<Rightarrow> bool" where
  "scratch tmp (Put p c) \<longleftrightarrow> p = tmp"
| "scratch tmp (Rename a b) \<longleftrightarrow> False"
| "scratch tmp (Remove p) \<longleftrightarrow> p = tmp"

definition keeps :: "string \<Rightarrow> file_op \<Rightarrow> bool" where
  "keeps p op \<longleftrightarrow> (\<forall>files. effect op files p = files p)"

lemma keeps_simps [simp]:
  "p \<noteq> q \<Longrightarrow> keeps p (Put q c)"
  "p \<noteq> a \<Longrightarrow> p \<noteq> b \<Longrightarrow> keeps p (Rename a b)"
  "p \<noteq> q \<Longrightarrow> keeps p (Remove q)"
  by (auto simp: keeps_def rename_file_def)

lemma keeps_after: "list_all (keeps p) ops \<Longrightarrow> disk_after ops files p = files p"
  by (induction ops arbitrary: files) (simp_all add: keeps_def)

lemma scratch_all: "list_all (scratch tmp) ops \<Longrightarrow> p \<noteq> tmp \<Longrightarrow> list_all (keeps p) ops"
  by (induction ops) (auto elim: scratch.elims)

lemma scratch_keeps: "list_all (scratch tmp) ops \<Longrightarrow> p \<noteq> tmp \<Longrightarrow> disk_after ops files p = files p"
  by (rule keeps_after [OF scratch_all])

lemma list_all_take: "list_all P ops \<Longrightarrow> list_all P (take n ops)"
  by (meson in_set_takeD list_all_iff)

locale publication =
  fixes ops_of :: "'i \<Rightarrow> file_op list"
    and published :: "'i \<Rightarrow> bool"
    and tmp :: "'i \<Rightarrow> string"
    and target :: "'i \<Rightarrow> string"
    and content :: "'i \<Rightarrow> string"
  assumes unpublished: "\<not> published i \<Longrightarrow> list_all (scratch (tmp i)) (ops_of i)"
    and publishes: "published i \<Longrightarrow> \<exists>pre post. ops_of i = pre @ Put (tmp i) (content i) # Rename (tmp i) (target i) # post \<and>
      list_all (scratch (tmp i)) pre \<and> list_all (scratch (tmp i)) post"
begin

lemma others_kept:
  assumes "p \<noteq> tmp i" and "p \<noteq> target i"
  shows "disk_after (take n (ops_of i)) files p = files p"
proof (cases "published i")
  case False
  then show ?thesis using scratch_keeps [OF list_all_take [OF unpublished]] assms(1) by blast
next
  case True
  then obtain pre post where s: "ops_of i = pre @ Put (tmp i) (content i) # Rename (tmp i) (target i) # post"
    "list_all (scratch (tmp i)) pre" "list_all (scratch (tmp i)) post"
    using publishes by blast
  have "list_all (keeps p) (ops_of i)" using scratch_all [OF s(2)] scratch_all [OF s(3)] assms by (simp add: s(1))
  then show ?thesis by (rule keeps_after [OF list_all_take])
qed

text \<open>Whenever the process stops, the target has its old content or all of the new one.\<close>

lemma old_or_new:
  assumes "tmp i \<noteq> target i"
  shows "disk_after (take n (ops_of i)) files (target i) = files (target i) \<or>
    published i \<and> disk_after (take n (ops_of i)) files (target i) = Some (content i)"
proof (cases "published i")
  case False
  then show ?thesis using scratch_keeps [OF list_all_take [OF unpublished]] assms by metis
next
  case True
  then obtain pre post where s: "ops_of i = pre @ Put (tmp i) (content i) # Rename (tmp i) (target i) # post"
    "list_all (scratch (tmp i)) pre" "list_all (scratch (tmp i)) post"
    using publishes by blast
  show ?thesis
  proof (cases "n \<le> length pre + 1")
    case True
    then have "take n (ops_of i) = take n (pre @ [Put (tmp i) (content i)])"
      by (cases "n - length pre") (auto simp: s(1))
    moreover have "list_all (scratch (tmp i)) (pre @ [Put (tmp i) (content i)])" using s(2) by simp
    ultimately show ?thesis using scratch_keeps [OF list_all_take] assms by metis
  next
    case False
    then obtain k where n: "n = length pre + 2 + k" 
      using le_Suc_ex [of "length pre + 2" n] by auto
    let ?g = "effect (Rename (tmp i) (target i)) (effect (Put (tmp i) (content i)) (disk_after pre files))"
    have "disk_after (take n (ops_of i)) files = disk_after (take k post) ?g" by (simp add: s(1) n)
    moreover have "disk_after (take k post) ?g (target i) = ?g (target i)"
      using scratch_keeps [OF list_all_take [OF s(3)]] assms by metis
    ultimately show ?thesis using True by (simp add: rename_file_def)
  qed
qed

lemma complete:
  assumes "tmp i \<noteq> target i"
  shows "disk_after (ops_of i) files (target i) = (if published i then Some (content i) else files (target i))"
proof (cases "published i")
  case False
  then show ?thesis using scratch_keeps [OF unpublished] assms by metis
next
  case True
  then obtain pre post where s: "ops_of i = pre @ Put (tmp i) (content i) # Rename (tmp i) (target i) # post"
    "list_all (scratch (tmp i)) post"
    using publishes by blast
  then show ?thesis using scratch_keeps [OF s(2)] assms True by (simp add: rename_file_def)
qed

end

text \<open>An image upload and the staging of a database, with all their inputs.\<close>

record image_upload =
  iuRun :: disk_run
  iuEnv :: iso_env
  iuDir :: string
  iuNow :: instant
  iuDB :: db
  iuFiles :: disk
  iuName :: string
  iuBody :: "string option"

definition image_result :: "image_upload \<Rightarrow> file_op list \<times> db \<times> (upload_error + ISOImage)" where
  "image_result u = Import_run (iuRun u) (iuEnv u) (iuDir u) (iuNow u) (iuDB u) (iuFiles u) (iuName u) (iuBody u)"

definition image_target :: "image_upload \<Rightarrow> string" where
  "image_target u = Join [iuDir u, iuName u]"

definition image_published :: "image_upload \<Rightarrow> bool" where
  "image_published u \<longleftrightarrow> Rename (drTemp (iuRun u)) (image_target u) \<in> set (fst (image_result u))"

record database_upload =
  duRun :: disk_run
  duEnv :: backup_env
  duEntry :: "string option"

definition database_result :: "database_upload \<Rightarrow> file_op list \<times> stage_error option" where
  "database_result u = stageDatabase_run (duRun u) (duEnv u) (duEntry u)"

lemma cleanup_scratch [simp]: "list_all (scratch (drTemp dr)) (cleanup dr)"
  by (simp add: cleanup_def)

lemma cleanup_no_rename [simp]: "Rename a b \<notin> set (cleanup dr)"
  by (simp add: cleanup_def)

lemma copied_scratch [simp]: "list_all (scratch (drTemp dr)) (copied dr c)" "Rename a b \<notin> set (copied dr c)"
  by (simp_all add: copied_def)

lemma copied_rename:
  "copied dr c @ [Rename (drTemp dr) t] @ cleanup dr =
     [Put (drTemp dr) [], Put (drTemp dr) (drPartial dr)] @ Put (drTemp dr) c # Rename (drTemp dr) t # cleanup dr"
  by (simp add: copied_def)

lemma Import_run_ops:
  "fst (Import_run dr env dir now d files filename upload) = copied dr (the upload) @ [Rename (drTemp dr) (Join [dir, filename])] @ cleanup dr \<or>
   list_all (scratch (drTemp dr)) (fst (Import_run dr env dir now d files filename upload)) \<and>
     Rename (drTemp dr) (Join [dir, filename]) \<notin> set (fst (Import_run dr env dir now d files filename upload))"
  by (auto simp: Import_run_def Let_def split: sum.splits option.splits if_splits)

interpretation image_publication: publication "\<lambda>u. fst (image_result u)" image_published "\<lambda>u. drTemp (iuRun u)" image_target
    "\<lambda>u. the (iuBody u)"
proof
  fix u
  note ops = Import_run_ops [of "iuRun u" "iuEnv u" "iuDir u" "iuNow u" "iuDB u" "iuFiles u" "iuName u" "iuBody u"]
  show "\<not> image_published u \<Longrightarrow> list_all (scratch (drTemp (iuRun u))) (fst (image_result u))"
    using ops by (auto simp: image_published_def image_result_def image_target_def)
  assume "image_published u"
  then have "fst (image_result u) = copied (iuRun u) (the (iuBody u)) @ [Rename (drTemp (iuRun u)) (image_target u)] @ cleanup (iuRun u)"
    using ops by (auto simp: image_published_def image_result_def image_target_def)
  then show "\<exists>pre post. fst (image_result u) = pre @ Put (drTemp (iuRun u)) (the (iuBody u)) # Rename (drTemp (iuRun u)) (image_target u) # post \<and>
      list_all (scratch (drTemp (iuRun u))) pre \<and> list_all (scratch (drTemp (iuRun u))) post"
    unfolding copied_rename
    by (intro exI [of _ "[Put (drTemp (iuRun u)) [], Put (drTemp (iuRun u)) (drPartial (iuRun u))]"] exI [of _ "cleanup (iuRun u)"]) simp
qed

lemma stageDatabase_run_ops:
  "snd (stageDatabase_run dr env entry) = None \<Longrightarrow>
     fst (stageDatabase_run dr env entry) = copied dr (the entry) @ [Rename (drTemp dr) (pendingPath (bkDataDir env))] @ cleanup dr \<and>
     entry \<noteq> None \<and> validateSQLite env (the entry)"
  "snd (stageDatabase_run dr env entry) \<noteq> None \<Longrightarrow>
     list_all (scratch (drTemp dr)) (fst (stageDatabase_run dr env entry))"
  by (auto simp: stageDatabase_run_def Let_def split: option.splits if_splits)

interpretation database_publication: publication "\<lambda>u. fst (database_result u)" "\<lambda>u. snd (database_result u) = None"
    "\<lambda>u. drTemp (duRun u)" "\<lambda>u. pendingPath (bkDataDir (duEnv u))" "\<lambda>u. the (duEntry u)"
proof
  fix u
  note ops = stageDatabase_run_ops [of "duRun u" "duEnv u" "duEntry u"]
  show "snd (database_result u) \<noteq> None \<Longrightarrow> list_all (scratch (drTemp (duRun u))) (fst (database_result u))"
    using ops(2) by (simp add: database_result_def)
  assume "snd (database_result u) = None"
  then have "fst (database_result u) =
      copied (duRun u) (the (duEntry u)) @ [Rename (drTemp (duRun u)) (pendingPath (bkDataDir (duEnv u)))] @ cleanup (duRun u)"
    using conjunct1 [OF ops(1)] by (simp add: database_result_def)
  then show "\<exists>pre post. fst (database_result u) =
        pre @ Put (drTemp (duRun u)) (the (duEntry u)) # Rename (drTemp (duRun u)) (pendingPath (bkDataDir (duEnv u))) # post \<and>
      list_all (scratch (drTemp (duRun u))) pre \<and> list_all (scratch (drTemp (duRun u))) post"
    unfolding copied_rename
    by (intro exI [of _ "[Put (drTemp (duRun u)) [], Put (drTemp (duRun u)) (drPartial (duRun u))]"] exI [of _ "cleanup (duRun u)"]) simp
qed

section \<open>On a disk that works\<close>

definition no_faults :: "call \<Rightarrow> bool" where
  "no_faults c \<longleftrightarrow> False"

lemma no_faults_simp [simp]: "\<not> no_faults c"
  by (simp add: no_faults_def)

lemma stageDatabase_run_works:
  assumes "drFails dr = no_faults" and "files (drTemp dr) = None" and "drTemp dr \<noteq> pendingPath (bkDataDir env)"
  shows "stageDatabase env files entry =
    (case stageDatabase_run dr env entry of
       (ops, None) \<Rightarrow> Inr (disk_after ops files)
     | (ops, Some e) \<Rightarrow> Inl (if e = StageUnusable then ErrUnusable else ErrReadArchive))"
  using assms
  by (auto simp: stageDatabase_def stageDatabase_run_def Let_def copied_def cleanup_def rename_file_def split: option.splits)

lemma ApplyPendingRestore_run_works:
  assumes "ApplyPendingRestore_run no_faults env now files dbPath = (ops, r)"
  shows "ApplyPendingRestore env now files dbPath = (disk_after ops files, r = Inr True)"
  using assms by (auto simp: ApplyPendingRestore_run_def ApplyPendingRestore_def Let_def)

definition upload_verdict :: "upload_error + ISOImage \<Rightarrow> iso_error + ISOImage" where
  "upload_verdict r = (case r of Inr img \<Rightarrow> Inr img | Inl (Refused e) \<Rightarrow> Inl e | Inl _ \<Rightarrow> Inl ErrUpload)"

lemma Import_run_works:
  assumes "drFails dr = no_faults" and "drTemp dr \<noteq> Join [dir, filename]" and "lib filename = files (Join [dir, filename])"
    and "Import_run dr env dir now d files filename upload = (ops, d', r)"
  shows "\<exists>lib'. Import env now (d, lib) filename upload = ((d', lib'), upload_verdict r) \<and>
    lib' filename = disk_after ops files (Join [dir, filename])"
  using assms
  by (auto simp: Import_run_def Import_def Let_def upload_verdict_def record_stored_def copied_def cleanup_def rename_file_def
      split: option.splits sum.splits if_splits)

lemma scan_run_works:
  assumes "drFails dr = no_faults" and "\<And>name. lib name = files (Join [dir, name])"
  shows "scan_run dr env dir now files d es = scan_entries env now lib d es"
proof (induction es arbitrary: d)
  case (Cons e es)
  obtain name isDir where "e = (name, isDir)" by (cases e)
  then show ?case
    by (cases "ISOByFilename d name"; cases "files (Join [dir, name])")
       (simp_all del: Join.simps add: assms(1) assms(2) [of name] Cons.IH hashFile_def record_stored_def split: sum.split prod.split)
qed simp

text \<open>Whatever fails while a directory is indexed, each new row has the hash and the size of a file of it.\<close>

lemma scan_run_rows:
  "scan_run dr env dir now files d es = (d', Inr imgs) \<Longrightarrow> img \<in> set imgs \<Longrightarrow>
     \<exists>name content. files (Join [dir, name]) = Some content \<and>
       isSHA256 img = ieSHA env content \<and> isSizeBytes img = int (length content)"
proof (induction es arbitrary: d imgs)
  case (Cons e es)
  obtain name isDir where e: "e = (name, isDir)" by (cases e)
  have rec: "isSHA256 (record_stored dr env t filename c) = ieSHA env c"
    "isSizeBytes (record_stored dr env t filename c) = int (length c)" for t filename c
    by (auto simp: record_stored_def record_image_def blank_image_def Let_def split: option.splits)
  have created: "CreateISO now d i = Inr (d'', i') \<Longrightarrow> isSHA256 i' = isSHA256 i \<and> isSizeBytes i' = isSizeBytes i" for i d'' i'
    by (auto simp: CreateISO_def Let_def split: if_splits)
  show ?case
  proof (cases "isDir \<or> \<not> filenameRe name \<or> (\<exists>i. ISOByFilename d name = Inr i) \<or>
      drFails dr (StatFile (Join [dir, name])) \<or> files (Join [dir, name]) = None \<or> hashFile dr env files (Join [dir, name]) = None")
    case True
    then have "scan_run dr env dir now files d es = (d', Inr imgs)"
      using Cons.prems(1) by (auto simp del: Join.simps simp: e Let_def split: if_splits option.splits sum.splits)
    then show ?thesis using Cons.IH Cons.prems(2) by blast
  next
    case False
    then obtain x c h where f: "ISOByFilename d name = Inl x" "files (Join [dir, name]) = Some c" "hashFile dr env files (Join [dir, name]) = Some h"
      by (cases "ISOByFilename d name") (auto simp del: Join.simps)
    then obtain d1 i1 rest where s: "CreateISO now d (record_stored dr env (Join [dir, name]) name c) = Inr (d1, i1)"
      "scan_run dr env dir now files d1 es = (d', Inr rest)" "imgs = i1 # rest"
      using Cons.prems(1) False by (auto simp del: Join.simps simp: e Let_def split: sum.splits prod.splits)
    show ?thesis
    proof (cases "img = i1")
      case True
      then show ?thesis using created [OF s(1)] rec f(2) by metis
    next
      case False
      then have "img \<in> set rest" using Cons.prems(2) s(3) by simp
      then show ?thesis using Cons.IH s(2) by blast
    qed
  qed
qed simp

section \<open>A restore that is interrupted\<close>

text \<open>
  What may happen to the data directory between two times the server really serves: databases
  are staged and starts apply a staged one, with any failures, each stopped after its first \<open>n\<close>
  effects.
\<close>

datatype disk_event =
  Staging disk_run "string option" nat
| Starting "call \<Rightarrow> bool" instant nat

fun event_ops :: "backup_env \<Rightarrow> string \<Rightarrow> disk_event \<Rightarrow> disk \<Rightarrow> file_op list" where
  "event_ops env dbPath (Staging dr entry n) files = take n (fst (stageDatabase_run dr env entry))"
| "event_ops env dbPath (Starting fails now n) files = take n (fst (ApplyPendingRestore_run fails env now files dbPath))"

fun disk_history :: "backup_env \<Rightarrow> string \<Rightarrow> disk_event list \<Rightarrow> disk \<Rightarrow> disk" where
  "disk_history env dbPath [] files = files"
| "disk_history env dbPath (ev # evs) files =
     disk_history env dbPath evs (disk_after (event_ops env dbPath ev files) files)"

definition bak_path :: "backup_env \<Rightarrow> string \<Rightarrow> instant \<Rightarrow> string" where
  "bak_path env dbPath now = dbPath @ ''.bak-'' @ bkStamp env now"

definition database_file :: "string \<Rightarrow> string \<Rightarrow> bool" where
  "database_file dbPath p \<longleftrightarrow> p = dbPath \<or> has_prefix p (dbPath @ ''.bak-'')"

definition restore_paths :: "backup_env \<Rightarrow> string \<Rightarrow> bool" where
  "restore_paths env dbPath \<longleftrightarrow>
     \<not> database_file dbPath (pendingPath (bkDataDir env)) \<and>
     pendingPath (bkDataDir env) \<notin> {dbPath @ ''-wal'', dbPath @ ''-shm''}"

text \<open>The temporary file is a new one.\<close>

fun event_ok :: "backup_env \<Rightarrow> string \<Rightarrow> disk_event \<Rightarrow> bool" where
  "event_ok env dbPath (Staging dr entry n) \<longleftrightarrow>
     drTemp dr \<noteq> pendingPath (bkDataDir env) \<and> \<not> database_file dbPath (drTemp dr)"
| "event_ok env dbPath (Starting fails now n) \<longleftrightarrow> True"

text \<open>A start whose look at the database fails takes it for absent, and restores over it.\<close>

fun sees_database :: "string \<Rightarrow> disk_event \<Rightarrow> bool" where
  "sees_database dbPath (Staging dr entry n) \<longleftrightarrow> True"
| "sees_database dbPath (Starting fails now n) \<longleftrightarrow> \<not> fails (StatFile dbPath)"

fun start_stamp :: "backup_env \<Rightarrow> disk_event \<Rightarrow> string option" where
  "start_stamp env (Staging dr entry n) = None"
| "start_stamp env (Starting fails now n) = Some (bkStamp env now)"

lemma bak_path_simps [simp]:
  "bak_path env dbPath now \<noteq> dbPath" "dbPath \<noteq> bak_path env dbPath now"
  "bak_path env dbPath now \<noteq> dbPath @ ''-wal''" "bak_path env dbPath now \<noteq> dbPath @ ''-shm''"
  "bak_path env dbPath now = bak_path env dbPath later \<longleftrightarrow> bkStamp env now = bkStamp env later"
  "database_file dbPath (bak_path env dbPath now)" "database_file dbPath dbPath"
  by (simp_all add: bak_path_def database_file_def has_prefix_iff)

lemma bak_is_database_file: "database_file dbPath dbPath" "database_file dbPath (dbPath @ ''.bak-'' @ stamp)"
  unfolding database_file_def has_prefix_iff by simp_all

lemma restore_paths_D:
  assumes "restore_paths env dbPath"
  shows "pendingPath (bkDataDir env) \<noteq> dbPath" and "pendingPath (bkDataDir env) \<noteq> bak_path env dbPath now"
    and "pendingPath (bkDataDir env) \<notin> {dbPath @ ''-wal'', dbPath @ ''-shm''}"
  using assms bak_path_simps(6,7) [of dbPath] by (auto simp: restore_paths_def)

text \<open>What a start that stops after \<open>n\<close> effects has done to the three files it renames.\<close>

lemma start_effect:
  fixes env files dbPath now
  defines "pending \<equiv> pendingPath (bkDataDir env)" and "bak \<equiv> bak_path env dbPath now"
  assumes paths: "restore_paths env dbPath"
    and files': "files' = disk_after (take n (fst (ApplyPendingRestore_run fails env now files dbPath))) files"
  shows "files' dbPath = files dbPath \<and> files' bak = files bak \<and> files' pending = files pending \<or>
    files pending \<noteq> None \<and> files' dbPath = None \<and> files' bak = files dbPath \<and> files' pending = files pending \<or>
    files pending \<noteq> None \<and> files' dbPath = files pending \<and> files' pending = None \<and>
      (\<not> fails (StatFile dbPath) \<longrightarrow> files' bak = (if files dbPath = None then files bak else files dbPath))"
    and "p \<notin> {dbPath, bak, pending, dbPath @ ''-wal'', dbPath @ ''-shm''} \<Longrightarrow> files' p = files p"
proof -
  define rm where "rm = [Remove p. p \<leftarrow> [dbPath @ ''-wal'', dbPath @ ''-shm''], \<not> fails (RemoveFile p)]"
  define ops where "ops = fst (ApplyPendingRestore_run fails env now files dbPath)"
  have ne: "pending \<noteq> dbPath" "pending \<noteq> bak" "bak \<noteq> dbPath" and "pending \<notin> {dbPath @ ''-wal'', dbPath @ ''-shm''}"
    using restore_paths_D [OF paths] by (simp_all add: pending_def bak_def)
  then have rm: "list_all (keeps q) (take k rm)" if "q \<in> {dbPath, bak, pending}" for q k
    using that by (intro list_all_take) (auto simp: rm_def bak_def)
  have cs: "ops = [] \<or>
      ops = [Rename pending dbPath] \<and> (\<not> fails (StatFile dbPath) \<longrightarrow> files dbPath = None) \<and> files pending \<noteq> None \<or>
      ops = Rename dbPath bak # rm \<and> files pending \<noteq> None \<or>
      ops = Rename dbPath bak # rm @ [Rename pending dbPath] \<and> files pending \<noteq> None \<and> files dbPath \<noteq> None"
    by (auto simp: ops_def ApplyPendingRestore_run_def Let_def pending_def bak_def bak_path_def rm_def)
  show "files' dbPath = files dbPath \<and> files' bak = files bak \<and> files' pending = files pending \<or>
    files pending \<noteq> None \<and> files' dbPath = None \<and> files' bak = files dbPath \<and> files' pending = files pending \<or>
    files pending \<noteq> None \<and> files' dbPath = files pending \<and> files' pending = None \<and>
      (\<not> fails (StatFile dbPath) \<longrightarrow> files' bak = (if files dbPath = None then files bak else files dbPath))"
    using cs
  proof (elim disjE conjE)
    assume "ops = Rename dbPath bak # rm" "files pending \<noteq> None"
    then show ?thesis using ne keeps_after [OF rm]
      by (cases n) (simp_all add: files' ops_def [symmetric] rename_file_def)
  next
    assume o: "ops = Rename dbPath bak # rm @ [Rename pending dbPath]" "files pending \<noteq> None" "files dbPath \<noteq> None"
    show ?thesis
    proof (cases n)
      case (Suc k)
      then show ?thesis using o ne keeps_after [OF rm, of _ k] keeps_after [OF rm, of _ "length rm"]
        by (cases "k - length rm") (auto simp: files' ops_def [symmetric] rename_file_def)
    qed (simp add: files')
  qed (use ne in \<open>cases n; simp add: files' ops_def [symmetric] rename_file_def\<close>)+
  have "list_all (keeps p) ops" if "p \<notin> {dbPath, bak, pending, dbPath @ ''-wal'', dbPath @ ''-shm''}"
    using cs that by (auto simp: rm_def)
  then show "p \<notin> {dbPath, bak, pending, dbPath @ ''-wal'', dbPath @ ''-shm''} \<Longrightarrow> files' p = files p"
    using keeps_after [OF list_all_take] by (simp add: files' ops_def)
qed

text \<open>The old database is in place or kept, with \<open>used\<close> the stamps of the starts so far.\<close>

definition old_kept :: "backup_env \<Rightarrow> string \<Rightarrow> string \<Rightarrow> string set \<Rightarrow> disk \<Rightarrow> bool" where
  "old_kept env dbPath old used files \<longleftrightarrow>
     files dbPath = Some old \<or> (\<exists>stamp\<in>used. files (dbPath @ ''.bak-'' @ stamp) = Some old)"

text \<open>What is staged passed the checks; the database is the old one or a staged one, and when none is in place one is staged.\<close>

definition disk_inv :: "backup_env \<Rightarrow> string \<Rightarrow> string \<Rightarrow> disk \<Rightarrow> bool" where
  "disk_inv env dbPath old files \<longleftrightarrow>
     pred_option (validateSQLite env) (files (pendingPath (bkDataDir env))) \<and>
     (case files dbPath of None \<Rightarrow> files (pendingPath (bkDataDir env)) \<noteq> None | Some c \<Rightarrow> c = old \<or> validateSQLite env c)"

lemma staging_effect:
  fixes env dr entry n files
  defines "files' \<equiv> disk_after (take n (fst (stageDatabase_run dr env entry))) files"
  assumes "drTemp dr \<noteq> pendingPath (bkDataDir env)"
  shows "files' (pendingPath (bkDataDir env)) = files (pendingPath (bkDataDir env)) \<or>
      (\<exists>c. validateSQLite env c \<and> files' (pendingPath (bkDataDir env)) = Some c)"
    and "p \<noteq> drTemp dr \<Longrightarrow> p \<noteq> pendingPath (bkDataDir env) \<Longrightarrow> files' p = files p"
proof -
  let ?u = "\<lparr>duRun = dr, duEnv = env, duEntry = entry\<rparr>"
  have u: "fst (database_result ?u) = fst (stageDatabase_run dr env entry)" by (simp add: database_result_def)
  show "files' (pendingPath (bkDataDir env)) = files (pendingPath (bkDataDir env)) \<or>
      (\<exists>c. validateSQLite env c \<and> files' (pendingPath (bkDataDir env)) = Some c)"
    using database_publication.old_or_new [of ?u n files] stageDatabase_run_ops(1) [of dr env entry] assms(2)
    unfolding u by (auto simp: files'_def database_result_def)
  show "p \<noteq> drTemp dr \<Longrightarrow> p \<noteq> pendingPath (bkDataDir env) \<Longrightarrow> files' p = files p"
    using database_publication.others_kept [of p ?u n files] unfolding u by (simp add: files'_def)
qed

lemma event_disk_inv:
  assumes paths: "restore_paths env dbPath" and ok: "event_ok env dbPath ev" and inv: "disk_inv env dbPath old files"
  shows "disk_inv env dbPath old (disk_after (event_ops env dbPath ev files) files)"
proof (cases ev)
  case (Staging dr entry n)
  let ?files' = "disk_after (take n (fst (stageDatabase_run dr env entry))) files"
  have "dbPath \<noteq> drTemp dr" "dbPath \<noteq> pendingPath (bkDataDir env)"
    using ok paths bak_is_database_file(1) by (auto simp: Staging restore_paths_def)
  then have "?files' dbPath = files dbPath" by (rule staging_effect(2) [rotated 1]) (use ok in \<open>simp add: Staging\<close>)
  then show ?thesis
    using staging_effect(1) [of dr env n entry files] ok inv by (auto simp: Staging disk_inv_def split: option.splits)
next
  case (Starting fails now n)
  then show ?thesis using start_effect(1) [OF paths refl, of n fails now files] inv by (auto simp: disk_inv_def split: option.splits)
qed

lemma event_old_kept:
  assumes paths: "restore_paths env dbPath" and ok: "event_ok env dbPath ev" "sees_database dbPath ev"
    and kept: "old_kept env dbPath old used files"
    and fresh: "pred_option (\<lambda>stamp. stamp \<notin> used) (start_stamp env ev)"
  shows "old_kept env dbPath old (used \<union> set_option (start_stamp env ev)) (disk_after (event_ops env dbPath ev files) files)"
proof -
  let ?pending = "pendingPath (bkDataDir env)" and ?files' = "disk_after (event_ops env dbPath ev files) files"
  show ?thesis
  proof (cases ev)
    case (Staging dr entry n)
    have db: "database_file dbPath p \<Longrightarrow> ?files' p = files p" for p
      using staging_effect(2) [of dr env p n entry files] ok paths by (auto simp: Staging restore_paths_def)
    then have "?files' dbPath = files dbPath" "?files' (dbPath @ ''.bak-'' @ stamp) = files (dbPath @ ''.bak-'' @ stamp)" for stamp
      using bak_is_database_file by blast+
    then show ?thesis using kept by (auto simp: Staging old_kept_def)
  next
    case (Starting fails now n)
    let ?bak = "bak_path env dbPath now"
    have fails: "\<not> fails (StatFile dbPath)" and new: "bkStamp env now \<notin> used" using ok fresh by (simp_all add: Starting)
    have f: "?files' = disk_after (take n (fst (ApplyPendingRestore_run fails env now files dbPath))) files"
      by (simp add: Starting)
    note three = start_effect(1) [OF paths f]
    have others: "?files' (dbPath @ ''.bak-'' @ stamp) = files (dbPath @ ''.bak-'' @ stamp)" if "stamp \<in> used" for stamp
    proof (rule start_effect(2) [OF paths f])
      have "stamp \<noteq> bkStamp env now" using that new by blast
      moreover have "dbPath @ ''.bak-'' @ stamp \<noteq> ?pending"
        using paths bak_is_database_file(2) [of dbPath stamp] unfolding restore_paths_def by metis
      ultimately show "dbPath @ ''.bak-'' @ stamp \<notin> {dbPath, ?bak, ?pending, dbPath @ ''-wal'', dbPath @ ''-shm''}"
        by (simp add: bak_path_def)
    qed
    have "old_kept env dbPath old (insert (bkStamp env now) used) ?files'"
      using three fails kept others by (auto simp: old_kept_def bak_path_def)
    then show ?thesis by (simp add: Starting)
  qed
qed

lemma history_disk_inv:
  assumes "restore_paths env dbPath" and "list_all (event_ok env dbPath) evs" and "disk_inv env dbPath old files"
  shows "disk_inv env dbPath old (disk_history env dbPath evs files)"
  using assms(2,3) by (induction evs arbitrary: files) (auto intro: event_disk_inv [OF assms(1)])

lemma history_old_kept:
  assumes "restore_paths env dbPath" and "list_all (event_ok env dbPath) evs" and "list_all (sees_database dbPath) evs"
    and "old_kept env dbPath old used files"
    and "distinct (List.map_filter (start_stamp env) evs)" and "used \<inter> set (List.map_filter (start_stamp env) evs) = {}"
  shows "old_kept env dbPath old (used \<union> set (List.map_filter (start_stamp env) evs)) (disk_history env dbPath evs files)"
  using assms(2-)
proof (induction evs arbitrary: files used)
  case (Cons ev evs)
  let ?f = "disk_after (event_ops env dbPath ev files) files"
  have "old_kept env dbPath old (used \<union> set_option (start_stamp env ev)) ?f"
    using event_old_kept [OF assms(1) _ _ Cons.prems(3), of ev] Cons.prems(1,2,5)
    by (auto simp: map_filter_simps split: option.splits)
  then have "old_kept env dbPath old (used \<union> set_option (start_stamp env ev) \<union> set (List.map_filter (start_stamp env) evs))
        (disk_history env dbPath evs ?f)"
    using Cons.prems by (intro Cons.IH) (auto simp: map_filter_simps split: option.splits)
  then show ?case by (cases "start_stamp env ev") (simp_all add: map_filter_simps)
qed (simp add: map_filter_simps)

section \<open>Properties\<close>


text \<open>When looking at the live database fails for any reason, a pending restore replaces it: afterwards no
  file holds the old database.  The comment promises that it is kept as a \<open>.bak\<close> file.\<close>

theorem failing_stat_loses_database:
  assumes "restore_paths env dbPath" and "files = [dbPath \<mapsto> old, pendingPath (bkDataDir env) \<mapsto> new]"
    and "ApplyPendingRestore_run (\<lambda>c. c = StatFile dbPath) env now files dbPath = (ops, r)"
  shows "r = Inr True \<and> disk_after ops files = [dbPath \<mapsto> new]"
  using assms(2,3) restore_paths_D [OF assms(1)] by (auto simp: ApplyPendingRestore_run_def Let_def rename_file_def)

text \<open>Two starts in the same second that both restore use the same backup name, and the second overwrites
  the backup of the first.\<close>

theorem shared_second_loses_database:
  assumes "restore_paths env dbPath" and "files = [dbPath \<mapsto> old, pendingPath (bkDataDir env) \<mapsto> new]"
    and "bkStamp env later = bkStamp env now"
    and "files1 = fst (ApplyPendingRestore env now files dbPath)"
    and "files2 = fst (ApplyPendingRestore env later (files1(pendingPath (bkDataDir env) \<mapsto> newer)) dbPath)"
  shows "files1 (bak_path env dbPath now) = Some old \<and> files2 = [dbPath \<mapsto> newer, bak_path env dbPath now \<mapsto> new]"
proof -
  let ?p = "pendingPath (bkDataDir env)" and ?bak = "bak_path env dbPath now"
  note ne = restore_paths_D [OF assms(1)] restore_paths_D(2) [OF assms(1), of now]
  have bak: "bak_path env dbPath later = ?bak" by (simp add: bak_path_def assms(3))
  have moved: "fst (ApplyPendingRestore env t g dbPath) =
      rename_file ((rename_file g dbPath (bak_path env dbPath t))(dbPath @ ''-wal'' := None, dbPath @ ''-shm'' := None)) ?p dbPath"
    if "g ?p = Some y" "g dbPath = Some x" for t g x y
    using that by (simp add: ApplyPendingRestore_def Let_def bak_path_def)
  have f1: "files1 = [dbPath \<mapsto> new, ?bak \<mapsto> old]"
    unfolding assms(4) using ne by (subst moved) (auto simp: assms(2) rename_file_def)
  have "files2 = [dbPath \<mapsto> newer, ?bak \<mapsto> new]"
    unfolding assms(5) using ne by (subst moved) (auto simp: f1 bak rename_file_def)
  then show ?thesis by (simp add: f1)
qed

text \<open>A start that stops between the first rename and the removal of the journal leaves the journal of
  the old database beside the restored one: the next start finds no database to move away and so
  does not remove it.\<close>

theorem interrupted_restore_keeps_journal:
  assumes "restore_paths env dbPath" and "files (pendingPath (bkDataDir env)) = Some new" and "files dbPath = Some old"
    and "files (dbPath @ ''-wal'') = Some journal"
    and "files' = disk_after (take 1 (fst (ApplyPendingRestore_run no_faults env now files dbPath))) files"
  shows "fst (ApplyPendingRestore env later files' dbPath) dbPath = Some new \<and>
    fst (ApplyPendingRestore env later files' dbPath) (dbPath @ ''-wal'') = Some journal"
  using assms(2-) restore_paths_D [OF assms(1)] restore_paths_D(2) [OF assms(1), of now]
  by (auto simp: ApplyPendingRestore_run_def ApplyPendingRestore_def Let_def rename_file_def bak_path_def)

definition sample_run :: disk_run where
  "sample_run = \<lparr>drFails = no_faults, drTemp = ''/data/.import-1'', drPartial = []\<rparr>"

lemma sample_restore_paths: "restore_paths sample_backup_env ''/data/helboot.db''"
  unfolding restore_paths_def sample_paths by (simp add: database_file_def has_prefix_iff)


text \<open>The result of an upload: a row is written only for a file that is in place and complete.\<close>

lemma image_result_row:
  assumes "image_result u = (ops, d', Inr img)"
  shows "image_published u \<and> iuBody u \<noteq> None \<and> isSHA256 img = ieSHA (iuEnv u) (the (iuBody u)) \<and>
    isSizeBytes img = int (length (the (iuBody u))) \<and> proper_seg (iuName u) \<and> ISOByFilename d' (iuName u) = Inr img"
proof -
  have rec: "isFilename (record_stored dr env t filename c) = filename" "isSHA256 (record_stored dr env t filename c) = ieSHA env c"
    "isSizeBytes (record_stored dr env t filename c) = int (length c)" for dr env t filename c
    by (auto simp: record_stored_def record_image_def blank_image_def Let_def split: option.splits)
  have created: "CreateISO now d i = Inr (d'', i') \<Longrightarrow> isSHA256 i' = isSHA256 i \<and> isSizeBytes i' = isSizeBytes i \<and>
      ISOByFilename d'' (isFilename i) = Inr i'" for now d i d'' i'
    by (auto simp: CreateISO_def Let_def ISOByFilename_def found_def row_by_append row_by_None [THEN iffD2] split: if_splits)
  show ?thesis
    using assms
    by (auto simp: image_result_def image_published_def image_target_def Import_run_def Let_def rec filenameRe_plain(2) dest!: created
        split: if_splits option.splits sum.splits)
qed

lemma image_result_error: "image_result u = (ops, d', Inl e) \<Longrightarrow> d' = iuDB u"
  by (auto simp: image_result_def Import_run_def Let_def split: if_splits option.splits sum.splits)

text \<open>C33: A failed image upload leaves no half image.  Whichever calls fail and wherever the process stops, the
  file of that name has its old content or all of the upload, and nothing else changes but the
  temporary file; an upload that reports success has a plain name and has stored the whole file and
  the row of that name with its hash and size; one that reports an error left the database alone.\<close>

theorem image_upload_atomic:
  assumes "drTemp (iuRun u) \<noteq> image_target u" and "image_result u = (ops, d', r)"
    and "files' = disk_after (take n ops) (iuFiles u)"
  shows "(files' (image_target u) = iuFiles u (image_target u) \<or> files' (image_target u) = iuBody u) \<and>
    (p \<notin> {image_target u, drTemp (iuRun u)} \<longrightarrow> files' p = iuFiles u p) \<and>
    (case r of
       Inl e \<Rightarrow> d' = iuDB u
     | Inr img \<Rightarrow> (\<exists>content. iuBody u = Some content \<and> disk_after ops (iuFiles u) (image_target u) = Some content \<and>
         isSHA256 img = ieSHA (iuEnv u) content \<and> isSizeBytes img = int (length content)) \<and>
         proper_seg (iuName u) \<and> ISOByFilename d' (iuName u) = Inr img)"
proof -
  have o: "fst (image_result u) = ops" by (simp add: assms(2))
  have body: "image_published u \<Longrightarrow> Some (the (iuBody u)) = iuBody u"
    by (auto simp: image_published_def image_result_def image_target_def Import_run_def Let_def
        split: if_splits option.splits sum.splits)
  have "files' (image_target u) = iuFiles u (image_target u) \<or> files' (image_target u) = iuBody u"
    using image_publication.old_or_new [OF assms(1), of n "iuFiles u"] body unfolding o by (auto simp: assms(3))
  moreover have "p \<notin> {image_target u, drTemp (iuRun u)} \<longrightarrow> files' p = iuFiles u p"
    using image_publication.others_kept [of p u n "iuFiles u"] unfolding o by (simp add: assms(3))
  moreover have "\<exists>content. iuBody u = Some content \<and> disk_after ops (iuFiles u) (image_target u) = Some content \<and>
         isSHA256 img = ieSHA (iuEnv u) content \<and> isSizeBytes img = int (length content)"
      "proper_seg (iuName u)" "ISOByFilename d' (iuName u) = Inr img" if "r = Inr img" for img
    using image_result_row [of u ops d' img] image_publication.complete [OF assms(1), of "iuFiles u"] assms(2) body that
    unfolding o by auto
  moreover have "d' = iuDB u" if "r = Inl e" for e using image_result_error [of u ops d' e] assms(2) that by simp
  ultimately show ?thesis by (simp split: sum.splits)
qed

definition sample_upload :: image_upload where
  "sample_upload = \<lparr>iuRun = \<lparr>drFails = (\<lambda>c. c = ReopenFile ''/isos/debian.iso''), drTemp = ''/isos/.upload-1'', drPartial = ''da''\<rparr>,
     iuEnv = sample_iso_env, iuDir = ''/isos'', iuNow = 0, iuDB = empty_db, iuFiles = Map.empty, iuName = ''debian.iso'',
     iuBody = Some ''data''\<rparr>"

lemma sample_target: "image_target sample_upload = ''/isos/debian.iso''"
  by code_simp

theorem image_upload_atomic_witness:
  "\<exists>ops d' img. image_result sample_upload = (ops, d', Inr img) \<and>
     disk_after (take 3 ops) Map.empty ''/isos/debian.iso'' = None \<and>
     disk_after ops Map.empty ''/isos/debian.iso'' = Some ''data'' \<and> isSizeBytes img = 4"
proof -
  have name: "filenameRe ''debian.iso''" by (simp add: filenameRe_def has_suffix_def is_alnum_def is_lower_def)
  have t: "Clean ''/isos/debian.iso'' = ''/isos/debian.iso''" by code_simp
  obtain ops d' img where r: "image_result sample_upload = (ops, d', Inr img)"
    and ops: "ops = copied (iuRun sample_upload) ''data'' @ [Rename ''/isos/.upload-1'' ''/isos/debian.iso''] @ cleanup (iuRun sample_upload)"
    by (simp add: image_result_def Import_run_def sample_upload_def t name ISOByFilename_def row_by_def found_def empty_db_def
        record_stored_def blank_image_def CreateISO_def iso_status_ok_def Let_def sample_iso_env_def)
  have "drTemp (iuRun sample_upload) \<noteq> image_target sample_upload" unfolding sample_target by (simp add: sample_upload_def)
  from image_upload_atomic [OF this r refl]
  have "disk_after ops Map.empty ''/isos/debian.iso'' = Some ''data'' \<and> isSizeBytes img = 4"
    by (auto simp: sample_target) (auto simp: sample_upload_def)
  moreover have "disk_after (take 3 ops) Map.empty ''/isos/debian.iso'' = None"
    by (simp add: ops copied_def sample_upload_def)
  ultimately show ?thesis using r by blast
qed

end
