(* ===== verification/Export_Stream.thy ===== *)
theory Export_Stream
  imports Disk_Faults
begin

text \<open>
  \<open>Manager.Export\<close> of \<open>internal/backup/backup.go\<close> as it streams: \<open>writeTarFile\<close> and \<open>writeTarFileFromDisk\<close>
  on the writer of \<open>archive/tar\<close>, with a connection that may refuse any write and a disk that may fail.
  What the client has received is a prefix of the pieces written; \<open>read_stream\<close> is what the gzip and
  tar readers of \<open>Import\<close> make of it.  The tar reader stops at the two blocks of zeros that end an
  archive, and does not look at what follows: the trailer of the gzip stream is not needed.
\<close>

section \<open>The writer of archive/tar\<close>

datatype piece = Header string nat | Data string | TarEnd | GzipEnd

text \<open>
  The pieces written, the bytes the last header still announces, and whether an error of the
  connection sticks.  \<open>accepts n\<close> tells whether the connection takes the \<open>n\<close>-th piece.
\<close>

record tar_writer =
  twOut :: "piece list"
  twLeft :: nat
  twBroken :: bool

datatype tar_error = Connection | MissedWriting | WriteTooLong

definition put_piece :: "(nat \<Rightarrow> bool) \<Rightarrow> piece \<Rightarrow> tar_writer \<Rightarrow> tar_writer \<times> tar_error option" where
  "put_piece accepts x tw =
     (if accepts (length (twOut tw)) then (tw\<lparr>twOut := twOut tw @ [x]\<rparr>, None)
      else (tw\<lparr>twBroken := True\<rparr>, Some Connection))"

definition tar_flush :: "tar_writer \<Rightarrow> tar_error option" where
  "tar_flush tw = (if twBroken tw then Some Connection else if twLeft tw > 0 then Some MissedWriting else None)"

definition tar_WriteHeader :: "(nat \<Rightarrow> bool) \<Rightarrow> tar_writer \<Rightarrow> string \<Rightarrow> nat \<Rightarrow> tar_writer \<times> tar_error option" where
  "tar_WriteHeader accepts tw name k =
     (case tar_flush tw of
        Some e \<Rightarrow> (tw, Some e)
      | None \<Rightarrow> (case put_piece accepts (Header name k) tw of
          (tw', Some e) \<Rightarrow> (tw', Some e)
        | (tw', None) \<Rightarrow> (tw'\<lparr>twLeft := k\<rparr>, None)))"

text \<open>Nothing is passed on for an empty content; what does not fit is cut off and reported.\<close>

definition tar_Write :: "(nat \<Rightarrow> bool) \<Rightarrow> tar_writer \<Rightarrow> string \<Rightarrow> tar_writer \<times> tar_error option" where
  "tar_Write accepts tw b =
     (if twBroken tw then (tw, Some Connection)
      else
        (let fit = take (twLeft tw) b;
             verdict = (if length b > twLeft tw then Some WriteTooLong else None)
         in if fit = [] then (tw, verdict)
            else case put_piece accepts (Data fit) tw of
              (tw', Some e) \<Rightarrow> (tw', Some e)
            | (tw', None) \<Rightarrow> (tw'\<lparr>twLeft := twLeft tw - length fit\<rparr>, verdict)))"

definition tar_Close :: "(nat \<Rightarrow> bool) \<Rightarrow> tar_writer \<Rightarrow> tar_writer \<times> tar_error option" where
  "tar_Close accepts tw =
     (case tar_flush tw of
        Some e \<Rightarrow> (tw, Some e)
      | None \<Rightarrow> put_piece accepts TarEnd tw)"

section \<open>The export\<close>

definition writeTarFile :: "(nat \<Rightarrow> bool) \<Rightarrow> tar_writer \<Rightarrow> string \<Rightarrow> string \<Rightarrow> tar_writer \<times> tar_error option" where
  "writeTarFile accepts tw name content =
     (case tar_WriteHeader accepts tw name (length content) of
        (tw', Some e) \<Rightarrow> (tw', Some e)
      | (tw', None) \<Rightarrow> tar_Write accepts tw' content)"

datatype export_error = SnapshotFailed | ManifestFailed | OpenFailed | StatFailed | ReadFailed | TarFailed tar_error

definition tar_result :: "tar_writer \<times> tar_error option \<Rightarrow> tar_writer \<times> export_error option" where
  "tar_result r = (fst r, map_option TarFailed (snd r))"

text \<open>\<open>io.Copy\<close>: when reading stops half-way, \<open>drPartial\<close> has been passed on.\<close>

definition writeTarFileFromDisk ::
    "disk_run \<Rightarrow> (nat \<Rightarrow> bool) \<Rightarrow> disk \<Rightarrow> tar_writer \<Rightarrow> string \<Rightarrow> string \<Rightarrow> tar_writer \<times> export_error option" where
  "writeTarFileFromDisk dr accepts files tw name path =
     (case (if drFails dr (OpenFile path) then None else files path) of
        None \<Rightarrow> (tw, Some OpenFailed)
      | Some content \<Rightarrow>
          if drFails dr (StatFile path) then (tw, Some StatFailed)
          else case tar_WriteHeader accepts tw name (length content) of
            (tw', Some e) \<Rightarrow> (tw', Some (TarFailed e))
          | (tw', None) \<Rightarrow>
              if drFails dr (ReadFile path) then
                (case tar_Write accepts tw' (drPartial dr) of
                   (tw'', Some e) \<Rightarrow> (tw'', Some (TarFailed e))
                 | (tw'', None) \<Rightarrow> (tw'', Some ReadFailed))
              else tar_result (tar_Write accepts tw' content))"

definition new_tar_writer :: tar_writer where
  "new_tar_writer = \<lparr>twOut = [], twLeft = 0, twBroken = False\<rparr>"

text \<open>
  \<open>Export\<close>: the effects on the files, what was written to the connection, and the error.  \<open>drTemp\<close> is
  the name of the snapshot.
\<close>

definition Export_run ::
    "disk_run \<Rightarrow> (nat \<Rightarrow> bool) \<Rightarrow> backup_env \<Rightarrow> instant \<Rightarrow> disk \<Rightarrow> string \<Rightarrow> file_op list \<times> piece list \<times> export_error option" where
  "Export_run dr accepts env now files dbPath =
     (case (if drFails dr (CreateFile (drTemp dr)) then None else Option.bind (files dbPath) (bkVacuum env)) of
        None \<Rightarrow> (cleanup dr, [], Some SnapshotFailed)
      | Some snapshot \<Rightarrow>
          (let ops = Put (drTemp dr) snapshot # cleanup dr;
               stop = (\<lambda>tw e. (ops, twOut tw, Some e)) in
           case bkEncode env (export_manifest env now) of
             None \<Rightarrow> stop new_tar_writer ManifestFailed
           | Some meta \<Rightarrow>
          (case tar_result (writeTarFile accepts new_tar_writer ''manifest.json'' meta) of
             (tw, Some e) \<Rightarrow> stop tw e
           | (tw, None) \<Rightarrow>
          (case writeTarFileFromDisk dr accepts (files(drTemp dr \<mapsto> snapshot)) tw ''helboot.db'' (drTemp dr) of
             (tw, Some e) \<Rightarrow> stop tw e
           | (tw, None) \<Rightarrow>
          (case tar_result (tar_Close accepts tw) of
             (tw, Some e) \<Rightarrow> stop tw e
           | (tw, None) \<Rightarrow>
          (case tar_result (put_piece accepts GzipEnd tw) of
             (tw, Some e) \<Rightarrow> stop tw e
           | (tw, None) \<Rightarrow> (ops, twOut tw, None)))))))"

section \<open>Reading the stream\<close>

text \<open>
  The entries as far as they can be read, and whether the archive ends properly: with its end marker,
  or with the stream, complete to its trailer, where a header could start.
\<close>

fun read_pieces :: "piece list \<Rightarrow> (string \<times> string option) list \<times> bool" where
  "read_pieces (Header name k # rest) =
     (if k = 0 then (case read_pieces rest of (es, ended) \<Rightarrow> ((name, Some []) # es, ended))
      else case rest of
        Data c # rest' \<Rightarrow>
          if length c = k then (case read_pieces rest' of (es, ended) \<Rightarrow> ((name, Some c) # es, ended))
          else ([(name, None)], False)
      | _ \<Rightarrow> ([(name, None)], False))"
| "read_pieces (TarEnd # _) = ([], True)"
| "read_pieces (GzipEnd # _) = ([], True)"
| "read_pieces _ = ([], False)"

definition read_stream :: "piece list \<Rightarrow> archive" where
  "read_stream xs = (case xs of [] \<Rightarrow> NotGzip | _ \<Rightarrow> case_prod Entries (read_pieces xs))"

section \<open>Facts\<close>

lemma tar_result_eq [simp]:
  "tar_result r = (tw, e) \<longleftrightarrow> (case e of None \<Rightarrow> r = (tw, None) | Some x \<Rightarrow> \<exists>e'. x = TarFailed e' \<and> r = (tw, Some e'))"
  by (cases r) (auto simp: tar_result_def split: option.splits)

lemmas tar_defs = put_piece_def tar_flush_def tar_WriteHeader_def tar_Write_def tar_Close_def

definition no_end :: "tar_writer \<Rightarrow> bool" where
  "no_end tw \<longleftrightarrow> TarEnd \<notin> set (twOut tw) \<and> GzipEnd \<notin> set (twOut tw)"

lemma no_end_WriteHeader: "no_end tw \<Longrightarrow> no_end (fst (tar_WriteHeader accepts tw name k))"
  by (auto simp: no_end_def tar_defs split: option.splits)

lemma no_end_Write: "no_end tw \<Longrightarrow> no_end (fst (tar_Write accepts tw b))"
  by (auto simp: no_end_def tar_defs Let_def split: option.splits)

lemma no_end_writeTarFile: "no_end tw \<Longrightarrow> no_end (fst (writeTarFile accepts tw name c))"
proof -
  assume tw: "no_end tw"
  obtain tw' e where h: "tar_WriteHeader accepts tw name (length c) = (tw', e)" by fastforce
  have "no_end tw'" using no_end_WriteHeader [OF tw, of accepts name "length c"] by (simp add: h)
  then show ?thesis using no_end_Write [of tw' accepts c] by (cases e) (simp_all add: writeTarFile_def h)
qed

lemma no_end_fromDisk:
  assumes tw: "no_end tw"
  shows "no_end (fst (writeTarFileFromDisk dr accepts files tw name path))"
proof (cases "if drFails dr (OpenFile path) then None else files path")
  case (Some c)
  obtain tw' e where h: "tar_WriteHeader accepts tw name (length c) = (tw', e)" by fastforce
  have tw': "no_end tw'" using no_end_WriteHeader [OF tw, of accepts name "length c"] by (simp add: h)
  obtain tw2 e2 where w: "tar_Write accepts tw' (drPartial dr) = (tw2, e2)" by fastforce
  have "no_end tw2" using no_end_Write [OF tw', of accepts "drPartial dr"] by (simp add: w)
  then show ?thesis
    using tw tw' no_end_Write [OF tw', of accepts c]
    by (cases e; cases e2) (simp_all add: writeTarFileFromDisk_def Some h w tar_result_def)
qed (simp add: writeTarFileFromDisk_def tw)

lemma no_end_new: "no_end new_tar_writer"
  by (simp add: no_end_def new_tar_writer_def)

lemma import_needs_end: "snd (import_entries env files sm sd es ended) = None \<Longrightarrow> ended"
  by (induction env files sm sd es ended rule: import_entries.induct) (auto split: if_splits option.splits sum.splits)

lemma read_pieces_end: "snd (read_pieces xs) \<Longrightarrow> TarEnd \<in> set xs \<or> GzipEnd \<in> set xs"
  by (induction xs rule: read_pieces.induct) (auto split: prod.splits if_splits list.splits piece.splits)

lemma import_needs_trailer: "snd (backup_Import env files (read_stream xs)) = None \<Longrightarrow> TarEnd \<in> set xs \<or> GzipEnd \<in> set xs"
  using read_pieces_end [of xs] import_needs_end
  by (auto simp: backup_Import_def read_stream_def split: list.splits prod.splits) (metis snd_conv)+

text \<open>The pieces of one file written without an error to a writer that owes nothing.\<close>

definition file_pieces :: "string \<Rightarrow> string \<Rightarrow> piece list" where
  "file_pieces name c = Header name (length c) # (if c = [] then [] else [Data c])"

lemma read_file_pieces: "read_pieces (file_pieces name c @ xs) = (case read_pieces xs of (es, ended) \<Rightarrow> ((name, Some c) # es, ended))"
  by (simp add: file_pieces_def)

lemma writeTarFile_ok:
  assumes "writeTarFile accepts tw name c = (tw', None)" and "twLeft tw = 0" and "\<not> twBroken tw"
  shows "twOut tw' = twOut tw @ file_pieces name c \<and> twLeft tw' = 0 \<and> \<not> twBroken tw'"
  using assms by (auto simp: writeTarFile_def tar_defs file_pieces_def Let_def split: if_splits option.splits prod.splits)

lemma writeTarFileFromDisk_ok:
  assumes "writeTarFileFromDisk dr accepts files tw name path = (tw', None)" and "twLeft tw = 0" and "\<not> twBroken tw"
  shows "\<exists>c. files path = Some c \<and> twOut tw' = twOut tw @ file_pieces name c \<and> twLeft tw' = 0 \<and> \<not> twBroken tw'"
proof -
  obtain c where "files path = Some c" and w: "writeTarFile accepts tw name c = (tw', None)"
    using assms(1) by (auto simp: writeTarFileFromDisk_def writeTarFile_def split: if_splits option.splits prod.splits)
  then show ?thesis using writeTarFile_ok [OF w assms(2,3)] by simp
qed

text \<open>An end marker is written only behind the archive; at most the trailer is missing then.\<close>

lemma Export_run_end:
  assumes "Export_run dr accepts env now files dbPath = (ops, xs, err)"
  shows "TarEnd \<notin> set xs \<and> GzipEnd \<notin> set xs \<or>
    (\<exists>whole. TarEnd \<notin> set whole \<and> GzipEnd \<notin> set whole \<and> Export env now files dbPath = Some (read_stream (whole @ [TarEnd])) \<and>
       (xs = whole @ [TarEnd] \<and> err = Some (TarFailed Connection) \<or> xs = whole @ [TarEnd, GzipEnd] \<and> err = None))"
proof (cases "(if drFails dr (CreateFile (drTemp dr)) then None else Option.bind (files dbPath) (bkVacuum env))")
  case None
  then show ?thesis using assms by (auto simp: Export_run_def)
next
  case s: (Some snapshot)
  then have vac: "Option.bind (files dbPath) (bkVacuum env) = Some snapshot" by (simp split: if_splits)
  show ?thesis
  proof (cases "bkEncode env (export_manifest env now)")
    case None
    then show ?thesis using assms by (auto simp: Export_run_def s Let_def new_tar_writer_def)
  next
    case (Some meta)
    obtain tw1 e1 where 1: "writeTarFile accepts new_tar_writer ''manifest.json'' meta = (tw1, e1)" by fastforce
    obtain tw2 e2 where 2: "writeTarFileFromDisk dr accepts (files(drTemp dr \<mapsto> snapshot)) tw1 ''helboot.db'' (drTemp dr) = (tw2, e2)"
      by fastforce
    have n1: "no_end tw1" using no_end_writeTarFile [OF no_end_new, of accepts] 1 by (metis fst_conv)
    then have n2: "no_end tw2" using no_end_fromDisk 2 by (metis fst_conv)
    show ?thesis
    proof (cases "e1 = None \<and> e2 = None")
      case False
      then show ?thesis
        using assms n1 n2 by (auto simp: Export_run_def s Some 1 2 tar_result_def Let_def no_end_def split: option.splits)
    next
      case True
      have tw1: "twOut tw1 = file_pieces ''manifest.json'' meta" "twLeft tw1 = 0" "\<not> twBroken tw1"
        using writeTarFile_ok [of accepts new_tar_writer _ meta tw1] 1 True by (simp_all add: new_tar_writer_def)
      then have tw2: "twOut tw2 = twOut tw1 @ file_pieces ''helboot.db'' snapshot" "twLeft tw2 = 0" "\<not> twBroken tw2"
        using writeTarFileFromDisk_ok [of dr accepts "files(drTemp dr \<mapsto> snapshot)" tw1 "''helboot.db''" "drTemp dr" tw2] 2 True
        by simp_all
      have "Export env now files dbPath = Some (read_stream (twOut tw2 @ [TarEnd]))"
        by (simp add: Export_def vac Some read_stream_def tw2(1) tw1(1) read_file_pieces) (simp add: file_pieces_def)
      moreover have "xs = twOut tw2 \<or> xs = twOut tw2 @ [TarEnd] \<and> err = Some (TarFailed Connection) \<or>
          xs = twOut tw2 @ [TarEnd, GzipEnd] \<and> err = None"
        using assms True tw2(2,3)
        by (auto simp: Export_run_def s Some 1 2 tar_result_def Let_def tar_Close_def tar_flush_def put_piece_def
            split: option.splits if_splits)
      ultimately show ?thesis using n2 by (auto simp: no_end_def)
    qed
  qed
qed

lemma read_stream_trailer: "read_stream (whole @ [TarEnd, GzipEnd]) = read_stream (whole @ [TarEnd])"
proof -
  have "read_pieces (whole @ [TarEnd, GzipEnd]) = read_pieces (whole @ [TarEnd])"
  proof (induction whole rule: read_pieces.induct)
    case (1 name k rest)
    show ?case
    proof (cases rest)
      case (Cons x rest')
      then show ?thesis using 1 by (cases x) simp_all
    qed simp
  qed simp_all
  then show ?thesis by (cases whole) (simp_all add: read_stream_def)
qed

text \<open>An export that reports no error has written what \<open>Export\<close> describes.\<close>

lemma Export_run_ok:
  assumes "Export_run dr accepts env now files dbPath = (ops, xs, None)"
  shows "\<exists>whole. xs = whole @ [TarEnd, GzipEnd] \<and> Export env now files dbPath = Some (read_stream xs)"
proof -
  have "TarEnd \<in> set xs"
    using assms by (auto simp: Export_run_def Let_def tar_Close_def put_piece_def split: option.splits prod.splits if_splits)
  then show ?thesis using Export_run_end [OF assms] by (auto simp: read_stream_trailer)
qed

lemma prefix_with_end:
  assumes "x \<in> set (take n (whole @ rest))" and "x \<notin> set whole"
  shows "\<exists>k. take n (whole @ rest) = whole @ take (Suc k) rest"
proof -
  have "length whole < n"
  proof (rule ccontr)
    assume "\<not> length whole < n"
    then show False using assms by (auto dest: in_set_takeD)
  qed
  then obtain k where "n = Suc (length whole + k)" using less_imp_Suc_add by blast
  then show ?thesis by auto
qed

section \<open>Properties\<close>

text \<open>C34: Nothing is missing from an export that is taken for a backup.  Whatever piece the connection
  refuses, whichever call fails and wherever the transfer is cut, an instance accepts what a client
  received only when the archive arrived up to its end marker, and then it is the archive \<open>Export\<close>
  describes; the export reported no error or only that the trailer of the gzip stream was refused;
  and the snapshot file is gone unless the disk refused to remove it.\<close>

theorem accepted_export_complete:
  assumes "Export_run dr accepts env now files dbPath = (ops, xs, err)" and "received = take n xs"
    and "snd (backup_Import other files2 (read_stream received)) = None"
  shows "(\<exists>whole. xs \<in> {whole @ [TarEnd], whole @ [TarEnd, GzipEnd]} \<and> received \<in> {whole @ [TarEnd], whole @ [TarEnd, GzipEnd]}) \<and>
    Export env now files dbPath = Some (read_stream received) \<and>
    (err = None \<or> err = Some (TarFailed Connection) \<and> last xs = TarEnd) \<and>
    (\<not> drFails dr (RemoveFile (drTemp dr)) \<longrightarrow> disk_after ops files = files(drTemp dr := None))"
proof -
  have ends: "TarEnd \<in> set received \<or> GzipEnd \<in> set received" by (rule import_needs_trailer [OF assms(3)])
  then have "TarEnd \<in> set xs \<or> GzipEnd \<in> set xs" by (auto simp: assms(2) dest: in_set_takeD)
  then obtain whole where b: "TarEnd \<notin> set whole" "GzipEnd \<notin> set whole" "Export env now files dbPath = Some (read_stream (whole @ [TarEnd]))"
      "xs = whole @ [TarEnd] \<and> err = Some (TarFailed Connection) \<or> xs = whole @ [TarEnd, GzipEnd] \<and> err = None"
    using Export_run_end [OF assms(1)] by blast
  have received: "received \<in> {whole @ [TarEnd], whole @ [TarEnd, GzipEnd]}"
  proof -
    obtain rest where xs: "xs = whole @ rest" "rest = [TarEnd] \<or> rest = [TarEnd, GzipEnd]" using b(4) by auto
    obtain k where "received = whole @ take (Suc k) rest"
      using prefix_with_end [of _ n whole rest] ends b(1,2) by (auto simp: assms(2) xs(1))
    then show ?thesis using xs(2) by (cases k) auto
  qed
  moreover have "read_stream (whole @ [TarEnd, GzipEnd]) = read_stream (whole @ [TarEnd])" by (rule read_stream_trailer)
  moreover have "disk_after ops files = files(drTemp dr := None)" if "\<not> drFails dr (RemoveFile (drTemp dr))"
    using assms(1) that by (auto simp: Export_run_def cleanup_def Let_def split: option.splits prod.splits if_splits)
  ultimately show ?thesis using b(3,4) by auto
qed

text \<open>The trailer of the gzip stream, with its checksum and length, is never looked at: what was received up to
  the end marker is accepted like the whole export.\<close>

theorem cut_trailer_accepted:
  assumes "Export_run dr accepts env now files dbPath = (ops, xs, None)"
  shows "\<exists>received. xs = received @ [GzipEnd] \<and>
    backup_Import other files2 (read_stream received) = backup_Import other files2 (read_stream xs)"
proof -
  obtain whole where "xs = whole @ [TarEnd, GzipEnd]" using Export_run_ok [OF assms] by blast
  then show ?thesis by (intro exI [of _ "whole @ [TarEnd]"]) (simp add: read_stream_trailer)
qed

theorem accepted_export_complete_witness:
  "\<exists>ops xs. Export_run sample_run (\<lambda>n. n < 5) sample_backup_env 0 [''/data/helboot.db'' \<mapsto> ''A''] ''/data/helboot.db'' =
       (ops, xs, Some (TarFailed Connection)) \<and>
     length xs = 5 \<and> snd (backup_Import sample_backup_env Map.empty (read_stream (take 9 xs))) = None \<and>
     Export sample_backup_env 0 [''/data/helboot.db'' \<mapsto> ''A''] ''/data/helboot.db'' = Some (read_stream (take 9 xs))"
proof -
  obtain ops xs where r: "Export_run sample_run (\<lambda>n. n < 5) sample_backup_env 0 [''/data/helboot.db'' \<mapsto> ''A''] ''/data/helboot.db'' =
      (ops, xs, Some (TarFailed Connection))"
    and xs: "xs = file_pieces ''manifest.json'' ''helboot'' @ file_pieces ''helboot.db'' ''A'' @ [TarEnd]"
    by (simp add: Export_run_def sample_run_def sample_backup_env_def export_manifest_def writeTarFile_def writeTarFileFromDisk_def
        tar_result_def tar_defs new_tar_writer_def Let_def file_pieces_def)
  have "validateSQLite sample_backup_env c" for c
    by (simp add: sample_backup_env_def validateSQLite_def)
  then have "snd (backup_Import sample_backup_env Map.empty (read_stream (take 9 xs))) = None"
    by (simp add: xs file_pieces_def read_stream_def backup_Import_def clean_names stageDatabase_def sample_manifest_decodes)
  from accepted_export_complete [OF r refl this] this r xs show ?thesis by (auto simp: file_pieces_def)
qed

end
