(* ===== verification/Logger.thy ===== *)
theory Logger
  imports Logging Netutil
begin

text \<open>
  The loggers of \<open>internal/logging\<close>: \<open>New\<close> and the handler that tees records into the ring.  A handler of
  \<open>slog\<close> below it is what it was configured with; where it writes is a list of the records it was
  given.  Every logger derived with attributes or groups shares the one ring and the one output.
\<close>

section \<open>Handlers\<close>

datatype derivation = Attrs "(string \<times> string) list" | Group string

record base_handler =
  bhLevel :: Level
  bhJSON :: bool
  bhContext :: "derivation list"

datatype slog_handler =
  Plain base_handler
| Tee base_handler "(string \<times> string) list"  \<comment> \<open>\<open>ringHandler\<close>: its base and its own attributes\<close>

definition WrapWithRing :: "base_handler \<Rightarrow> slog_handler" where
  "WrapWithRing base = Tee base []"

definition logging_New :: "string \<Rightarrow> string \<Rightarrow> bool \<Rightarrow> slog_handler" where
  "logging_New level format ring =
     (let handler = \<lparr>bhLevel = parseLevel level, bhJSON = EqualFold format ''json'', bhContext = []\<rparr> in
      if ring then WrapWithRing handler else Plain handler)"

definition ParseLevel :: "string \<Rightarrow> Level" where
  "ParseLevel s = parseLevel s"

definition base_derive :: "derivation \<Rightarrow> base_handler \<Rightarrow> base_handler" where
  "base_derive d b = b\<lparr>bhContext := bhContext b @ [d]\<rparr>"

fun handler_WithAttrs :: "slog_handler \<Rightarrow> (string \<times> string) list \<Rightarrow> slog_handler" where
  "handler_WithAttrs (Plain b) attrs = Plain (base_derive (Attrs attrs) b)"
| "handler_WithAttrs (Tee b own) attrs = Tee (base_derive (Attrs attrs) b) (own @ attrs)"

text \<open>Groups are flattened in the ring; the base handler keeps them.\<close>

fun handler_WithGroup :: "slog_handler \<Rightarrow> string \<Rightarrow> slog_handler" where
  "handler_WithGroup (Plain b) name = Plain (base_derive (Group name) b)"
| "handler_WithGroup (Tee b own) name = Tee (base_derive (Group name) b) own"

definition base_Enabled :: "base_handler \<Rightarrow> Level \<Rightarrow> bool" where
  "base_Enabled b level \<longleftrightarrow> bhLevel b \<le> level"

fun handler_Enabled :: "slog_handler \<Rightarrow> Level \<Rightarrow> bool" where
  "handler_Enabled (Plain b) level = base_Enabled b level"
| "handler_Enabled (Tee b own) level = base_Enabled b level"

record log_sinks =
  lsRing :: Ring
  lsOut :: "(base_handler \<times> log_record) list"

fun handler_Handle :: "slog_handler \<Rightarrow> log_record \<Rightarrow> log_sinks \<Rightarrow> log_sinks" where
  "handler_Handle (Plain b) rec s = s\<lparr>lsOut := lsOut s @ [(b, rec)]\<rparr>"
| "handler_Handle (Tee b own) rec s =
     s\<lparr>lsRing := rhRing (Handle \<lparr>rhRing = lsRing s, rhAttrs = own\<rparr> rec), lsOut := lsOut s @ [(b, rec)]\<rparr>"

text \<open>A logger asks its handler first.\<close>

definition logger_Log :: "slog_handler \<Rightarrow> log_record \<Rightarrow> log_sinks \<Rightarrow> log_sinks" where
  "logger_Log h rec s = (if handler_Enabled h (lrLevel rec) then handler_Handle h rec s else s)"

fun derive :: "slog_handler \<Rightarrow> derivation list \<Rightarrow> slog_handler" where
  "derive h [] = h"
| "derive h (Attrs attrs # ds) = derive (handler_WithAttrs h attrs) ds"
| "derive h (Group name # ds) = derive (handler_WithGroup h name) ds"

section \<open>What the ring gets\<close>

fun derived_attrs :: "derivation list \<Rightarrow> (string \<times> string) list" where
  "derived_attrs [] = []"
| "derived_attrs (Attrs attrs # ds) = attrs @ derived_attrs ds"
| "derived_attrs (Group name # ds) = derived_attrs ds"

text \<open>The entry of a record: the attributes of the logger, then its own, later ones winning.\<close>

definition entry_of :: "derivation list \<times> log_record \<Rightarrow> Entry" where
  "entry_of c = (case c of (ds, rec) \<Rightarrow>
     \<lparr>enTime = lrTime rec, enLevel = Level_String (lrLevel rec), enMessage = lrMessage rec,
      enAttrs = map_of (rev (derived_attrs ds @ lrAttrs rec))\<rparr>)"

lemma puts_map_of: "foldl (\<lambda>m (k, v). m(k \<mapsto> v)) m xs = m ++ map_of (rev xs)"
  by (induction xs rule: rev_induct) (auto simp: map_add_def fun_eq_iff)

lemma derive_Tee: "\<exists>b'. derive (Tee b own) ds = Tee b' (own @ derived_attrs ds) \<and> bhLevel b' = bhLevel b"
proof (induction ds arbitrary: b own rule: derived_attrs.induct)
  case (2 attrs ds)
  show ?case using 2 [of "base_derive (Attrs attrs) b" "own @ attrs"] by (auto simp: base_derive_def)
next
  case (3 name ds)
  show ?case using 3 [of "base_derive (Group name) b" own] by (auto simp: base_derive_def)
qed simp

lemma logger_Log_derived:
  "\<exists>b'. logger_Log (derive (logging_New level format True) ds) rec s =
     (if parseLevel level \<le> lrLevel rec
      then \<lparr>lsRing = ring_append (entry_of (ds, rec)) (lsRing s), lsOut = lsOut s @ [(b', rec)]\<rparr> else s)"
proof -
  obtain b' where "derive (logging_New level format True) ds = Tee b' (derived_attrs ds)" "bhLevel b' = parseLevel level"
    using derive_Tee [of "\<lparr>bhLevel = parseLevel level, bhJSON = EqualFold format ''json'', bhContext = []\<rparr>" "[]" ds]
    by (auto simp: logging_New_def WrapWithRing_def)
  then show ?thesis
    by (intro exI [of _ b']) (simp add: logger_Log_def base_Enabled_def Handle_def entry_of_def puts_map_of Let_def)
qed

lemma logger_Log_all:
  "\<exists>out. fold (\<lambda>(ds, rec). logger_Log (derive (logging_New level format True) ds) rec) calls s =
     \<lparr>lsRing = fold ring_append (map entry_of (filter (\<lambda>(ds, rec). parseLevel level \<le> lrLevel rec) calls)) (lsRing s), lsOut = lsOut s @ out\<rparr> \<and>
     map snd out = map snd (filter (\<lambda>(ds, rec). parseLevel level \<le> lrLevel rec) calls)"
proof (induction calls arbitrary: s)
  case Nil
  show ?case by (intro exI [of _ "[]"]) simp
next
  case (Cons c calls)
  obtain ds rec where c: "c = (ds, rec)" by (cases c)
  obtain b' where l: "logger_Log (derive (logging_New level format True) ds) rec s =
     (if parseLevel level \<le> lrLevel rec
      then \<lparr>lsRing = ring_append (entry_of (ds, rec)) (lsRing s), lsOut = lsOut s @ [(b', rec)]\<rparr> else s)"
    using logger_Log_derived by blast
  obtain out where o: "fold (\<lambda>(ds, rec). logger_Log (derive (logging_New level format True) ds) rec) calls
      (logger_Log (derive (logging_New level format True) ds) rec s) =
     \<lparr>lsRing = fold ring_append (map entry_of (filter (\<lambda>(ds, rec). parseLevel level \<le> lrLevel rec) calls))
        (lsRing (logger_Log (derive (logging_New level format True) ds) rec s)),
      lsOut = lsOut (logger_Log (derive (logging_New level format True) ds) rec s) @ out\<rparr>"
     "map snd out = map snd (filter (\<lambda>(ds, rec). parseLevel level \<le> lrLevel rec) calls)"
    using Cons.IH by blast
  show ?case
  proof (cases "parseLevel level \<le> lrLevel rec")
    case True
    then show ?thesis using o by (intro exI [of _ "(b', rec) # out"]) (simp add: c l)
  next
    case False
    then show ?thesis using o by (intro exI [of _ out]) (simp add: c l)
  qed
qed

section \<open>Properties\<close>

text \<open>C35: The log viewer shows what was logged.  Through whatever derived loggers records are written, the
  ring yields the newest first those at or above the configured level, with the attributes of their
  loggers, filtered and cut as asked, and the output receives the same records in their order.\<close>

theorem loggers_share_ring:
  assumes "fold (\<lambda>(ds, rec). logger_Log (derive (logging_New level format True) ds) rec) calls
      \<lparr>lsRing = NewRing n, lsOut = []\<rparr> = s"
  shows "(let logged = filter (\<lambda>(ds, rec). parseLevel level \<le> lrLevel rec) calls;
       kept = filter (\<lambda>e. minLevel \<le> parseLevel (enLevel e)) (take (nat (max 1 n)) (rev (map entry_of logged)))
     in Entries (lsRing s) minLevel limit = (if limit > 0 then take (nat limit) kept else kept) \<and>
       map snd (lsOut s) = map snd logged)"
  using logger_Log_all [of level format calls "\<lparr>lsRing = NewRing n, lsOut = []\<rparr>"] assms
  by (auto simp: ring_reads_newest Let_def)

definition sample_record :: "Level \<Rightarrow> string \<Rightarrow> log_record" where
  "sample_record level message = \<lparr>lrTime = 0, lrLevel = level, lrMessage = message, lrAttrs = []\<rparr>"

theorem loggers_share_ring_witness:
  "map enMessage (Entries (lsRing
     (logger_Log (derive (logging_New ''warn'' ''JSON'' True) [Attrs [(''service'', ''tftp'')]]) (sample_record LevelError ''failed'')
       (logger_Log (derive (logging_New ''warn'' ''JSON'' True) []) (sample_record LevelInfo ''started'')
         \<lparr>lsRing = NewRing 9, lsOut = []\<rparr>))) LevelDebug 0) = [''failed'']"
proof -
  have p: "parseLevel ''warn'' = LevelWarn" by (simp add: parseLevel_def lower_char_def char_of_eq_iff)
  show ?thesis
    using loggers_share_ring [of "''warn''" "''JSON''"
        "[([], sample_record LevelInfo ''started''), ([Attrs [(''service'', ''tftp'')]], sample_record LevelError ''failed'')]" 9 _ LevelDebug 0, OF refl]
    by (simp add: Let_def sample_record_def entry_of_def parseLevel_String p)
qed

end
