(* ===== verification/Spec2Isabelle.thy ===== *)
theory Spec2Isabelle
  imports Dhcp_Service Dhcp_Observer Tftp Netutil Logging Supervisor Services Schema Provider Answer Iso Boot_Facts Auth
    Server_Safety API_Facts Startup Rows Middleware Network_Run Main_Process Export_Stream Logger
begin

text \<open>
  HELBOOT installs operating systems over the network: one Go process answers DHCP and TFTP
  requests of booting machines, hands each machine an iPXE script and an answer file over HTTP,
  and is driven by a REST API with accounts, profiles, hosts, images and installations in an
  SQLite database.  This library models the Go code under \<open>src/backend\<close> and proves what its parts
  promise each other and the user.

  \<^bold>\<open>Parts and theories.\<close>
  \<^item> Shared: \<open>Prelude\<close> (Go strings as byte strings, times as nanoseconds, \<open>strconv\<close>), \<open>Go_Path\<close>
    (\<open>path/filepath\<close>), \<open>Net_Ip\<close> and \<open>Parse_IP\<close> (\<open>net.IP\<close>), \<open>Netutil\<close> (\<open>internal/netutil\<close>, \<open>strings\<close>),
    \<open>Json_Text\<close> (\<open>encoding/json\<close> on lists of strings, down to the bytes).
  \<^item> Boot network, \<open>internal/network\<close>: \<open>Lease_Pool\<close>, \<open>Pxe\<close>, \<open>Dhcp_Server\<close>, \<open>Dhcp_Service\<close> (both DHCP
    services as the network sees them), \<open>Dhcp_Observer\<close>, \<open>Tftp\<close>.
  \<^item> Process: \<open>Config\<close>, \<open>Services\<close> (\<open>cmd/helboot/services.go\<close>, with the lease adapter between the pool
    and the database), \<open>Supervisor\<close> (\<open>internal/service\<close>), \<open>Network_Run\<close> (the \<open>Run\<close> methods it supervises, with
    the sockets they open and close), \<open>Logging\<close> and \<open>Logger\<close>, \<open>Migrations\<close> (\<open>internal/db\<close>), \<open>Backup\<close>, \<open>Startup\<close>
    (the beginning of \<open>run\<close> of \<open>cmd/helboot/main.go\<close>) and \<open>Main_Process\<close> (all of it: wiring, serving,
    shutting down).  \<open>Disk_Faults\<close> and \<open>Export_Stream\<close> have the operations on files of \<open>internal/iso\<close>
    and \<open>internal/backup\<close> once more, with system calls that fail, connections that break and a
    process that stops between two effects.
  \<^item> Database, \<open>internal/model\<close> and \<open>internal/store\<close>: \<open>Model\<close>, \<open>Table\<close> (the SQL in use, on lists of rows),
    \<open>Store\<close> (one definition per repository operation, with the constraints of the schema),
    \<open>Store_Inv\<close> (the invariant \<open>db_inv\<close> and the step relation \<open>db_step\<close> of all writes), \<open>Store_Facts\<close>,
    \<open>Stored_Time\<close> (\<open>formatTime\<close> and \<open>parseTime\<close> over the calendar of package \<open>time\<close>) and \<open>Rows\<close> (the rows
    the statements select and the \<open>scan\<close> functions that read them).
  \<^item> Providers and images: \<open>Schema\<close>, \<open>Provider\<close>, \<open>Answer\<close>, \<open>Iso\<close>.
  \<^item> HTTP: \<open>Http\<close> (requests, replies, JSON decoding), \<open>Boot\<close> and \<open>Boot_Facts\<close> (\<open>internal/boot\<close>), \<open>Password\<close>,
    \<open>Auth\<close>, \<open>Accounts\<close>, \<open>Machines\<close>, \<open>Profile_API\<close>, \<open>System_API\<close> (\<open>internal/api\<close>, one definition per
    handler), \<open>Web\<close>, and \<open>Server\<close>, which composes them: the table of routes, the guards, and the
    state \<open>server\<close> that a request maps to the next state and a reply.  \<open>Middleware\<close> has the wrappers
    around it (\<open>middleware.go\<close>) on the calls made to the \<open>ResponseWriter\<close>.

  \<^bold>\<open>How state and operations correspond.\<close>  A Go struct is a record, a method a definition of its name that
  takes the state and returns it with the result; an error or early return is a branch of a
  sum, an option or a reply, and a run-time panic is a value of its own.  The clock and random
  bytes are arguments.  The database is the record \<open>db\<close> of tables; a handler maps it to the
  database after the request, every write of the handler included.  The server also has the
  image directory, the data directory (both maps from names to contents), the login limiter and
  the DHCP sightings.  Mutexes and the single database connection serialise the operations, so
  an operation is one step; where a handler needs several statements, a finding says what an
  interleaving can do (\<open>concurrent_requests_queue_two\<close>).

  \<^bold>\<open>What the lemmas show.\<close>
  \<^item> Of the boot network: no two clients hold one address, an ACK is held, ProxyDHCP assigns
    nothing, TFTP stays below its root, a restart rebuilds the pool from the stored leases
    (the locales \<open>lease_store\<close> and \<open>unique_lease_store\<close> state what the pool may ask of a store; the
    database adapter is interpreted as one).
  \<^item> Of the database: \<open>db_inv\<close> holds after every sequence of writes, installations keep their profile
    version for ever, versions follow the versioning rules, revoked sessions are gone.
  \<^item> Of single handlers: login, the limiter and the guard, boot scripts and reports, previews,
    saved configurations, the validator against a declarative reading of the schema.
  \<^item> Of the whole server (\<open>Server_Facts\<close>, \<open>Server_Safety\<close>): every request is a sequence of repository
    writes (the locale \<open>db_service\<close>, interpreted for the API and for the boot surface), who may
    change what, that an administrator remains, that a machine has one installation at a time,
    and that no request matches two routes.  The wrapped handler sends what \<open>serve\<close> says.
  \<^item> Of the tables: the text of a time keeps its second and its order, the JSON of the tags reads
    back, and so the operations of \<open>Store\<close> on records are the SQL statements on rows
    (\<open>store_reads_rows\<close>).
  \<^item> Of the process: an accepted upload is the database the next start opens and migrates, a
    network service is restarted until the process stops and each of its runs closes the sockets
    it opened, and after a signal the requests in progress go on while the process ends within
    ten seconds.
  \<^item> Of failures: uploads publish a file whole or not at all (the locale \<open>publication\<close>, interpreted for
    images and for staged databases); after any sequence of interrupted restores the next start
    opens the old or a checked database, and the old one is kept but in two cases that are proved
    to lose it (\<open>failing_stat_loses_database\<close>, \<open>shared_second_loses_database\<close>); an export is accepted
    only when the archive arrived up to its end marker, the trailer of the gzip stream not
    included (\<open>cut_trailer_accepted\<close>).  On a disk that works these operations are those of \<open>Iso\<close> and
    \<open>Backup\<close> (\<open>Import_run_works\<close>, \<open>scan_run_works\<close>, \<open>stageDatabase_run_works\<close>,
    \<open>ApplyPendingRestore_run_works\<close>, \<open>Export_run_ok\<close>).

  \<^bold>\<open>Bounds.\<close>  Addresses are 32-bit words and wrap as in Go; \<open>firstFree_loop\<close> is a \<open>partial_function\<close>
  and is proved to return; all other loops are structural or have a measure, and no fuel is
  used.  Supervised services are given as the list of their attempts, a process as the list of the
  events it meets, those after the signal with their times.  Times are read and written for years of four digits.  Numbers from JSON and
  \<open>Atoi\<close> are checked against 64 bits; the limiter counts in rationals where the code uses floats.

  \<^bold>\<open>Not modelled.\<close>  Sockets beyond being open, the wire codecs of DHCP and TFTP, \<open>net/http\<close> below the
  router (file serving, connections); \<open>plugin.go\<close> and \<open>spec.go\<close>, which have no code.  Parameters stand for SQLite files, gzip and tar, the ISO 9660 reader, SHA-256,
  Argon2id, \<open>encoding/json\<close> for free-form documents, YAML and \<open>text/template\<close>.  The bytes of tar and
  gzip are not modelled, only the pieces they are made of, nor are failures of the database driver.  The texts of error messages are left out, their codes kept.
\<close>

end
